(* ===== verification/PyPrelude.thy ===== *)
theory PyPrelude
  imports Complex_Main
begin

text \<open>
  The part of Python's \<open>str\<close> and of exception passing that the components share, with the
  lemmas and the named collections their proofs use. A Python string is modelled as a \<open>string\<close>
  (a list of characters) over the ASCII alphabet: \<open>casefold\<close>, \<open>isspace\<close> and \<open>isdecimal\<close>
  are Python's on that alphabet and leave other characters alone. An exception is the left part
  of a sum.
\<close>

named_theorems py_defs \<open>unfoldings of the string operations\<close>
named_theorems step_simps \<open>how an operation changes each part of its component's state\<close>
named_theorems inv_intros \<open>preservation of the components' invariants\<close>

section \<open>Results and exceptions\<close>

type_synonym ('e, 'a) res = "'e + 'a"

definition bind_res :: "('e, 'a) res \<Rightarrow> ('a \<Rightarrow> ('e, 'b) res) \<Rightarrow> ('e, 'b) res" where
  "bind_res r f = (case r of Inl e \<Rightarrow> Inl e | Inr a \<Rightarrow> f a)"

lemma bind_res_simps [simp]:
  "bind_res (Inl e) f = Inl e"
  "bind_res (Inr a) f = f a"
  by (simp_all add: bind_res_def)

lemma bind_res_Inr_iff: "bind_res r f = Inr b \<longleftrightarrow> (\<exists>a. r = Inr a \<and> f a = Inr b)"
  by (cases r) auto

lemma bind_res_Inl_iff: "bind_res r f = Inl e \<longleftrightarrow> r = Inl e \<or> (\<exists>a. r = Inr a \<and> f a = Inl e)"
  by (cases r) auto

section \<open>Characters\<close>

definition code :: "char \<Rightarrow> nat" where
  "code c = of_char c"

definition is_space :: "char \<Rightarrow> bool" where
  "is_space c \<longleftrightarrow> (9 \<le> code c \<and> code c \<le> 13) \<or> (28 \<le> code c \<and> code c \<le> 32)"

definition is_digit :: "char \<Rightarrow> bool" where
  "is_digit c \<longleftrightarrow> 48 \<le> code c \<and> code c \<le> 57"

definition is_upper :: "char \<Rightarrow> bool" where
  "is_upper c \<longleftrightarrow> 65 \<le> code c \<and> code c \<le> 90"

definition is_lower :: "char \<Rightarrow> bool" where
  "is_lower c \<longleftrightarrow> 97 \<le> code c \<and> code c \<le> 122"

definition is_alnum :: "char \<Rightarrow> bool" where
  "is_alnum c \<longleftrightarrow> is_digit c \<or> is_upper c \<or> is_lower c"

definition is_word :: "char \<Rightarrow> bool" where
  "is_word c \<longleftrightarrow> is_alnum c \<or> c = CHR ''_''"

definition casefold_char :: "char \<Rightarrow> char" where
  "casefold_char c = (if is_upper c then char_of (code c + 32) else c)"

lemma code_casefold_char: "code (casefold_char c) = (if is_upper c then code c + 32 else code c)"
  by (auto simp: casefold_char_def is_upper_def code_def)

lemma casefold_char_idem [simp]: "casefold_char (casefold_char c) = casefold_char c"
proof -
  have "\<not> is_upper (casefold_char c)"
    by (auto simp: is_upper_def code_casefold_char)
  then show ?thesis by (simp add: casefold_char_def)
qed

lemma is_space_casefold [simp]: "is_space (casefold_char c) = is_space c"
  by (auto simp: is_space_def code_casefold_char is_upper_def)

lemma is_alnum_casefold [simp]: "is_alnum (casefold_char c) = is_alnum c"
  by (auto simp: is_alnum_def is_digit_def is_upper_def is_lower_def code_casefold_char)

section \<open>Strings\<close>

definition casefold :: "string \<Rightarrow> string" where
  "casefold s = map casefold_char s"

definition lstrip_by :: "(char \<Rightarrow> bool) \<Rightarrow> string \<Rightarrow> string" where
  "lstrip_by P s = dropWhile P s"

definition rstrip_by :: "(char \<Rightarrow> bool) \<Rightarrow> string \<Rightarrow> string" where
  "rstrip_by P s = rev (dropWhile P (rev s))"

definition strip_by :: "(char \<Rightarrow> bool) \<Rightarrow> string \<Rightarrow> string" where
  "strip_by P s = rstrip_by P (lstrip_by P s)"

definition strip :: "string \<Rightarrow> string" where
  "strip s = strip_by is_space s"

definition startswith :: "string \<Rightarrow> string \<Rightarrow> bool" where
  "startswith s p \<longleftrightarrow> take (length p) s = p"

definition endswith :: "string \<Rightarrow> string \<Rightarrow> bool" where
  "endswith s p \<longleftrightarrow> length p \<le> length s \<and> drop (length s - length p) s = p"

definition isdecimal :: "string \<Rightarrow> bool" where
  "isdecimal s \<longleftrightarrow> s \<noteq> [] \<and> list_all is_digit s"

fun split_on :: "char \<Rightarrow> string \<Rightarrow> string list" where
  "split_on c [] = [[]]"
| "split_on c (x # xs) =
     (if x = c then [] # split_on c xs
      else (case split_on c xs of [] \<Rightarrow> [[x]] | w # ws \<Rightarrow> (x # w) # ws))"

fun join :: "string \<Rightarrow> string list \<Rightarrow> string" where
  "join sep [] = []"
| "join sep [w] = w"
| "join sep (w # ws) = w @ sep @ join sep ws"

fun contains :: "string \<Rightarrow> string \<Rightarrow> bool" where
  "contains p [] = (p = [])"
| "contains p (x # xs) = (startswith (x # xs) p \<or> contains p xs)"

text \<open>\<open>s.replace(old, new)\<close> for a non-empty \<open>old\<close>, left to right without overlap.\<close>

function replace_all :: "string \<Rightarrow> string \<Rightarrow> string \<Rightarrow> string" where
  "replace_all old new [] = []"
| "replace_all old new (x # xs) =
     (if old \<noteq> [] \<and> startswith (x # xs) old
      then new @ replace_all old new (drop (length old) (x # xs))
      else x # replace_all old new xs)"
  by pat_completeness auto
termination
  by (relation "measure (\<lambda>(old, new, s). length s)") auto

definition replace_char :: "char \<Rightarrow> string \<Rightarrow> string \<Rightarrow> string" where
  "replace_char c new s = concat (map (\<lambda>x. if x = c then new else [x]) s)"

subsection \<open>Numbers in decimal\<close>

definition digit_char :: "nat \<Rightarrow> char" where
  "digit_char d = char_of (48 + d)"

fun dec :: "nat \<Rightarrow> string" where
  "dec n = (if n < 10 then [digit_char n] else dec (n div 10) @ [digit_char (n mod 10)])"

declare dec.simps [simp del]

definition str_int :: "int \<Rightarrow> string" where
  "str_int i = (if i < 0 then ''-'' @ dec (nat (- i)) else dec (nat i))"

text \<open>\<open>f"{i:02}"\<close>: padded with zeros to two places, after the sign.\<close>

definition pad2 :: "int \<Rightarrow> string" where
  "pad2 i =
     (if i < 0 then str_int i
      else if length (dec (nat i)) < 2 then ''0'' @ dec (nat i) else dec (nat i))"

definition digit_val :: "char \<Rightarrow> nat" where
  "digit_val c = code c - 48"

definition int_of_decimal :: "string \<Rightarrow> int" where
  "int_of_decimal s = int (foldl (\<lambda>n c. 10 * n + digit_val c) 0 s)"

section \<open>Lemmas on the string operations\<close>

lemma casefold_simps [simp]:
  "casefold [] = []"
  "casefold (c # s) = casefold_char c # casefold s"
  "casefold (s @ t) = casefold s @ casefold t"
  "length (casefold s) = length s"
  "casefold (casefold s) = casefold s"
  by (simp_all add: casefold_def)

lemma casefold_eq_Nil [simp]: "casefold s = [] \<longleftrightarrow> s = []"
  by (simp add: casefold_def)

lemma set_lstrip_by: "set (lstrip_by P s) \<subseteq> set s"
  by (auto simp: lstrip_by_def dest: set_dropWhileD)

lemma set_rstrip_by: "set (rstrip_by P s) \<subseteq> set s"
  by (auto simp: rstrip_by_def dest: set_dropWhileD)

lemma set_strip_by: "set (strip_by P s) \<subseteq> set s"
  using set_lstrip_by set_rstrip_by by (fastforce simp: strip_by_def)

lemma rstrip_by_Nil_iff: "rstrip_by P s = [] \<longleftrightarrow> list_all P s"
  by (auto simp: rstrip_by_def list_all_iff)

lemma strip_by_Nil_iff: "strip_by P s = [] \<longleftrightarrow> list_all P s"
proof -
  have "list_all P (dropWhile P s) \<longleftrightarrow> list_all P s"
    by (induction s) auto
  then show ?thesis
    by (simp add: strip_by_def rstrip_by_Nil_iff lstrip_by_def)
qed

lemma hd_lstrip_by: "lstrip_by P s \<noteq> [] \<Longrightarrow> \<not> P (hd (lstrip_by P s))"
  by (simp add: lstrip_by_def hd_dropWhile)

lemma last_rstrip_by: "rstrip_by P s \<noteq> [] \<Longrightarrow> \<not> P (last (rstrip_by P s))"
  by (simp add: rstrip_by_def last_rev hd_dropWhile)

lemma rstrip_by_prefix: "\<exists>t. s = rstrip_by P s @ t"
proof -
  have "rev s = takeWhile P (rev s) @ dropWhile P (rev s)" by simp
  then have "rev (rev s) = rev (dropWhile P (rev s)) @ rev (takeWhile P (rev s))"
    by (metis rev_append)
  then show ?thesis by (auto simp: rstrip_by_def)
qed

lemma hd_strip_by: "strip_by P s \<noteq> [] \<Longrightarrow> \<not> P (hd (strip_by P s))"
proof -
  assume nonempty: "strip_by P s \<noteq> []"
  obtain t where t: "lstrip_by P s = strip_by P s @ t"
    using rstrip_by_prefix by (metis strip_by_def)
  with nonempty have "lstrip_by P s \<noteq> []" by simp
  with t nonempty show ?thesis using hd_lstrip_by [of P s] by simp
qed

lemma last_strip_by: "strip_by P s \<noteq> [] \<Longrightarrow> \<not> P (last (strip_by P s))"
  by (simp add: strip_by_def last_rstrip_by)

lemma split_on_nonempty [simp]: "split_on c s \<noteq> []"
  by (induction s) (auto split: list.splits)

lemma split_on_no_sep: "w \<in> set (split_on c s) \<Longrightarrow> c \<notin> set w"
  by (induction s arbitrary: w) (auto split: list.splits if_splits)

lemma split_on_id: "c \<notin> set s \<Longrightarrow> split_on c s = [s]"
  by (induction s) auto

lemma split_on_append_sep: "c \<notin> set s \<Longrightarrow> split_on c (s @ c # t) = s # split_on c t"
  by (induction s) (auto split: list.splits)

lemma split_on_join:
  "ws \<noteq> [] \<Longrightarrow> (\<And>w. w \<in> set ws \<Longrightarrow> c \<notin> set w) \<Longrightarrow> split_on c (join [c] ws) = ws"
proof (induction ws)
  case (Cons w ws)
  then show ?case by (cases ws) (simp_all add: split_on_id split_on_append_sep)
qed simp

lemma startswith_append [simp]: "startswith (p @ s) p"
  by (simp add: startswith_def)

lemma startswith_iff: "startswith s p \<longleftrightarrow> (\<exists>t. s = p @ t)"
  by (metis append_eq_conv_conj append_take_drop_id startswith_def)

lemma endswith_iff: "endswith s p \<longleftrightarrow> (\<exists>t. s = t @ p)"
  by (auto simp: endswith_def) (metis append_take_drop_id)

lemma code_digit_char: "d < 10 \<Longrightarrow> code (digit_char d) = 48 + d"
  by (simp add: digit_char_def code_def)

lemma is_digit_digit_char [simp]: "d < 10 \<Longrightarrow> is_digit (digit_char d)"
  by (simp add: is_digit_def code_digit_char)

lemma dec_small: "n < 10 \<Longrightarrow> dec n = [digit_char n]"
  by (subst dec.simps) simp

lemma dec_large: "10 \<le> n \<Longrightarrow> dec n = dec (n div 10) @ [digit_char (n mod 10)]"
  by (subst dec.simps) simp

lemma dec_nonempty [simp]: "dec n \<noteq> []"
  by (subst dec.simps) simp

lemma dec_digits: "list_all is_digit (dec n)"
proof (induction n rule: dec.induct)
  case (1 n)
  then show ?case by (subst dec.simps) auto
qed

lemma isdecimal_dec [simp]: "isdecimal (dec n)"
  by (simp add: isdecimal_def dec_digits)

lemma int_of_decimal_snoc: "int_of_decimal (s @ [c]) = 10 * int_of_decimal s + int (digit_val c)"
  by (simp add: int_of_decimal_def)

lemma int_of_decimal_dec: "int_of_decimal (dec n) = int n"
proof (induction n rule: dec.induct)
  case (1 n)
  show ?case
  proof (cases "n < 10")
    case True
    then show ?thesis
      by (subst dec.simps) (simp add: int_of_decimal_def digit_val_def code_digit_char)
  next
    case False
    then show ?thesis
      using "1.IH" by (simp add: dec.simps [of n] int_of_decimal_snoc digit_val_def code_digit_char
        zdiv_int zmod_int)
  qed
qed

lemma dec_inject: "dec m = dec n \<longleftrightarrow> m = n"
  by (metis int_of_decimal_dec of_nat_eq_iff)

lemma int_of_decimal_nonneg [simp]: "0 \<le> int_of_decimal s"
  by (simp add: int_of_decimal_def)

lemma int_of_decimal_bound: "list_all is_digit s \<Longrightarrow> int_of_decimal s < 10 ^ length s"
proof (induction s rule: rev_induct)
  case (snoc c s)
  have "digit_val c < 10" using snoc.prems by (auto simp: digit_val_def is_digit_def)
  with snoc show ?case by (simp add: int_of_decimal_snoc)
qed (simp add: int_of_decimal_def)

end
