(* ===== verification/OrderedDict.thy ===== *)
theory OrderedDict
  imports PyPrelude "HOL-Library.AList"
begin

text \<open>
  Python's insertion-ordered \<open>dict\<close> and \<open>OrderedDict\<close> as association lists with distinct keys:
  \<open>d[k] = v\<close> is \<open>AList.update\<close> (in place when the key is there, at the end when it is new),
  \<open>d.pop(k, None)\<close> is \<open>AList.delete\<close>, \<open>d.get(k)\<close> is \<open>map_of d k\<close>,
  \<open>move_to_end\<close> and the eviction loops are below.
\<close>

type_synonym ('k, 'v) odict = "('k \<times> 'v) list"

abbreviation od_keys :: "('k, 'v) odict \<Rightarrow> 'k list" where
  "od_keys d \<equiv> map fst d"

definition od_ok :: "('k, 'v) odict \<Rightarrow> bool" where
  "od_ok d \<longleftrightarrow> distinct (od_keys d)"

definition move_to_end :: "'k \<Rightarrow> ('k, 'v) odict \<Rightarrow> ('k, 'v) odict" where
  "move_to_end k d =
     (case map_of d k of None \<Rightarrow> d | Some v \<Rightarrow> AList.delete k d @ [(k, v)])"

text \<open>\<open>while len(d) > n: d.popitem(last=False)\<close>\<close>

fun evict_oldest :: "nat \<Rightarrow> ('k, 'v) odict \<Rightarrow> ('k, 'v) odict" where
  "evict_oldest n [] = []"
| "evict_oldest n (p # d) = (if n < length (p # d) then evict_oldest n d else p # d)"

section \<open>Lemmas\<close>

lemma evict_oldest_drop: "evict_oldest n d = drop (length d - n) d"
  by (induction n d rule: evict_oldest.induct) (auto simp: Suc_diff_le not_less)

lemma length_evict_oldest: "length (evict_oldest n d) = min n (length d)"
  by (auto simp: evict_oldest_drop)

lemma od_ok_Nil [simp]: "od_ok []"
  by (simp add: od_ok_def)

lemma od_ok_update [simp]: "od_ok d \<Longrightarrow> od_ok (AList.update k v d)"
  by (simp add: od_ok_def distinct_update)

lemma od_ok_delete [simp]: "od_ok d \<Longrightarrow> od_ok (AList.delete k d)"
  by (simp add: od_ok_def distinct_delete)

lemma od_ok_evict [simp]: "od_ok d \<Longrightarrow> od_ok (evict_oldest n d)"
  by (simp add: od_ok_def evict_oldest_drop drop_map [symmetric])

lemma od_ok_tl [simp]: "od_ok d \<Longrightarrow> od_ok (tl d)"
  by (cases d) (auto simp: od_ok_def)

lemma set_evict: "set (evict_oldest n d) \<subseteq> set d"
  by (simp add: evict_oldest_drop set_drop_subset)

lemma distinct_map_of_evict:
  assumes "od_ok d" "map_of (evict_oldest n d) j = Some c"
  shows "map_of d j = Some c"
proof -
  have "(j, c) \<in> set d"
    using assms(2) set_evict by (fastforce dest: map_of_SomeD)
  with assms(1) show ?thesis by (simp add: od_ok_def)
qed

lemma keys_delete [simp]: "fst ` set (AList.delete k d) = fst ` set d - {k}"
  by (auto simp: AList.delete_eq)

lemma keys_update [simp]: "fst ` set (AList.update k v d) = insert k (fst ` set d)"
  by (induction d) auto

lemma map_of_filter_key: "map_of (filter (\<lambda>p. P (fst p)) d) k = (if P k then map_of d k else None)"
  by (induction d) auto

lemma delete_append: "AList.delete k (d @ e) = AList.delete k d @ AList.delete k e"
  by (simp add: AList.delete_eq)

lemma delete_absent: "k \<notin> set (od_keys d) \<Longrightarrow> AList.delete k d = d"
  by (force simp: AList.delete_eq filter_id_conv)

lemma update_absent: "k \<notin> set (od_keys d) \<Longrightarrow> AList.update k v d = d @ [(k, v)]"
  by (induction d) auto

lemma od_ok_snoc_delete [simp]: "od_ok d \<Longrightarrow> od_ok (AList.delete k d @ [(k, v)])"
  using od_ok_delete [of d k] by (auto simp: od_ok_def AList.delete_eq)

text \<open>Storing a key and moving it to the end is one step: the entry becomes the newest.\<close>

lemma move_to_end_update:
  "move_to_end k (AList.update k v d) = AList.delete k d @ [(k, v)]"
  by (simp add: move_to_end_def update_conv' AList.delete_update_same)

lemma move_to_end_found:
  "map_of d k = Some v \<Longrightarrow> move_to_end k d = AList.delete k d @ [(k, v)]"
  by (simp add: move_to_end_def)

lemmas move_to_end_simps = move_to_end_update move_to_end_found

lemma map_of_move_to_end [simp]: "od_ok d \<Longrightarrow> map_of (move_to_end k d) = map_of d"
proof (rule ext)
  fix j
  assume "od_ok d"
  show "map_of (move_to_end k d) j = map_of d j"
    by (cases "map_of d k"; cases "j = k")
      (auto simp: move_to_end_def map_add_def delete_conv' split: option.splits)
qed

lemma length_update_le: "length (AList.update k v d) \<le> Suc (length d)"
  by (induction d) auto

lemma length_delete: "length (AList.delete k d) \<le> length d"
  by (simp add: AList.delete_eq)

lemma od_keys_bound:
  assumes "od_ok d" "set (od_keys d) \<subseteq> K" "finite K"
  shows "length d \<le> card K"
  using assms by (metis card_mono distinct_card length_map od_ok_def)

lemma od_ok_split:
  assumes "od_ok d" "map_of d k = Some v"
  obtains xs ys where "d = xs @ (k, v) # ys" "k \<notin> set (od_keys xs)" "k \<notin> set (od_keys ys)"
proof -
  from assms(2) have "(k, v) \<in> set d" by (rule map_of_SomeD)
  then obtain xs ys where d: "d = xs @ (k, v) # ys" by (meson split_list)
  with assms(1) show thesis by (intro that [of xs ys]) (auto simp: od_ok_def)
qed

end
