(* ===== verification/Errors.thy ===== *)
theory Errors
  imports PyPrelude
begin

text \<open>
  The exceptions the modelled code raises, catches and re-raises, one constructor per class with
  its message. \<open>TorBoxAPIError\<close> also carries the error code TorBox sent
  (api/app/providers/torbox/client.py). \<open>HTTPException\<close> is FastAPI's, with its status code.
  \<open>OutOfFuel\<close> is no exception of the code and no \<open>except\<close> clause catches it: it is the value of a
  modelled loop whose fuel ran out, where the code would still be running.
\<close>

datatype exn =
    ValueError string
  | OSError string
  | HttpxError string
  | SQLAlchemyError string
  | TorBoxAPIError string "string option"
  | TmdbClientError string
  | AioStreamsClientError string
  | AniListClientError string
  | ResolverManifestError string
  | ResolverLookupError string
  | ResolverRecoveryError string
  | ResolverTemporarilyUnavailableError string
  | StreamActionError string
  | SyncAlreadyRunningError string
  | SeasonCompletionAlreadyRunningError string
  | SyncConfigurationError string
  | SyncExecutionError string
  | AuthoritativeIdentityConflictError string
  | HTTPException nat string
  | RuntimeError string
  | IndexError string
  | TypeError string
  | OverflowError string
  | OutOfFuel

type_synonym 'a result = "(exn, 'a) res"

abbreviation raise :: "exn \<Rightarrow> 'a result" where "raise \<equiv> Inl"
abbreviation return :: "'a \<Rightarrow> 'a result" where "return \<equiv> Inr"

definition returned :: "'a result \<Rightarrow> bool" where
  "returned r = (case r of Inl _ \<Rightarrow> False | Inr _ \<Rightarrow> True)"

lemma returned_simps [simp]: "\<not> returned (Inl e)" "returned (Inr a)"
  by (simp_all add: returned_def)

text \<open>A comprehension whose element expression may raise.\<close>

fun mapM :: "('a \<Rightarrow> 'b result) \<Rightarrow> 'a list \<Rightarrow> 'b list result" where
  "mapM f [] = return []"
| "mapM f (x # xs) = bind_res (f x) (\<lambda>y. bind_res (mapM f xs) (\<lambda>ys. return (y # ys)))"

lemma mapM_ok: "(\<And>x. x \<in> set xs \<Longrightarrow> f x = return (g x)) \<Longrightarrow> mapM f xs = return (map g xs)"
  by (induction xs) simp_all

lemma mapM_rel: "mapM f xs = return ys \<Longrightarrow> list_all2 (\<lambda>x y. f x = return y) xs ys"
  by (induction xs arbitrary: ys) (auto simp: bind_res_Inr_iff)

end
