(* ===== verification/TtlCache.thy ===== *)
theory TtlCache
  imports OrderedDict Errors
begin

text \<open>
  The contract the three process-memory caches share (resolved targets, torrent manifests,
  AIOStreams results): a bounded dictionary whose entries expire and whose least recently used
  entry is evicted first. The contract says what \<open>get\<close> and \<open>put\<close> do to the ordered entries;
  the locale's lemmas are what clients rely on, and the cache theories interpret it on the code's
  models. Times are rationals: the values \<open>monotonic()\<close> returned, without rounding.
\<close>

type_synonym time = rat

text \<open>An operation of a client: a lookup or a store of a key, at the time its clock read.\<close>

datatype ('k, 'w) cache_op = OpGet time 'k | OpPut time 'k 'w

fun op_key :: "('k, 'w) cache_op \<Rightarrow> 'k" where
  "op_key (OpGet t k) = k"
| "op_key (OpPut t k w) = k"

fun run_cache ::
  "(time \<Rightarrow> 'k \<Rightarrow> 's \<Rightarrow> 'r \<times> 's) \<Rightarrow> (time \<Rightarrow> 'k \<Rightarrow> 'w \<Rightarrow> 's \<Rightarrow> 's) \<Rightarrow>
   ('k, 'w) cache_op list \<Rightarrow> 's \<Rightarrow> 's" where
  "run_cache get put [] s = s"
| "run_cache get put (OpGet t k # ops) s = run_cache get put ops (snd (get t k s))"
| "run_cache get put (OpPut t k w # ops) s = run_cache get put ops (put t k w s)"

text \<open>The last value a run stores under a key, with the time it was stored.\<close>

fun last_put :: "'k \<Rightarrow> ('k, 'w) cache_op list \<Rightarrow> (time \<times> 'w) option \<Rightarrow> (time \<times> 'w) option" where
  "last_put k [] acc = acc"
| "last_put k (OpGet t j # ops) acc = last_put k ops acc"
| "last_put k (OpPut t j w # ops) acc = last_put k ops (if j = k then Some (t, w) else acc)"

text \<open>Entry \<open>k\<close> is there with value \<open>c\<close>, and only keys of \<open>K\<close> are newer.\<close>

definition newest_but :: "'k set \<Rightarrow> 'k \<Rightarrow> 'c \<Rightarrow> ('k, 'c) odict \<Rightarrow> bool" where
  "newest_but K k c d \<longleftrightarrow>
     (\<exists>xs ys. d = xs @ (k, c) # ys \<and> k \<notin> set (od_keys xs) \<and> set (od_keys ys) \<subseteq> K)"

lemma newest_but_lookup: "newest_but K k c d \<Longrightarrow> map_of d k = Some c"
  by (auto simp: newest_but_def map_add_def split: option.splits dest!: map_of_SomeD)
    (metis image_eqI fst_conv)

lemma newest_but_delete: "newest_but K k c d \<Longrightarrow> j \<noteq> k \<Longrightarrow> newest_but K k c (AList.delete j d)"
proof -
  assume k: "newest_but K k c d" and "j \<noteq> k"
  then obtain xs ys where d: "d = xs @ (k, c) # ys" "k \<notin> set (od_keys xs)" "set (od_keys ys) \<subseteq> K"
    by (auto simp: newest_but_def)
  have "AList.delete j d = AList.delete j xs @ (k, c) # AList.delete j ys"
    using d(1) \<open>j \<noteq> k\<close> by (simp add: AList.delete_eq)
  moreover have "k \<notin> set (od_keys (AList.delete j xs))" "set (od_keys (AList.delete j ys)) \<subseteq> K"
    using d by auto
  ultimately show ?thesis unfolding newest_but_def by blast
qed

lemma newest_but_snoc: "newest_but K k c d \<Longrightarrow> newest_but (insert j K) k c (d @ [(j, e)])"
  by (fastforce simp: newest_but_def)

lemma newest_but_mono: "newest_but K k c d \<Longrightarrow> K \<subseteq> L \<Longrightarrow> newest_but L k c d"
  by (fastforce simp: newest_but_def)

text \<open>Evicting down to \<open>n\<close> entries spares \<open>k\<close> when fewer than \<open>n\<close> keys can be newer.\<close>

lemma newest_but_evict:
  assumes "newest_but K k c d" "od_ok d" "finite K" "card K < n"
  shows "newest_but K k c (evict_oldest n d)"
proof -
  from assms(1) obtain xs ys where
    d: "d = xs @ (k, c) # ys" "k \<notin> set (od_keys xs)" "set (od_keys ys) \<subseteq> K"
    by (auto simp: newest_but_def)
  have "od_ok ys" using assms(2) d(1) by (simp add: od_ok_def)
  with d(3) assms(3) have "length ys \<le> card K" by (intro od_keys_bound)
  with assms(4) d(1) have "length d - n \<le> length xs" by simp
  with d(1) have "evict_oldest n d = drop (length d - n) xs @ (k, c) # ys"
    by (simp add: evict_oldest_drop)
  moreover have "k \<notin> set (od_keys (drop (length d - n) xs))"
    using d(2) by (auto dest: in_set_dropD)
  ultimately show ?thesis using d(3) unfolding newest_but_def by blast
qed

section \<open>The contract\<close>

locale ttl_lru =
  fixes get :: "time \<Rightarrow> 'k \<Rightarrow> 's \<Rightarrow> 'r \<times> 's"
    and put :: "time \<Rightarrow> 'k \<Rightarrow> 'w \<Rightarrow> 's \<Rightarrow> 's"
    and entries :: "'s \<Rightarrow> ('k, 'c) odict"
    and cap :: "'s \<Rightarrow> nat"
    and mk :: "'s \<Rightarrow> time \<Rightarrow> 'w \<Rightarrow> 'c"
    and expiry :: "'c \<Rightarrow> time"
    and hit :: "'c \<Rightarrow> 'r"
    and miss :: 'r
  assumes get_miss: "map_of (entries s) k = None \<Longrightarrow> get now k s = (miss, s)"
    and get_stale: "map_of (entries s) k = Some c \<Longrightarrow> expiry c \<le> now \<Longrightarrow>
          fst (get now k s) = miss \<and> entries (snd (get now k s)) = AList.delete k (entries s)"
    and get_live: "map_of (entries s) k = Some c \<Longrightarrow> now < expiry c \<Longrightarrow>
          fst (get now k s) = hit c \<and>
          entries (snd (get now k s)) = AList.delete k (entries s) @ [(k, c)]"
    and put_entries: "entries (put now k w s) =
          evict_oldest (cap s) (AList.delete k (entries s) @ [(k, mk s now w)])"
    and cap_get: "cap (snd (get now k s)) = cap s"
    and cap_put: "cap (put now k w s) = cap s"
    and mk_get: "mk (snd (get now k s)) = mk s"
    and mk_put: "mk (put now k w s) = mk s"
begin

definition bounded :: "'s \<Rightarrow> bool" where
  "bounded s \<longleftrightarrow> od_ok (entries s) \<and> length (entries s) \<le> cap s"

lemma get_cases:
  obtains (absent) "map_of (entries s) k = None" "get now k s = (miss, s)"
    | (stale) c where "map_of (entries s) k = Some c" "expiry c \<le> now"
        "fst (get now k s) = miss" "entries (snd (get now k s)) = AList.delete k (entries s)"
    | (live) c where "map_of (entries s) k = Some c" "now < expiry c"
        "fst (get now k s) = hit c"
        "entries (snd (get now k s)) = AList.delete k (entries s) @ [(k, c)]"
  using get_miss get_stale get_live by (metis not_le option.exhaust)

lemma bounded_get: "bounded s \<Longrightarrow> bounded (snd (get now k s))"
proof (cases rule: get_cases [of s k now])
  case (live c)
  assume b: "bounded s"
  have "length (AList.delete k (entries s)) < length (entries s)"
    using live(1) by (auto simp: AList.delete_eq intro!: length_filter_less dest: map_of_SomeD)
  with b live show ?thesis by (simp add: bounded_def cap_get)
next
  case (stale c)
  assume "bounded s"
  with stale show ?thesis
    using length_delete [of k "entries s"] by (simp add: bounded_def cap_get)
qed simp

lemma bounded_put: "bounded s \<Longrightarrow> bounded (put now k w s)"
  by (simp add: bounded_def put_entries cap_put length_evict_oldest)

lemma bounded_run: "bounded s \<Longrightarrow> bounded (run_cache get put ops s)"
proof (induction ops arbitrary: s)
  case (Cons x ops)
  then show ?case by (cases x) (simp_all add: bounded_get bounded_put)
qed simp

lemma cap_run: "cap (run_cache get put ops s) = cap s"
proof (induction ops arbitrary: s)
  case (Cons x ops)
  then show ?case by (cases x) (simp_all add: cap_get cap_put)
qed simp

lemma hit_live: "fst (get now k s) \<noteq> miss \<Longrightarrow>
    \<exists>c. map_of (entries s) k = Some c \<and> now < expiry c \<and> fst (get now k s) = hit c"
  by (cases rule: get_cases [of s k now]) auto

lemma newest_get:
  "newest_but K k c (entries s) \<Longrightarrow> j \<noteq> k \<Longrightarrow>
   newest_but (insert j K) k c (entries (snd (get now j s)))"
  by (cases rule: get_cases [of s j now])
    (auto intro: newest_but_mono newest_but_delete newest_but_snoc)

lemma newest_put:
  assumes "newest_but K k c (entries s)" "j \<noteq> k" "bounded s" "finite K" "card (insert j K) < cap s"
  shows "newest_but (insert j K) k c (entries (put now j w s))"
  using assms by (simp add: put_entries bounded_def newest_but_evict newest_but_snoc newest_but_delete)

lemma newest_run:
  assumes "newest_but K k c (entries s)" "bounded s" "k \<notin> op_key ` set ops" "finite K"
    and "card (K \<union> op_key ` set ops) < cap s"
  shows "newest_but (K \<union> op_key ` set ops) k c (entries (run_cache get put ops s))"
  using assms
proof (induction ops arbitrary: s K)
  case (Cons x ops)
  let ?j = "op_key x"
  have "card (insert ?j K) \<le> card (K \<union> op_key ` set (x # ops))"
    using Cons.prems(4) by (intro card_mono) auto
  then have small: "card (insert ?j K) < cap s" using Cons.prems(5) by simp
  have IH: "newest_but (insert ?j K) k c (entries s') \<Longrightarrow> bounded s' \<Longrightarrow> cap s' = cap s \<Longrightarrow>
      newest_but (insert ?j K \<union> op_key ` set ops) k c (entries (run_cache get put ops s'))" for s'
    using Cons.prems(3,4,5) by (intro Cons.IH) auto
  show ?case
  proof (cases x)
    case (OpGet t j)
    have "newest_but (insert j K) k c (entries (snd (get t j s)))"
      using Cons.prems(1,3) OpGet by (intro newest_get) auto
    with OpGet IH [of "snd (get t j s)"] show ?thesis
      by (simp add: bounded_get cap_get Cons.prems(2))
  next
    case (OpPut t j w)
    have "newest_but (insert j K) k c (entries (put t j w s))"
      using Cons.prems(1-4) OpPut small by (intro newest_put) auto
    with OpPut IH [of "put t j w s"] show ?thesis
      by (simp add: bounded_put cap_put Cons.prems(2))
  qed
qed simp

text \<open>
  The guarantee to clients: what was stored is found again until it expires, whatever happens to
  the other keys in between, as long as fewer than \<open>cap\<close> of them are touched.
\<close>

lemma put_then_get:
  assumes "bounded s" "k \<notin> op_key ` set ops" "card (op_key ` set ops) < cap s"
    and "now < expiry (mk s t w)"
  shows "fst (get now k (run_cache get put ops (put t k w s))) = hit (mk s t w)"
proof -
  have "newest_but {} k (mk s t w) (AList.delete k (entries s) @ [(k, mk s t w)])"
    by (auto simp: newest_but_def)
  then have "newest_but {} k (mk s t w) (entries (put t k w s))"
    using assms(1,3) by (simp add: put_entries newest_but_evict bounded_def)
  then have "newest_but (op_key ` set ops) k (mk s t w) (entries (run_cache get put ops (put t k w s)))"
    using newest_run [of "{}" k "mk s t w" "put t k w s" ops] assms
    by (simp add: bounded_put cap_put)
  then show ?thesis
    using get_live [OF newest_but_lookup] assms(4) by blast
qed

text \<open>
  Coherence: a hit is the last value stored under the key, and it has not expired. The entry
  found for a key is the one its last store made, by induction on the run.
\<close>

definition coherent :: "'k \<Rightarrow> (time \<times> 'w) option \<Rightarrow> 's \<Rightarrow> bool" where
  "coherent k lp s \<longleftrightarrow>
     (\<forall>c. map_of (entries s) k = Some c \<longrightarrow> (\<exists>t w. lp = Some (t, w) \<and> c = mk s t w))"

lemma map_of_evict: "od_ok d \<Longrightarrow> map_of (evict_oldest n d) j = Some c \<Longrightarrow> map_of d j = Some c"
  by (metis distinct_map_of_evict)

lemma coherent_get: "bounded s \<Longrightarrow> coherent k lp s \<Longrightarrow> coherent k lp (snd (get now j s))"
  by (cases rule: get_cases [of s j now])
    (auto simp: coherent_def mk_get delete_conv' map_add_def split: option.splits if_splits)

lemma coherent_put:
  assumes "bounded s" "coherent k lp s"
  shows "coherent k (if j = k then Some (now, w) else lp) (put now j w s)"
proof -
  have "map_of (AList.delete j (entries s) @ [(j, mk s now w)]) k = Some c"
    if "map_of (entries (put now j w s)) k = Some c" for c
    by (rule map_of_evict [OF _ that [unfolded put_entries]]) (use assms(1) in \<open>simp add: bounded_def\<close>)
  then show ?thesis
    using assms(2)
    by (auto simp: coherent_def mk_put delete_conv' map_add_def split: option.splits if_splits)
qed

lemma coherent_run:
  "bounded s \<Longrightarrow> coherent k lp s \<Longrightarrow> coherent k (last_put k ops lp) (run_cache get put ops s)"
proof (induction ops arbitrary: s lp)
  case (Cons x ops)
  show ?case
  proof (cases x)
    case (OpGet t j)
    with Cons show ?thesis by (simp add: bounded_get coherent_get)
  next
    case (OpPut t j w)
    with Cons.prems have "coherent k (if j = k then Some (t, w) else lp) (put t j w s)"
      by (intro coherent_put)
    with Cons OpPut show ?thesis by (simp only: run_cache.simps last_put.simps bounded_put)
  qed
qed simp

lemma mk_run: "mk (run_cache get put ops s) = mk s"
proof (induction ops arbitrary: s)
  case (Cons x ops)
  then show ?case by (cases x) (simp_all add: mk_get mk_put)
qed simp

lemma hit_is_last_put:
  assumes "entries s = []" "fst (get now k (run_cache get put ops s)) \<noteq> miss"
  shows "\<exists>t w. last_put k ops None = Some (t, w) \<and> now < expiry (mk s t w) \<and>
           fst (get now k (run_cache get put ops s)) = hit (mk s t w)"
proof -
  have "coherent k (last_put k ops None) (run_cache get put ops s)"
    using assms(1) by (intro coherent_run) (auto simp: bounded_def coherent_def)
  with hit_live [OF assms(2)] show ?thesis by (auto simp: coherent_def mk_run)
qed

end

end
