(* ===== verification/Metrics.thy ===== *)
theory Metrics
  imports TtlCache
begin

text \<open>
  \<open>OperationalMetrics\<close> (api/app/operations/metrics.py): process-wide counters and a rolling list
  of TorBox call times. Every method holds the lock for its whole body, so each is one step.
\<close>

definition RECENT_CALL_WINDOW_SECONDS :: time where "RECENT_CALL_WINDOW_SECONDS = 60"
definition HTTP_TOO_MANY_REQUESTS :: nat where "HTTP_TOO_MANY_REQUESTS = 429"

record metrics =
  request_budget :: int
  requests_total :: nat
  requests_succeeded :: nat
  requests_failed :: nat
  responses_429 :: nat
  queue_depth :: nat
  recent_calls :: "time list"
  resolver_cache_hits :: nat
  resolver_cache_misses :: nat
  resolver_negative_cache_hits :: nat
  resolver_circuit_open_rejections :: nat
  resolver_recovery_attempts :: nat
  resolver_recovery_succeeded :: nat
  resolver_recovery_failed :: nat

definition metrics_init :: metrics where
  "metrics_init = \<lparr>request_budget = 0, requests_total = 0, requests_succeeded = 0,
     requests_failed = 0, responses_429 = 0, queue_depth = 0, recent_calls = [],
     resolver_cache_hits = 0, resolver_cache_misses = 0, resolver_negative_cache_hits = 0,
     resolver_circuit_open_rejections = 0, resolver_recovery_attempts = 0,
     resolver_recovery_succeeded = 0, resolver_recovery_failed = 0\<rparr>"

text \<open>\<open>while calls and calls[0] <= cutoff: calls.popleft()\<close>\<close>

fun popleft_until :: "time \<Rightarrow> time list \<Rightarrow> time list" where
  "popleft_until cutoff [] = []"
| "popleft_until cutoff (t # ts) = (if t \<le> cutoff then popleft_until cutoff ts else t # ts)"

definition prune_recent_calls :: "time \<Rightarrow> metrics \<Rightarrow> metrics" where
  "prune_recent_calls now m =
     m\<lparr>recent_calls := popleft_until (now - RECENT_CALL_WINDOW_SECONDS) (recent_calls m)\<rparr>"

definition configure_torbox_budget :: "int \<Rightarrow> metrics \<Rightarrow> metrics" where
  "configure_torbox_budget requests_per_minute m = m\<lparr>request_budget := requests_per_minute\<rparr>"

definition torbox_queue_entered :: "metrics \<Rightarrow> metrics" where
  "torbox_queue_entered m = m\<lparr>queue_depth := queue_depth m + 1\<rparr>"

text \<open>\<open>max(0, depth - 1)\<close> is subtraction on naturals.\<close>

definition torbox_queue_left :: "metrics \<Rightarrow> metrics" where
  "torbox_queue_left m = m\<lparr>queue_depth := queue_depth m - 1\<rparr>"

definition torbox_request_started :: "time \<Rightarrow> metrics \<Rightarrow> metrics" where
  "torbox_request_started now m =
     prune_recent_calls now
       (m\<lparr>requests_total := requests_total m + 1, recent_calls := recent_calls m @ [now]\<rparr>)"

definition torbox_request_finished :: "nat option \<Rightarrow> bool \<Rightarrow> metrics \<Rightarrow> metrics" where
  "torbox_request_finished status_code succeeded m =
     (let m1 = (if succeeded then m\<lparr>requests_succeeded := requests_succeeded m + 1\<rparr>
                else m\<lparr>requests_failed := requests_failed m + 1\<rparr>)
      in if status_code = Some HTTP_TOO_MANY_REQUESTS
         then m1\<lparr>responses_429 := responses_429 m1 + 1\<rparr> else m1)"

definition resolver_cache_hit :: "metrics \<Rightarrow> metrics" where
  "resolver_cache_hit m = m\<lparr>resolver_cache_hits := resolver_cache_hits m + 1\<rparr>"

definition resolver_cache_miss :: "metrics \<Rightarrow> metrics" where
  "resolver_cache_miss m = m\<lparr>resolver_cache_misses := resolver_cache_misses m + 1\<rparr>"

definition resolver_negative_cache_hit :: "metrics \<Rightarrow> metrics" where
  "resolver_negative_cache_hit m =
     m\<lparr>resolver_negative_cache_hits := resolver_negative_cache_hits m + 1\<rparr>"

definition resolver_circuit_open_rejection :: "metrics \<Rightarrow> metrics" where
  "resolver_circuit_open_rejection m =
     m\<lparr>resolver_circuit_open_rejections := resolver_circuit_open_rejections m + 1\<rparr>"

definition resolver_recovery_started :: "metrics \<Rightarrow> metrics" where
  "resolver_recovery_started m = m\<lparr>resolver_recovery_attempts := resolver_recovery_attempts m + 1\<rparr>"

definition resolver_recovery_finished :: "bool \<Rightarrow> metrics \<Rightarrow> metrics" where
  "resolver_recovery_finished succeeded m =
     (if succeeded then m\<lparr>resolver_recovery_succeeded := resolver_recovery_succeeded m + 1\<rparr>
      else m\<lparr>resolver_recovery_failed := resolver_recovery_failed m + 1\<rparr>)"

text \<open>The snapshot prunes first: its call count is the length of the pruned list.\<close>

definition snapshot :: "time \<Rightarrow> metrics \<Rightarrow> metrics" where
  "snapshot now m = prune_recent_calls now m"

definition torbox_calls_last_minute :: "metrics \<Rightarrow> nat" where
  "torbox_calls_last_minute m = length (recent_calls m)"

definition metrics_reset :: "metrics \<Rightarrow> metrics" where
  "metrics_reset m = metrics_init\<lparr>request_budget := request_budget m\<rparr>"

section \<open>Runs\<close>

datatype metrics_event = Started time | Finished "nat option" bool | QueueEntered | QueueLeft

fun metrics_step :: "metrics_event \<Rightarrow> metrics \<Rightarrow> metrics" where
  "metrics_step (Started now) m = torbox_request_started now m"
| "metrics_step (Finished status ok) m = torbox_request_finished status ok m"
| "metrics_step QueueEntered m = torbox_queue_entered m"
| "metrics_step QueueLeft m = torbox_queue_left m"

fun start_times :: "metrics_event list \<Rightarrow> time list" where
  "start_times [] = []"
| "start_times (Started now # es) = now # start_times es"
| "start_times (_ # es) = start_times es"

lemma popleft_until_sorted: "sorted ts \<Longrightarrow> popleft_until cutoff ts = filter (\<lambda>t. cutoff < t) ts"
proof (induction ts)
  case (Cons t ts)
  show ?case
  proof (cases "t \<le> cutoff")
    case True
    with Cons show ?thesis by simp
  next
    case False
    with Cons.prems have "\<forall>u\<in>set (t # ts). cutoff < u" by auto
    then have "filter (\<lambda>t. cutoff < t) (t # ts) = t # ts" by (simp only: filter_id_conv)
    with False show ?thesis by simp
  qed
qed simp

lemma sorted_popleft_until: "sorted ts \<Longrightarrow> sorted (popleft_until cutoff ts)"
  by (simp add: popleft_until_sorted sorted_filter [of id, simplified])

lemma set_popleft_until: "set (popleft_until cutoff ts) \<subseteq> set ts"
  by (induction ts) auto

lemma popleft_until_snoc: "cutoff < t \<Longrightarrow> popleft_until cutoff (ts @ [t]) = popleft_until cutoff ts @ [t]"
  by (induction ts) auto

lemma start_times_snoc:
  "start_times (es @ [e]) = start_times es @ (case e of Started t \<Rightarrow> [t] | _ \<Rightarrow> [])"
  by (induction es rule: start_times.induct) (auto split: metrics_event.splits)

lemma recent_calls_step:
  "recent_calls (metrics_step e m) = (case e of
     Started t \<Rightarrow> popleft_until (t - RECENT_CALL_WINDOW_SECONDS) (recent_calls m @ [t])
   | _ \<Rightarrow> recent_calls m)"
  by (cases e) (auto simp: torbox_request_started_def prune_recent_calls_def
      torbox_request_finished_def torbox_queue_entered_def torbox_queue_left_def Let_def)

text \<open>What a run keeps of the call times is what a later snapshot can still count.\<close>

lemma recent_calls_run:
  assumes "sorted (start_times es)"
  shows "sorted (recent_calls (fold metrics_step es metrics_init)) \<and>
    set (recent_calls (fold metrics_step es metrics_init)) \<subseteq> set (start_times es) \<and>
    (\<forall>now. (\<forall>t\<in>set (start_times es). t \<le> now) \<longrightarrow>
       popleft_until (now - RECENT_CALL_WINDOW_SECONDS) (recent_calls (fold metrics_step es metrics_init))
       = filter (\<lambda>t. now - RECENT_CALL_WINDOW_SECONDS < t) (start_times es))"
  using assms
proof (induction es rule: rev_induct)
  case Nil
  then show ?case by (simp add: metrics_init_def)
next
  case (snoc e es)
  let ?r = "recent_calls (fold metrics_step es metrics_init)"
  from snoc have IH: "sorted ?r" "set ?r \<subseteq> set (start_times es)"
    "\<And>now. (\<forall>t\<in>set (start_times es). t \<le> now) \<Longrightarrow>
       popleft_until (now - RECENT_CALL_WINDOW_SECONDS) ?r
       = filter (\<lambda>t. now - RECENT_CALL_WINDOW_SECONDS < t) (start_times es)"
    by (auto simp: start_times_snoc sorted_append)
  show ?case
  proof (cases e)
    case (Started t)
    let ?w = RECENT_CALL_WINDOW_SECONDS
    have before: "\<forall>u\<in>set (start_times es). u \<le> t"
      using snoc.prems Started by (auto simp: start_times_snoc sorted_append)
    have step: "recent_calls (fold metrics_step (es @ [e]) metrics_init)
        = filter (\<lambda>u. t - ?w < u) (start_times es) @ [t]"
      using IH(3) [OF before] Started
      by (simp add: recent_calls_step popleft_until_snoc RECENT_CALL_WINDOW_SECONDS_def
          del: metrics_step.simps)
    have srt: "sorted (filter (\<lambda>u. t - ?w < u) (start_times es) @ [t])"
      using snoc.prems before Started
      by (auto simp: start_times_snoc sorted_append sorted_filter [of id, simplified])
    have "popleft_until (now - ?w) (filter (\<lambda>u. t - ?w < u) (start_times es) @ [t])
        = filter (\<lambda>u. now - ?w < u) (start_times es @ [t])" if "t \<le> now" for now
      using that srt by (auto simp: popleft_until_sorted intro!: filter_cong)
    with step srt Started show ?thesis by (auto simp: start_times_snoc)
  qed (use IH in \<open>auto simp: recent_calls_step start_times_snoc simp del: metrics_step.simps\<close>)
qed

definition counters_consistent :: "metrics_event list \<Rightarrow> metrics \<Rightarrow> bool" where
  "counters_consistent es m \<longleftrightarrow>
     requests_total m = length (start_times es) \<and>
     requests_succeeded m = length (filter (\<lambda>e. case e of Finished _ ok \<Rightarrow> ok | _ \<Rightarrow> False) es) \<and>
     requests_failed m = length (filter (\<lambda>e. case e of Finished _ ok \<Rightarrow> \<not> ok | _ \<Rightarrow> False) es) \<and>
     responses_429 m = length (filter (\<lambda>e. case e of
        Finished status _ \<Rightarrow> status = Some HTTP_TOO_MANY_REQUESTS | _ \<Rightarrow> False) es)"

lemma counters_consistent_run: "counters_consistent es (fold metrics_step es metrics_init)"
proof (induction es rule: rev_induct)
  case Nil
  then show ?case by (simp add: counters_consistent_def metrics_init_def)
next
  case (snoc e es)
  then show ?case
    by (cases e) (auto simp: counters_consistent_def start_times_snoc torbox_request_started_def
        prune_recent_calls_def torbox_request_finished_def torbox_queue_entered_def
        torbox_queue_left_def Let_def)
qed

section \<open>What the operations page reads\<close>

text \<open>The call count of a snapshot is exactly the number of TorBox requests that started in the
  sixty seconds before it, after any run of requests whose start times do not go back.\<close>

theorem calls_last_minute:
  assumes "sorted (start_times es)" "\<forall>t\<in>set (start_times es). t \<le> now"
  shows "torbox_calls_last_minute (snapshot now (fold metrics_step es metrics_init))
     = length (filter (\<lambda>t. now - RECENT_CALL_WINDOW_SECONDS < t) (start_times es))"
  using recent_calls_run [OF assms(1)] assms(2)
  by (simp add: torbox_calls_last_minute_def snapshot_def prune_recent_calls_def)

theorem calls_last_minute_witness:
  "torbox_calls_last_minute (snapshot 70 (fold metrics_step
     [Started 5, Finished (Some 200) True, Started 10, Started 40] metrics_init)) = 1"
  using calls_last_minute [of "[Started 5, Finished (Some 200) True, Started 10, Started 40]" 70]
  by (simp add: RECENT_CALL_WINDOW_SECONDS_def)

text \<open>The request counters count what happened: every started request once, every finished one
  as a success or a failure, and every answer 429.\<close>

theorem request_counters:
  "counters_consistent es (fold metrics_step es metrics_init)"
  by (rule counters_consistent_run)

end
