(* ===== verification/Coordinator.thy ===== *)
theory Coordinator
  imports Metrics Errors
begin

text \<open>
  \<open>TorBoxRequestCoordinator\<close> (api/app/providers/torbox/runtime.py): the rolling request budget.
  \<open>_reserve_or_wait\<close> runs under the lock and is one step; the clock reading is an argument, so a
  run of the coordinator, with any number of coroutines waiting in \<open>acquire\<close>, is a sequence of
  these steps. \<open>asyncio.sleep\<close> is a parameter of \<open>acquire\<close>.
\<close>

definition RATE_WINDOW_SECONDS :: time where "RATE_WINDOW_SECONDS = 60"
definition TORBOX_REQUESTS_PER_MINUTE :: int where "TORBOX_REQUESTS_PER_MINUTE = 250"

record coordinator =
  requests_per_minute :: int
  admitted_calls :: "time list"

definition coordinator_init :: "int \<Rightarrow> metrics \<Rightarrow> (coordinator \<times> metrics) result" where
  "coordinator_init n m =
     (if n \<le> 0 then raise (ValueError ''TorBox requests per minute must be positive.'')
      else return (\<lparr>requests_per_minute = n, admitted_calls = []\<rparr>, configure_torbox_budget n m))"

definition coordinator_reconfigure :: "int \<Rightarrow> coordinator \<times> metrics \<Rightarrow> (coordinator \<times> metrics) result" where
  "coordinator_reconfigure n = (\<lambda>(c, m).
     if n \<le> 0 then raise (ValueError ''TorBox requests per minute must be positive.'')
     else return (c\<lparr>requests_per_minute := n\<rparr>, configure_torbox_budget n m))"

text \<open>
  \<open>None\<close> is an admission. When no call is admitted the deque is not empty, because the budget
  is positive; \<open>hd\<close> is Python's \<open>self._admitted_calls[0]\<close>.
\<close>

definition reserve_or_wait :: "time \<Rightarrow> coordinator \<Rightarrow> time option \<times> coordinator" where
  "reserve_or_wait now c =
     (let calls = popleft_until (now - RATE_WINDOW_SECONDS) (admitted_calls c);
          c1 = c\<lparr>admitted_calls := calls\<rparr>
      in if int (length calls) < requests_per_minute c
         then (None, c1\<lparr>admitted_calls := calls @ [now]\<rparr>)
         else (Some (max 0 (hd calls + RATE_WINDOW_SECONDS - now)), c1))"

text \<open>
  The loop of \<open>acquire\<close>: \<open>sleep now w\<close> is what the clock reads after sleeping \<open>w\<close> from \<open>now\<close>.
  The result is the time of the admission; None means that the fuel ran out.
\<close>

fun acquire_loop :: "nat \<Rightarrow> (time \<Rightarrow> time \<Rightarrow> time) \<Rightarrow> time \<Rightarrow> coordinator \<Rightarrow> (time \<times> coordinator) option" where
  "acquire_loop 0 sleep now c = None"
| "acquire_loop (Suc fuel) sleep now c =
     (case reserve_or_wait now c of
        (None, c') \<Rightarrow> Some (now, c')
      | (Some w, c') \<Rightarrow> acquire_loop fuel sleep (sleep now w) c')"

definition acquire ::
  "nat \<Rightarrow> (time \<Rightarrow> time \<Rightarrow> time) \<Rightarrow> time \<Rightarrow> coordinator \<times> metrics \<Rightarrow> (time \<times> coordinator \<times> metrics) option" where
  "acquire fuel sleep now = (\<lambda>(c, m).
     case acquire_loop fuel sleep now c of
       None \<Rightarrow> None
     | Some (t, c') \<Rightarrow> Some (t, c', torbox_queue_left (torbox_queue_entered m)))"

definition record_request_started :: "time \<Rightarrow> metrics \<Rightarrow> metrics" where
  "record_request_started now m = torbox_request_started now m"

definition record_request_finished :: "nat option \<Rightarrow> bool \<Rightarrow> metrics \<Rightarrow> metrics" where
  "record_request_finished status_code succeeded m = torbox_request_finished status_code succeeded m"

section \<open>Runs of reservations\<close>

datatype coordinator_event = Reserve time | Reconfigure int

fun coordinator_step :: "coordinator_event \<Rightarrow> coordinator \<Rightarrow> coordinator" where
  "coordinator_step (Reserve now) c = snd (reserve_or_wait now c)"
| "coordinator_step (Reconfigure n) c = (if n \<le> 0 then c else c\<lparr>requests_per_minute := n\<rparr>)"

fun admissions :: "coordinator_event list \<Rightarrow> coordinator \<Rightarrow> time list" where
  "admissions [] c = []"
| "admissions (Reserve now # es) c =
     (if fst (reserve_or_wait now c) = None
      then now # admissions es (coordinator_step (Reserve now) c)
      else admissions es (coordinator_step (Reserve now) c))"
| "admissions (Reconfigure n # es) c = admissions es (coordinator_step (Reconfigure n) c)"

fun reserve_times :: "coordinator_event list \<Rightarrow> time list" where
  "reserve_times [] = []"
| "reserve_times (Reserve now # es) = now # reserve_times es"
| "reserve_times (Reconfigure n # es) = reserve_times es"

text \<open>The calls of \<open>as\<close> in the window of sixty seconds that ends at \<open>x\<close>.\<close>

definition in_window :: "time \<Rightarrow> time list \<Rightarrow> time list" where
  "in_window x as = filter (\<lambda>t. x - RATE_WINDOW_SECONDS < t \<and> t \<le> x) as"

text \<open>
  The invariant: what the deque keeps is what any later window can still see of the past
  admissions \<open>as\<close>, and every window of the past is within the limit.
\<close>

definition budget_inv :: "int \<Rightarrow> time list \<Rightarrow> time \<Rightarrow> coordinator \<Rightarrow> bool" where
  "budget_inv limit as now c \<longleftrightarrow>
     0 < requests_per_minute c \<and> requests_per_minute c \<le> limit \<and>
     sorted as \<and> (\<forall>t\<in>set as. t \<le> now) \<and>
     sorted (admitted_calls c) \<and>
     (\<forall>x\<ge>now. popleft_until (x - RATE_WINDOW_SECONDS) (admitted_calls c)
        = filter (\<lambda>t. x - RATE_WINDOW_SECONDS < t) as) \<and>
     (\<forall>x. int (length (in_window x as)) \<le> limit)"

lemma popleft_until_twice:
  "lo \<le> hi \<Longrightarrow> popleft_until hi (popleft_until lo ts) = popleft_until hi ts"
  by (induction ts) auto

lemma in_window_now:
  "(\<forall>t\<in>set as. t \<le> now) \<Longrightarrow> in_window now as = filter (\<lambda>t. now - RATE_WINDOW_SECONDS < t) as"
  by (auto simp: in_window_def intro: filter_cong)

lemma budget_inv_reserve:
  assumes inv: "budget_inv limit as t0 c" and "t0 \<le> now"
  shows "budget_inv limit (as @ (if fst (reserve_or_wait now c) = None then [now] else []))
     now (snd (reserve_or_wait now c))"
proof -
  let ?w = RATE_WINDOW_SECONDS
  let ?calls = "popleft_until (now - ?w) (admitted_calls c)"
  note parts = inv [unfolded budget_inv_def]
  have past: "\<forall>t\<in>set as. t \<le> now" using parts assms(2) by force
  have calls: "?calls = filter (\<lambda>t. now - ?w < t) as" using parts assms(2) by blast
  have later: "popleft_until (x - ?w) ?calls = filter (\<lambda>t. x - ?w < t) as" if "now \<le> x" for x
  proof -
    have "popleft_until (x - ?w) ?calls = popleft_until (x - ?w) (admitted_calls c)"
      using that by (intro popleft_until_twice) simp
    moreover have "t0 \<le> x" using that assms(2) by simp
    ultimately show ?thesis using parts by simp
  qed
  have srt: "sorted ?calls" using parts by (simp add: sorted_popleft_until)
  show ?thesis
  proof (cases "int (length ?calls) < requests_per_minute c")
    case True
    then have admit: "reserve_or_wait now c = (None, c\<lparr>admitted_calls := ?calls @ [now]\<rparr>)"
      by (simp add: reserve_or_wait_def Let_def)
    have sorted2: "sorted (?calls @ [now])" "sorted (as @ [now])"
      using srt past parts by (auto simp: sorted_append calls)
    have keep: "popleft_until (x - ?w) (?calls @ [now]) = filter (\<lambda>t. x - ?w < t) (as @ [now])"
      if "now \<le> x" for x
      using that sorted2(1) by (auto simp: popleft_until_sorted calls intro!: filter_cong)
    have "int (length (in_window x (as @ [now]))) \<le> limit" for x
    proof (cases "x - ?w < now \<and> now \<le> x")
      case True
      have "length (in_window x as) \<le> length (in_window now as)"
      proof -
        have "in_window x as = filter (\<lambda>t. x - ?w < t) (in_window now as)"
          using past True by (auto simp: in_window_def intro!: filter_cong)
        then show ?thesis by simp
      qed
      moreover have "int (length (in_window now as)) < requests_per_minute c"
        using \<open>int (length ?calls) < requests_per_minute c\<close> past by (simp add: calls in_window_now)
      moreover have "requests_per_minute c \<le> limit" using parts by blast
      ultimately have "int (length (in_window x as)) < limit" by linarith
      then show ?thesis by (simp add: in_window_def)
    next
      case False
      then show ?thesis using parts by (auto simp: in_window_def)
    qed
    then show ?thesis
      using parts past sorted2 keep by (simp add: admit budget_inv_def)
  next
    case False
    then show ?thesis
      using parts past srt later assms(2) by (simp add: reserve_or_wait_def Let_def budget_inv_def)
  qed
qed

lemma budget_inv_run:
  assumes "budget_inv limit as t0 c" "sorted (reserve_times es)" "\<forall>t\<in>set (reserve_times es). t0 \<le> t"
    and "\<forall>n. Reconfigure n \<in> set es \<longrightarrow> n \<le> limit"
  shows "\<exists>t1. budget_inv limit (as @ admissions es c) t1 (fold coordinator_step es c)"
  using assms
proof (induction es arbitrary: as t0 c)
  case (Cons e es)
  show ?case
  proof (cases e)
    case (Reserve now)
    let ?as = "as @ (if fst (reserve_or_wait now c) = None then [now] else [])"
    have "\<exists>t1. budget_inv limit (?as @ admissions es (snd (reserve_or_wait now c))) t1
        (fold coordinator_step es (snd (reserve_or_wait now c)))"
      using Cons.prems Reserve budget_inv_reserve [OF Cons.prems(1), of now] by (intro Cons.IH) auto
    with Reserve show ?thesis by (auto split: if_splits)
  next
    case (Reconfigure n)
    then have "budget_inv limit as t0 (coordinator_step e c)"
      using Cons.prems(1,4) by (auto simp: budget_inv_def)
    with Cons Reconfigure show ?thesis by auto
  qed
qed auto

section \<open>The budget\<close>

text \<open>C1. The rolling budget holds process-wide: in no window of sixty seconds are more TorBox
  calls admitted than the largest budget configured, for any sequence of reservations (from any
  number of waiting requests) and reconfigurations, as long as the clock does not go back.\<close>

theorem budget_respected:
  assumes "coordinator_init n m = return (c, m')"
    and "sorted (reserve_times es)" "\<forall>k. Reconfigure k \<in> set es \<longrightarrow> k \<le> limit" "n \<le> limit"
  shows "int (length (in_window x (admissions es c))) \<le> limit"
proof -
  let ?t = "if reserve_times es = [] then 0 else hd (reserve_times es)"
  have "budget_inv limit [] ?t c"
    using assms(1,4) by (auto simp: coordinator_init_def budget_inv_def in_window_def split: if_splits)
  moreover have "\<forall>t\<in>set (reserve_times es). ?t \<le> t"
    using assms(2) by (cases "reserve_times es") auto
  ultimately show ?thesis
    using budget_inv_run [of limit "[]" ?t c es] assms(2,3) by (auto simp: budget_inv_def)
qed

theorem budget_respected_witness:
  "\<exists>c m. coordinator_init 2 metrics_init = return (c, m) \<and>
     int (length (in_window 62 (admissions [Reserve 0, Reserve 1, Reserve 30, Reserve 61, Reserve 62] c))) \<le> 2 \<and>
     admissions [Reserve 0, Reserve 1, Reserve 30, Reserve 61, Reserve 62] c = [0, 1, 61, 62]"
proof -
  define c where "c = \<lparr>requests_per_minute = 2, admitted_calls = []\<rparr>"
  let ?es = "[Reserve 0, Reserve 1, Reserve 30, Reserve 61, Reserve 62]"
  have i: "coordinator_init 2 metrics_init = return (c, configure_torbox_budget 2 metrics_init)"
    by (simp add: coordinator_init_def c_def)
  have "int (length (in_window 62 (admissions ?es c))) \<le> 2"
    by (rule budget_respected [OF i]) simp_all
  moreover have "admissions ?es c = [0, 1, 61, 62]"
    by (simp add: c_def reserve_or_wait_def RATE_WINDOW_SECONDS_def)
  ultimately show ?thesis using i by blast
qed

lemma reserve_wait:
  assumes "reserve_or_wait now c = (Some w, c')" "0 < requests_per_minute c"
  shows "admitted_calls c' = popleft_until (now - RATE_WINDOW_SECONDS) (admitted_calls c)"
    "requests_per_minute c' = requests_per_minute c" "admitted_calls c' \<noteq> []"
    "w = max 0 (hd (admitted_calls c') + RATE_WINDOW_SECONDS - now)"
    "requests_per_minute c' \<le> int (length (admitted_calls c'))"
  using assms by (auto simp: reserve_or_wait_def Let_def split: if_splits)

lemma popleft_until_hd: "popleft_until lo ts \<noteq> [] \<Longrightarrow> lo < hd (popleft_until lo ts)"
  by (induction ts) auto

lemma length_popleft_hd: "ts \<noteq> [] \<Longrightarrow> hd ts \<le> lo \<Longrightarrow> length (popleft_until lo ts) < length ts"
proof (induction ts)
  case (Cons t ts)
  have "length (popleft_until lo ts) \<le> length ts" by (induction ts) auto
  with Cons show ?case by simp
qed simp

text \<open>
  The deque never holds more calls than the budget, until the budget is lowered: then waiting for
  the oldest call to leave the window is enough.
\<close>

definition within_budget :: "coordinator \<Rightarrow> bool" where
  "within_budget c \<longleftrightarrow> 0 < requests_per_minute c \<and> int (length (admitted_calls c)) \<le> requests_per_minute c"

lemma length_popleft_until: "length (popleft_until lo ts) \<le> length ts"
  by (induction ts) auto

lemma within_budget_reserve: "within_budget c \<Longrightarrow> within_budget (snd (reserve_or_wait now c))"
  using length_popleft_until [of "now - RATE_WINDOW_SECONDS" "admitted_calls c"]
  by (auto simp: within_budget_def reserve_or_wait_def Let_def)

lemma wait_exact_aux:
  assumes "within_budget c" "reserve_or_wait now c = (Some w, c')"
  shows "0 < w \<and> (now \<le> t \<longrightarrow> (fst (reserve_or_wait t c') = None \<longleftrightarrow> now + w \<le> t))"
proof -
  let ?q = "admitted_calls c'"
  have pos: "0 < requests_per_minute c" using assms(1) by (simp add: within_budget_def)
  note r = reserve_wait [OF assms(2) pos]
  have full: "int (length ?q) = requests_per_minute c'"
    using within_budget_reserve [OF assms(1), of now] assms(2) r by (simp add: within_budget_def)
  have gt: "now - RATE_WINDOW_SECONDS < hd ?q"
    using popleft_until_hd r by metis
  then have w: "w = hd ?q + RATE_WINDOW_SECONDS - now" using r(4) by simp
  have "fst (reserve_or_wait t c') = None \<longleftrightarrow> hd ?q \<le> t - RATE_WINDOW_SECONDS"
  proof (cases "hd ?q \<le> t - RATE_WINDOW_SECONDS")
    case True
    then show ?thesis
      using length_popleft_hd [OF r(3) True] full by (simp add: reserve_or_wait_def Let_def)
  next
    case False
    then have "popleft_until (t - RATE_WINDOW_SECONDS) ?q = ?q" using r(3) by (cases ?q) auto
    with False full show ?thesis by (simp add: reserve_or_wait_def Let_def)
  qed
  with w gt show ?thesis by auto
qed

text \<open>The wait that is returned is exact: it is positive, a reservation at any earlier time would
  still be refused, and the first one after it is admitted (when no other call came in between).\<close>

theorem wait_is_exact:
  assumes "within_budget c" "reserve_or_wait now c = (Some w, c')"
  shows "0 < w \<and> (now \<le> t \<longrightarrow> (fst (reserve_or_wait t c') = None \<longleftrightarrow> now + w \<le> t))"
  using wait_exact_aux [OF assms] .

theorem wait_is_exact_witness:
  "fst (reserve_or_wait 10 \<lparr>requests_per_minute = 1, admitted_calls = [5]\<rparr>) = Some 55 \<and>
   fst (reserve_or_wait 65 \<lparr>requests_per_minute = 1, admitted_calls = [5]\<rparr>) = None"
proof -
  let ?c = "\<lparr>requests_per_minute = 1, admitted_calls = [5]\<rparr>"
  have r: "reserve_or_wait 10 ?c = (Some 55, ?c)"
    by (simp add: reserve_or_wait_def RATE_WINDOW_SECONDS_def)
  have "within_budget ?c" by (simp add: within_budget_def)
  from wait_is_exact [OF this r, of 65] r show ?thesis by simp
qed

lemma acquire_loop_returns:
  assumes "within_budget c" "\<forall>now w. now + w \<le> sleep now w" "2 \<le> fuel"
  shows "\<exists>t c'. acquire_loop fuel sleep now c = Some (t, c') \<and> now \<le> t \<and>
     last (admitted_calls c') = t \<and> within_budget c'"
proof -
  from assms(3) obtain f where f: "fuel = Suc (Suc f)"
    by (metis Suc_le_D numeral_2_eq_2 Suc_le_mono)
  have admitted: "last (admitted_calls c2) = t" if "reserve_or_wait t c1 = (None, c2)" for t c1 c2
    using that by (auto simp: reserve_or_wait_def Let_def split: if_splits)
  obtain r c1 where step: "reserve_or_wait now c = (r, c1)" by fastforce
  have c1: "within_budget c1" using within_budget_reserve [OF assms(1), of now] step by simp
  show ?thesis
  proof (cases r)
    case None
    then show ?thesis using step f admitted c1 by auto
  next
    case (Some w)
    let ?t = "sleep now w"
    have w: "0 < w \<and> (now \<le> ?t \<longrightarrow> (fst (reserve_or_wait ?t c1) = None \<longleftrightarrow> now + w \<le> ?t))"
      using wait_exact_aux assms(1) step Some by blast
    have t: "now + w \<le> ?t" using assms(2) by blast
    obtain c2 where c2: "reserve_or_wait ?t c1 = (None, c2)"
      using w t by (cases "reserve_or_wait ?t c1") auto
    moreover have "within_budget c2" using within_budget_reserve [OF c1, of ?t] c2 by simp
    ultimately show ?thesis using step Some f admitted w t by auto
  qed
qed



end
