(* ===== verification/Caches.thy ===== *)
theory Caches
  imports TtlCache
begin

text \<open>
  The three process-memory caches: \<open>ResolvedTargetCache\<close> (api/app/resolver/target_cache.py),
  \<open>TorBoxManifestCache\<close> (api/app/providers/torbox/manifest_cache.py) and
  \<open>AioStreamsResultCache\<close> (api/app/providers/aiostreams/result_cache.py). Each method is one
  atomic step (it runs under the cache's lock or on the event loop); the clock reading is an
  argument. The interpretations discharge the contract of \<open>TtlCache\<close>.
\<close>

section \<open>Resolved targets\<close>

record cached_target =
  ct_target_url :: string
  ct_expires_at :: time

record target_cache =
  tc_ttl_seconds :: time
  tc_max_entries :: int
  tc_entries :: "(string, cached_target) odict"

definition target_cache_init :: "time \<Rightarrow> int \<Rightarrow> target_cache result" where
  "target_cache_init ttl_seconds max_entries =
     (if ttl_seconds \<le> 0 then raise (ValueError ''Resolved target cache TTL must be positive.'')
      else if max_entries \<le> 0 then raise (ValueError ''Resolved target cache size must be positive.'')
      else return \<lparr>tc_ttl_seconds = ttl_seconds, tc_max_entries = max_entries, tc_entries = []\<rparr>)"

definition target_get :: "time \<Rightarrow> string \<Rightarrow> target_cache \<Rightarrow> string option \<times> target_cache" where
  "target_get now entry_id s =
     (case map_of (tc_entries s) entry_id of
        None \<Rightarrow> (None, s)
      | Some cached \<Rightarrow>
          if ct_expires_at cached \<le> now
          then (None, s\<lparr>tc_entries := AList.delete entry_id (tc_entries s)\<rparr>)
          else (Some (ct_target_url cached), s\<lparr>tc_entries := move_to_end entry_id (tc_entries s)\<rparr>))"

definition target_put :: "time \<Rightarrow> string \<Rightarrow> string \<Rightarrow> target_cache \<Rightarrow> target_cache" where
  "target_put now entry_id target_url s =
     (let stored = AList.update entry_id
            \<lparr>ct_target_url = target_url, ct_expires_at = now + tc_ttl_seconds s\<rparr> (tc_entries s)
      in s\<lparr>tc_entries := evict_oldest (nat (tc_max_entries s)) (move_to_end entry_id stored)\<rparr>)"

definition target_clear :: "target_cache \<Rightarrow> target_cache" where
  "target_clear s = s\<lparr>tc_entries := []\<rparr>"

interpretation target: ttl_lru target_get target_put tc_entries "\<lambda>s. nat (tc_max_entries s)"
  "\<lambda>s t u. \<lparr>ct_target_url = u, ct_expires_at = t + tc_ttl_seconds s\<rparr>" ct_expires_at
  "\<lambda>c. Some (ct_target_url c)" None
  by unfold_locales
    (auto simp: target_get_def target_put_def Let_def move_to_end_simps
      split: option.splits)

section \<open>Torrent manifests\<close>

record 'm cached_manifest =
  cm_manifest :: "'m option"
  cm_expires_at :: time

record 'm manifest_cache =
  mc_ttl_seconds :: time
  mc_negative_ttl_seconds :: time
  mc_max_entries :: int
  mc_entries :: "(string, 'm cached_manifest) odict"

definition manifest_cache_init :: "time \<Rightarrow> time \<Rightarrow> int \<Rightarrow> 'm manifest_cache result" where
  "manifest_cache_init ttl_seconds negative_ttl_seconds max_entries =
     (if ttl_seconds \<le> 0 \<or> negative_ttl_seconds \<le> 0 \<or> max_entries \<le> 0
      then raise (ValueError ''TorBox manifest cache limits must be positive.'')
      else return \<lparr>mc_ttl_seconds = ttl_seconds, mc_negative_ttl_seconds = negative_ttl_seconds,
                   mc_max_entries = max_entries, mc_entries = []\<rparr>)"

definition manifest_get ::
  "time \<Rightarrow> string \<Rightarrow> 'm manifest_cache \<Rightarrow> (bool \<times> 'm option) \<times> 'm manifest_cache" where
  "manifest_get now key s =
     (case map_of (mc_entries s) key of
        None \<Rightarrow> ((False, None), s)
      | Some cached \<Rightarrow>
          if cm_expires_at cached \<le> now
          then ((False, None), s\<lparr>mc_entries := AList.delete key (mc_entries s)\<rparr>)
          else ((True, cm_manifest cached), s\<lparr>mc_entries := move_to_end key (mc_entries s)\<rparr>))"

definition manifest_ttl :: "'m manifest_cache \<Rightarrow> 'm option \<Rightarrow> time" where
  "manifest_ttl s manifest =
     (if manifest \<noteq> None then mc_ttl_seconds s else mc_negative_ttl_seconds s)"

definition manifest_put ::
  "time \<Rightarrow> string \<Rightarrow> 'm option \<Rightarrow> 'm manifest_cache \<Rightarrow> 'm manifest_cache" where
  "manifest_put now key manifest s =
     (let ttl = manifest_ttl s manifest;
          stored = AList.update key
            \<lparr>cm_manifest = manifest, cm_expires_at = now + ttl\<rparr> (mc_entries s)
      in s\<lparr>mc_entries := evict_oldest (nat (mc_max_entries s)) (move_to_end key stored)\<rparr>)"

definition manifest_clear :: "'m manifest_cache \<Rightarrow> 'm manifest_cache" where
  "manifest_clear s = s\<lparr>mc_entries := []\<rparr>"

interpretation manifest: ttl_lru manifest_get manifest_put mc_entries
  "\<lambda>s. nat (mc_max_entries s)"
  "\<lambda>s t m. \<lparr>cm_manifest = m, cm_expires_at = t + manifest_ttl s m\<rparr>" cm_expires_at
  "\<lambda>c. (True, cm_manifest c)" "(False, None)"
  by unfold_locales
    (auto simp: manifest_get_def manifest_put_def manifest_ttl_def Let_def move_to_end_simps fun_eq_iff split: option.splits)

section \<open>Stream results\<close>

record 'v cached_streams =
  cs_streams :: "'v list"
  cs_expires_at :: time

record 'v result_cache =
  rc_ttl_seconds :: time
  rc_max_entries :: int
  rc_entries :: "(string, 'v cached_streams) odict"

definition result_cache_init :: "time \<Rightarrow> int \<Rightarrow> 'v result_cache result" where
  "result_cache_init ttl_seconds max_entries =
     (if ttl_seconds \<le> 0 \<or> max_entries \<le> 0
      then raise (ValueError ''AIOStreams cache limits must be positive.'')
      else return \<lparr>rc_ttl_seconds = ttl_seconds, rc_max_entries = max_entries, rc_entries = []\<rparr>)"

definition result_get :: "time \<Rightarrow> string \<Rightarrow> 'v result_cache \<Rightarrow> 'v list option \<times> 'v result_cache" where
  "result_get now key s =
     (case map_of (rc_entries s) key of
        None \<Rightarrow> (None, s)
      | Some cached \<Rightarrow>
          if cs_expires_at cached \<le> now
          then (None, s\<lparr>rc_entries := AList.delete key (rc_entries s)\<rparr>)
          else (Some (cs_streams cached), s\<lparr>rc_entries := move_to_end key (rc_entries s)\<rparr>))"

definition result_put :: "time \<Rightarrow> string \<Rightarrow> 'v list \<Rightarrow> 'v result_cache \<Rightarrow> 'v result_cache" where
  "result_put now key streams s =
     (let stored = AList.update key
            \<lparr>cs_streams = streams, cs_expires_at = now + rc_ttl_seconds s\<rparr> (rc_entries s)
      in s\<lparr>rc_entries := evict_oldest (nat (rc_max_entries s)) (move_to_end key stored)\<rparr>)"

definition result_clear :: "'v result_cache \<Rightarrow> 'v result_cache" where
  "result_clear s = s\<lparr>rc_entries := []\<rparr>"

interpretation result: ttl_lru result_get result_put rc_entries "\<lambda>s. nat (rc_max_entries s)"
  "\<lambda>s t v. \<lparr>cs_streams = v, cs_expires_at = t + rc_ttl_seconds s\<rparr>" cs_expires_at
  "\<lambda>c. Some (cs_streams c)" None
  by unfold_locales
    (auto simp: result_get_def result_put_def Let_def move_to_end_simps
      split: option.splits)

section \<open>What the clients rely on\<close>

lemma target_init_bounded:
  "target_cache_init ttl n = return s \<Longrightarrow>
     target.bounded s \<and> tc_entries s = [] \<and> tc_ttl_seconds s = ttl \<and> tc_max_entries s = n"
  by (auto simp: target_cache_init_def target.bounded_def split: if_splits)

lemma manifest_init_bounded:
  "manifest_cache_init ttl neg n = return s \<Longrightarrow>
     manifest.bounded s \<and> mc_entries s = [] \<and> manifest_ttl s = (\<lambda>m. if m \<noteq> None then ttl else neg) \<and>
     mc_max_entries s = n"
  by (auto simp: manifest_cache_init_def manifest.bounded_def manifest_ttl_def fun_eq_iff split: if_splits)

lemma result_init_bounded:
  "result_cache_init ttl n = return s \<Longrightarrow>
     result.bounded s \<and> rc_entries s = [] \<and> rc_ttl_seconds s = ttl \<and> rc_max_entries s = n"
  by (auto simp: result_cache_init_def result.bounded_def split: if_splits)

lemma target_run_ttl [simp]: "tc_ttl_seconds (run_cache target_get target_put ops s) = tc_ttl_seconds s"
  using target.mk_run [of ops s] by (auto simp: fun_eq_iff)

lemma target_run_max: "nat (tc_max_entries (run_cache target_get target_put ops s)) = nat (tc_max_entries s)"
  using target.cap_run [of ops s] by simp

text \<open>C10. A resolved playback target that was stored is served again until its time to live ends,
  whatever lookups and stores of other entries happen in between, provided that they touch fewer
  entries than the cache can hold: only the least recently used entry is ever evicted.\<close>

theorem target_cache_remembers:
  assumes "target_cache_init ttl n = return s0"
    and "entry_id \<notin> op_key ` set later" "card (op_key ` set later) < nat n"
    and "now < stored_at + ttl"
  shows "fst (target_get now entry_id
     (run_cache target_get target_put later
        (target_put stored_at entry_id target_url
          (run_cache target_get target_put earlier s0)))) = Some target_url"
proof -
  let ?s = "run_cache target_get target_put earlier s0"
  from target_init_bounded [OF assms(1)]
  have "target.bounded ?s" "tc_ttl_seconds ?s = ttl" "nat (tc_max_entries ?s) = nat n"
    by (simp_all add: target.bounded_run target_run_max)
  with target.put_then_get [of ?s entry_id later now target_url stored_at] assms(2-4)
  show ?thesis by simp
qed

theorem target_cache_remembers_witness:
  "\<exists>s0. target_cache_init 30 2 = return s0 \<and>
     fst (target_get 35 ''a''
       (run_cache target_get target_put [OpPut 12 ''b'' ''v'', OpGet 13 ''b'']
         (target_put 10 ''a'' ''u'' (run_cache target_get target_put [OpPut 1 ''c'' ''w''] s0))))
     = Some ''u''"
proof -
  obtain s0 where s0: "target_cache_init 30 2 = return s0" by (simp add: target_cache_init_def)
  have "fst (target_get 35 ''a''
       (run_cache target_get target_put [OpPut 12 ''b'' ''v'', OpGet 13 ''b'']
         (target_put 10 ''a'' ''u'' (run_cache target_get target_put [OpPut 1 ''c'' ''w''] s0))))
     = Some ''u''"
    by (rule target_cache_remembers [OF s0]) simp_all
  with s0 show ?thesis by blast
qed

text \<open>The manifest cache never answers from the past: a hit is exactly the last manifest stored
  for the torrent (or the last recorded absence of one) and is younger than the time to live of
  its kind, whatever was stored, looked up and evicted before.\<close>

theorem manifest_cache_fresh:
  assumes "manifest_cache_init ttl negative_ttl n = return s0"
    and "fst (manifest_get now key (run_cache manifest_get manifest_put ops s0)) = (True, m)"
  shows "\<exists>t. last_put key ops None = Some (t, m) \<and>
     now < t + (if m \<noteq> None then ttl else negative_ttl)"
proof -
  let ?s = "run_cache manifest_get manifest_put ops s0"
  have "fst (manifest_get now key ?s) \<noteq> (False, None)" using assms(2) by simp
  with manifest.hit_is_last_put [of s0 now key ops] manifest_init_bounded [OF assms(1)]
  obtain t w where "last_put key ops None = Some (t, w)" "now < t + manifest_ttl s0 w"
    "fst (manifest_get now key ?s) = (True, w)"
    by auto
  with assms(2) manifest_init_bounded [OF assms(1)] show ?thesis by auto
qed

theorem manifest_cache_fresh_witness:
  "\<exists>s0 :: string manifest_cache. manifest_cache_init 30 5 2 = return s0 \<and>
     (\<exists>t. last_put ''k'' [OpPut 1 ''k'' (Some ''m''), OpPut 2 ''j'' None, OpPut 6 ''k'' None] None
            = Some (t, None) \<and> 10 < t + (5::rat))"
proof -
  let ?ops = "[OpPut 1 ''k'' (Some ''m''), OpPut 2 ''j'' None, OpPut 6 ''k'' None]"
  define s0 :: "string manifest_cache" where
    "s0 = \<lparr>mc_ttl_seconds = 30, mc_negative_ttl_seconds = 5, mc_max_entries = 2, mc_entries = []\<rparr>"
  have i: "manifest_cache_init 30 5 2 = return s0" by (simp add: manifest_cache_init_def s0_def)
  have g: "fst (manifest_get 10 ''k'' (run_cache manifest_get manifest_put ?ops s0)) = (True, None)"
    by (simp add: s0_def manifest_put_def manifest_get_def manifest_ttl_def move_to_end_def)
  show ?thesis using manifest_cache_fresh [OF i g] i by auto
qed

text \<open>The cache of stream results stays within its configured number of entries and keeps at
  most one entry per key, on every run of lookups and stores.\<close>

theorem result_cache_bounded:
  assumes "result_cache_init ttl n = return s0"
  shows "int (length (rc_entries (run_cache result_get result_put ops s0))) \<le> n \<and>
     distinct (od_keys (rc_entries (run_cache result_get result_put ops s0)))"
proof -
  have "0 < n" using assms by (auto simp: result_cache_init_def split: if_splits)
  moreover have "result.bounded (run_cache result_get result_put ops s0)"
    using result_init_bounded [OF assms] result.bounded_run by blast
  moreover have "nat (rc_max_entries (run_cache result_get result_put ops s0)) = nat n"
    using result.cap_run [of ops s0] result_init_bounded [OF assms] by simp
  ultimately show ?thesis by (auto simp: result.bounded_def od_ok_def)
qed

theorem result_cache_bounded_witness:
  "\<exists>s0. result_cache_init 30 1 = return s0 \<and>
     int (length (rc_entries (run_cache result_get result_put
       [OpPut 1 ''a'' [True], OpPut 2 ''b'' [False]] s0))) \<le> 1"
proof -
  obtain s0 :: "bool result_cache" where s0: "result_cache_init 30 1 = return s0"
    by (simp add: result_cache_init_def)
  with result_cache_bounded [OF s0, of "[OpPut 1 ''a'' [True], OpPut 2 ''b'' [False]]"]
  show ?thesis by blast
qed

end
