(* ===== verification/Effects.thy ===== *)
theory Effects
  imports Errors
begin

text \<open>
  Code that changes a state and may raise: a function from the state to a result and the state
  left behind. An exception keeps the changes made before it, as in Python.
\<close>

type_synonym ('s, 'a) eff = "'s \<Rightarrow> 'a result \<times> 's"

definition eff_return :: "'a \<Rightarrow> ('s, 'a) eff" where
  "eff_return a = (\<lambda>s. (Inr a, s))"

definition eff_raise :: "exn \<Rightarrow> ('s, 'a) eff" where
  "eff_raise e = (\<lambda>s. (Inl e, s))"

definition eff_bind :: "('s, 'a) eff \<Rightarrow> ('a \<Rightarrow> ('s, 'b) eff) \<Rightarrow> ('s, 'b) eff" where
  "eff_bind m f = (\<lambda>s. case m s of (Inl e, s') \<Rightarrow> (Inl e, s') | (Inr a, s') \<Rightarrow> f a s')"

definition eff_then :: "('s, 'a) eff \<Rightarrow> ('s, 'b) eff \<Rightarrow> ('s, 'b) eff" where
  "eff_then m n = eff_bind m (\<lambda>_. n)"

definition eff_lift :: "'a result \<Rightarrow> ('s, 'a) eff" where
  "eff_lift r = (\<lambda>s. (r, s))"

definition eff_get :: "('s \<Rightarrow> 'a) \<Rightarrow> ('s, 'a) eff" where
  "eff_get f = (\<lambda>s. (Inr (f s), s))"

definition eff_modify :: "('s \<Rightarrow> 's) \<Rightarrow> ('s, unit) eff" where
  "eff_modify f = (\<lambda>s. (Inr (), f s))"

text \<open>\<open>try: m except ...: h(e)\<close>, with the exceptions the clause names.\<close>

definition eff_catch :: "(exn \<Rightarrow> bool) \<Rightarrow> ('s, 'a) eff \<Rightarrow> (exn \<Rightarrow> ('s, 'a) eff) \<Rightarrow> ('s, 'a) eff" where
  "eff_catch P m h = (\<lambda>s. case m s of
     (Inl e, s') \<Rightarrow> if P e then h e s' else (Inl e, s')
   | (Inr a, s') \<Rightarrow> (Inr a, s'))"

text \<open>\<open>try: m finally: n\<close>, for a final block that does not raise.\<close>

definition eff_finally :: "('s, 'a) eff \<Rightarrow> ('s \<Rightarrow> 's) \<Rightarrow> ('s, 'a) eff" where
  "eff_finally m n = (\<lambda>s. case m s of (r, s') \<Rightarrow> (r, n s'))"

text \<open>\<open>for x in xs: f(x)\<close>\<close>

fun eff_for :: "'x list \<Rightarrow> ('x \<Rightarrow> ('s, unit) eff) \<Rightarrow> ('s, unit) eff" where
  "eff_for [] f = eff_return ()"
| "eff_for (x # xs) f = eff_then (f x) (eff_for xs f)"

text \<open>A loop with an accumulator.\<close>

fun eff_fold :: "('a \<Rightarrow> 'x \<Rightarrow> ('s, 'a) eff) \<Rightarrow> 'a \<Rightarrow> 'x list \<Rightarrow> ('s, 'a) eff" where
  "eff_fold f a [] = eff_return a"
| "eff_fold f a (x # xs) = eff_bind (f a x) (\<lambda>a'. eff_fold f a' xs)"

lemmas eff_defs = eff_return_def eff_raise_def eff_lift_def eff_get_def eff_modify_def

lemma eff_bind_Inl [simp]: "m s = (Inl e, s') \<Longrightarrow> eff_bind m f s = (Inl e, s')"
  by (simp add: eff_bind_def)

lemma eff_bind_Inr [simp]: "m s = (Inr a, s') \<Longrightarrow> eff_bind m f s = f a s'"
  by (simp add: eff_bind_def)

lemma eff_run [simp]:
  "eff_return a s = (Inr a, s)"
  "eff_raise e s = (Inl e, s)"
  "eff_lift r s = (r, s)"
  "eff_get g s = (Inr (g s), s)"
  "eff_modify h s = (Inr (), h s)"
  by (simp_all add: eff_defs)

lemma eff_bind_run:
  "eff_bind m f s = (case fst (m s) of Inl e \<Rightarrow> (Inl e, snd (m s)) | Inr a \<Rightarrow> f a (snd (m s)))"
  by (cases "m s"; cases "fst (m s)") (auto simp: eff_bind_def)

lemma eff_bind_simps [simp]:
  "eff_bind (eff_return a) f s = f a s"
  "eff_bind (eff_raise e) f s = (Inl e, s)"
  "eff_bind (eff_get g) f s = f (g s) s"
  "eff_bind (eff_modify h) f' s = f' () (h s)"
  "eff_bind (eff_lift (Inr a)) f s = f a s"
  "eff_bind (eff_lift (Inl e)) f s = (Inl e, s)"
  by (simp_all add: eff_bind_def eff_defs)

lemma eff_then_Inr [simp]: "m s = (Inr a, s') \<Longrightarrow> eff_then m n s = n s'"
  by (simp add: eff_then_def)

lemma eff_then_Inl [simp]: "m s = (Inl e, s') \<Longrightarrow> eff_then m n s = (Inl e, s')"
  by (simp add: eff_then_def)

lemma eff_for_map: "eff_for (map h xs) g = eff_for xs (\<lambda>x. g (h x))"
  by (induction xs) simp_all

text \<open>Rules for what every run of a loop keeps, whether or not it raises.\<close>

lemma eff_for_keeps:
  assumes "\<And>x s. x \<in> set xs \<Longrightarrow> Q s \<Longrightarrow> Q (snd (f x s))"
  shows "Q s \<Longrightarrow> Q (snd (eff_for xs f s))"
  using assms
proof (induction xs arbitrary: s)
  case (Cons x xs)
  have "Q (snd (f x s))" using Cons.prems by simp
  then show ?case
    using Cons by (cases "f x s"; cases "fst (f x s)") (auto simp: eff_then_def eff_bind_def)
qed simp

lemma eff_for_returns:
  assumes "\<And>x s. x \<in> set xs \<Longrightarrow> Q s \<Longrightarrow> fst (f x s) = Inr () \<and> Q (snd (f x s))"
  shows "Q s \<Longrightarrow> fst (eff_for xs f s) = Inr () \<and> Q (snd (eff_for xs f s))"
  using assms
proof (induction xs arbitrary: s)
  case (Cons x xs)
  have "fst (f x s) = Inr () \<and> Q (snd (f x s))" using Cons.prems by simp
  then show ?case
    using Cons by (cases "f x s") (auto simp: eff_then_def eff_bind_def)
qed simp

section \<open>What an effect can end with\<close>

text \<open>Whatever it is run on, it raises an exception with \<open>P\<close> or returns a value with \<open>Q\<close>.\<close>

definition ensures :: "(exn \<Rightarrow> bool) \<Rightarrow> ('a \<Rightarrow> bool) \<Rightarrow> ('s, 'a) eff \<Rightarrow> bool" where
  "ensures P Q m \<longleftrightarrow> (\<forall>s. case fst (m s) of Inl e \<Rightarrow> P e | Inr a \<Rightarrow> Q a)"

lemma ensures_bind:
  assumes "ensures P R m" "\<And>a. R a \<Longrightarrow> ensures P Q (f a)"
  shows "ensures P Q (eff_bind m f)"
  unfolding ensures_def
proof
  fix s
  obtain r s' where m: "m s = (r, s')" by force
  have r: "case r of Inl e \<Rightarrow> P e | Inr a \<Rightarrow> R a" using assms(1) by (metis ensures_def fst_conv m)
  show "case fst (eff_bind m f s) of Inl e \<Rightarrow> P e | Inr a \<Rightarrow> Q a"
  proof (cases r)
    case (Inl e)
    then show ?thesis using r m by simp
  next
    case (Inr a)
    then have "ensures P Q (f a)" using r assms(2) by simp
    then show ?thesis using Inr m by (simp add: ensures_def)
  qed
qed

lemma ensures_then: "ensures P R m \<Longrightarrow> ensures P Q n \<Longrightarrow> ensures P Q (eff_then m n)"
  unfolding eff_then_def by (rule ensures_bind)

lemma ensures_simps [simp]:
  "ensures P Q (eff_return a) = Q a"
  "ensures P Q (eff_raise e) = P e"
  "ensures P Q (eff_lift r) = (case r of Inl e \<Rightarrow> P e | Inr a \<Rightarrow> Q a)"
  "ensures P (\<lambda>_. True) (eff_get g)"
  "ensures P (\<lambda>_. True) (eff_modify h)"
  by (auto simp: ensures_def)

lemma ensures_any [simp]: "ensures (\<lambda>_. True) (\<lambda>_. True) m"
  by (simp add: ensures_def split: sum.split)

lemma ensures_pair [simp]: "ensures P Q (Pair r) = (case r of Inl e \<Rightarrow> P e | Inr a \<Rightarrow> Q a)"
  by (simp add: ensures_def)

lemma ensuresD: "ensures P Q m \<Longrightarrow> m s = (Inr a, s') \<Longrightarrow> Q a"
  by (auto simp: ensures_def dest: spec [of _ s])

lemma ensuresD_raise: "ensures P Q m \<Longrightarrow> m s = (Inl e, s') \<Longrightarrow> P e"
  by (auto simp: ensures_def dest: spec [of _ s])

lemma ensures_mono: "ensures P Q m \<Longrightarrow> (\<And>e. P e \<Longrightarrow> P' e) \<Longrightarrow> (\<And>a. Q a \<Longrightarrow> Q' a) \<Longrightarrow> ensures P' Q' m"
  by (fastforce simp: ensures_def split: sum.splits)

lemma ensures_catch:
  assumes "ensures P Q m" "\<And>e. P e \<Longrightarrow> C e \<Longrightarrow> ensures P' Q (h e)" "\<And>e. P e \<Longrightarrow> \<not> C e \<Longrightarrow> P' e"
  shows "ensures P' Q (eff_catch C m h)"
  unfolding ensures_def
proof
  fix s
  obtain r s' where m: "m s = (r, s')" by force
  have r: "case r of Inl e \<Rightarrow> P e | Inr a \<Rightarrow> Q a" using assms(1) by (metis ensures_def fst_conv m)
  show "case fst (eff_catch C m h s) of Inl e \<Rightarrow> P' e | Inr a \<Rightarrow> Q a"
  proof (cases r)
    case (Inl e)
    show ?thesis
    proof (cases "C e")
      case True
      then have "ensures P' Q (h e)" using r Inl assms(2) by simp
      then show ?thesis using True Inl m by (simp add: ensures_def eff_catch_def)
    next
      case False
      then show ?thesis using r Inl m assms(3) by (simp add: eff_catch_def)
    qed
  next
    case (Inr a)
    then show ?thesis using r m by (simp add: eff_catch_def)
  qed
qed

lemma ensures_fold:
  assumes "\<And>a x. Q a \<Longrightarrow> x \<in> set xs \<Longrightarrow> ensures P Q (f a x)"
  shows "Q a \<Longrightarrow> ensures P Q (eff_fold f a xs)"
  using assms by (induction xs arbitrary: a) (auto intro!: ensures_bind)

lemma ensures_returns: "ensures (\<lambda>_. False) Q m \<Longrightarrow> \<exists>a s'. m s = (Inr a, s') \<and> Q a"
  by (cases "m s"; cases "fst (m s)") (auto simp: ensures_def dest: spec [of _ s])

section \<open>What an effect keeps\<close>

definition keeps :: "('s \<Rightarrow> bool) \<Rightarrow> ('s, 'a) eff \<Rightarrow> bool" where
  "keeps Q m \<longleftrightarrow> (\<forall>s. Q s \<longrightarrow> Q (snd (m s)))"

lemma keepsD: "keeps Q m \<Longrightarrow> m s = (r, s') \<Longrightarrow> Q s \<Longrightarrow> Q s'"
  by (auto simp: keeps_def dest: spec [of _ s])

lemma keeps_bind: "keeps Q m \<Longrightarrow> (\<And>a. keeps Q (f a)) \<Longrightarrow> keeps Q (eff_bind m f)"
  by (auto simp: keeps_def eff_bind_run split: sum.split)

lemma keeps_then: "keeps Q m \<Longrightarrow> keeps Q n \<Longrightarrow> keeps Q (eff_then m n)"
  unfolding eff_then_def by (rule keeps_bind)

lemma keeps_catch: "keeps Q m \<Longrightarrow> (\<And>e. keeps Q (h e)) \<Longrightarrow> keeps Q (eff_catch C m h)"
  unfolding keeps_def eff_catch_def by (fastforce split: prod.split sum.split)

lemma keeps_simps [simp]: "keeps Q (Pair r)" "keeps Q (eff_return a)" "keeps Q (eff_raise e)" "keeps Q (eff_lift r)" "keeps Q (eff_get g)"
  by (simp_all add: keeps_def eff_defs)

lemma keeps_modify: "keeps Q (eff_modify h) \<longleftrightarrow> (\<forall>s. Q s \<longrightarrow> Q (h s))"
  by (simp add: keeps_def eff_defs)

lemma keeps_for: "(\<And>x. x \<in> set xs \<Longrightarrow> keeps Q (f x)) \<Longrightarrow> keeps Q (eff_for xs f)"
  by (induction xs) (auto intro: keeps_then)

lemma keeps_fold: "(\<And>a x. x \<in> set xs \<Longrightarrow> keeps Q (f a x)) \<Longrightarrow> keeps Q (eff_fold f a xs)"
  by (induction xs arbitrary: a) (auto intro!: keeps_bind)

end
