(* ===== verification/Regex.thy ===== *)
theory Regex
  imports PyPrelude
begin

text \<open>
  The part of Python's \<open>re\<close> module the program uses: a backtracking matcher that returns the
  results in the order in which \<open>re\<close> tries them, so that the first one is the match. Positions are
  absolute, so \<open>^\<close>, \<open>\b\<close> and look-behind see the text before the search position, as in Python.
  Character classes are predicates; \<open>\d\<close>, \<open>\s\<close> and \<open>\w\<close> are those of the ASCII alphabet.
\<close>

datatype regex =
    Eps
  | Chr "char \<Rightarrow> bool"
  | Seq regex regex
  | Alt regex regex
  | Star regex
  | Grp string regex
  | Bol
  | Eol
  | WordB
  | Ahead regex
  | NotAhead regex
  | NotBehind "char \<Rightarrow> bool"

type_synonym caps = "(string \<times> nat \<times> nat) list"

definition at_eol :: "string \<Rightarrow> nat \<Rightarrow> bool" where
  "at_eol s i \<longleftrightarrow> i = length s \<or> (Suc i = length s \<and> s ! i = CHR 0x0A)"

definition word_at :: "string \<Rightarrow> nat \<Rightarrow> bool" where
  "word_at s i \<longleftrightarrow> i < length s \<and> is_word (s ! i)"

definition at_word_boundary :: "string \<Rightarrow> nat \<Rightarrow> bool" where
  "at_word_boundary s i \<longleftrightarrow> (0 < i \<and> word_at s (i - 1)) \<noteq> word_at s i"

text \<open>
  A greedy repetition: another round first, if it moves on, then stop. The number of rounds is
  bounded by the text that is left, because each round consumes some of it.
\<close>

primrec star_steps ::
  "nat \<Rightarrow> (nat \<Rightarrow> caps \<Rightarrow> (nat \<times> caps) list) \<Rightarrow> nat \<Rightarrow> caps \<Rightarrow> (nat \<times> caps) list" where
  "star_steps 0 f i c = [(i, c)]"
| "star_steps (Suc n) f i c =
     concat (map (\<lambda>(j, c'). if i < j then star_steps n f j c' else []) (f i c)) @ [(i, c)]"

primrec results :: "regex \<Rightarrow> string \<Rightarrow> nat \<Rightarrow> caps \<Rightarrow> (nat \<times> caps) list" where
  "results Eps s i c = [(i, c)]"
| "results (Chr P) s i c = (if i < length s \<and> P (s ! i) then [(Suc i, c)] else [])"
| "results (Seq r q) s i c = concat (map (\<lambda>(j, c'). results q s j c') (results r s i c))"
| "results (Alt r q) s i c = results r s i c @ results q s i c"
| "results (Star r) s i c = star_steps (length s - i) (results r s) i c"
| "results (Grp n r) s i c = map (\<lambda>(j, c'). (j, (n, i, j) # c')) (results r s i c)"
| "results Bol s i c = (if i = 0 then [(i, c)] else [])"
| "results Eol s i c = (if at_eol s i then [(i, c)] else [])"
| "results WordB s i c = (if at_word_boundary s i then [(i, c)] else [])"
| "results (Ahead r) s i c = (case results r s i c of [] \<Rightarrow> [] | (j, c') # _ \<Rightarrow> [(i, c')])"
| "results (NotAhead r) s i c = (if results r s i c = [] then [(i, c)] else [])"
| "results (NotBehind P) s i c = (if 0 < i \<and> P (s ! (i - 1)) then [] else [(i, c)])"

record re_match =
  m_start :: nat
  m_end :: nat
  m_groups :: caps

section \<open>The functions of the module\<close>

text \<open>The first match that starts at \<open>i\<close>, at \<open>i + 1\<close> and so on, up to the end of the text;
  with \<open>adv\<close> a match at the first position must not be empty.\<close>

primrec search_steps :: "nat \<Rightarrow> regex \<Rightarrow> string \<Rightarrow> nat \<Rightarrow> bool \<Rightarrow> re_match option" where
  "search_steps 0 r s i adv = None"
| "search_steps (Suc n) r s i adv =
     (case filter (\<lambda>(j, c). adv \<longrightarrow> i < j) (results r s i []) of
        (j, c) # _ \<Rightarrow> Some \<lparr>m_start = i, m_end = j, m_groups = c\<rparr>
      | [] \<Rightarrow> search_steps n r s (Suc i) False)"

definition search_from :: "regex \<Rightarrow> string \<Rightarrow> nat \<Rightarrow> re_match option" where
  "search_from r s i = search_steps (Suc (length s) - i) r s i False"

definition search :: "regex \<Rightarrow> string \<Rightarrow> re_match option" where
  "search r s = search_from r s 0"

definition match_prefix :: "regex \<Rightarrow> string \<Rightarrow> re_match option" where
  "match_prefix r s =
     (case results r s 0 [] of [] \<Rightarrow> None
      | (j, c) # _ \<Rightarrow> Some \<lparr>m_start = 0, m_end = j, m_groups = c\<rparr>)"

definition fullmatch :: "regex \<Rightarrow> string \<Rightarrow> bool" where
  "fullmatch r s \<longleftrightarrow> list_ex (\<lambda>(j, c). j = length s) (results r s 0 [])"

definition slice :: "string \<Rightarrow> nat \<Rightarrow> nat \<Rightarrow> string" where
  "slice s i j = take (j - i) (drop i s)"

definition group_span :: "re_match \<Rightarrow> string \<Rightarrow> (nat \<times> nat) option" where
  "group_span m n = map_of (m_groups m) n"

definition group :: "string \<Rightarrow> re_match \<Rightarrow> string \<Rightarrow> string option" where
  "group s m n = (case group_span m n of None \<Rightarrow> None | Some (i, j) \<Rightarrow> Some (slice s i j))"

text \<open>
  All matches from left to right; after an empty match the next one at the same place must not be
  empty. The guard holds in every call: it makes the progress explicit.
\<close>

function finditer :: "regex \<Rightarrow> string \<Rightarrow> nat \<Rightarrow> bool \<Rightarrow> re_match list" where
  "finditer r s i adv =
     (case search_steps (Suc (length s) - i) r s i adv of
        None \<Rightarrow> []
      | Some m \<Rightarrow> m # (if m_end m \<le> length s \<and> (i < m_end m \<or> (i = m_end m \<and> i = m_start m \<and> \<not> adv))
                      then finditer r s (m_end m) (m_end m = m_start m) else []))"
  by pat_completeness auto
termination
  by (relation "measure (\<lambda>(r, s, i, adv). 2 * (length s - i) + (if adv then 0 else 1))") auto

declare finditer.simps [simp del]

definition findall :: "regex \<Rightarrow> string \<Rightarrow> string list" where
  "findall r s = map (\<lambda>m. slice s (m_start m) (m_end m)) (finditer r s 0 False)"

fun sub_pieces :: "string \<Rightarrow> string \<Rightarrow> nat \<Rightarrow> re_match list \<Rightarrow> string" where
  "sub_pieces new s i [] = drop i s"
| "sub_pieces new s i (m # ms) = slice s i (m_start m) @ new @ sub_pieces new s (m_end m) ms"

definition sub :: "regex \<Rightarrow> string \<Rightarrow> string \<Rightarrow> string" where
  "sub r new s = sub_pieces new s 0 (finditer r s 0 False)"

section \<open>Notation of the patterns\<close>

definition chr :: "char \<Rightarrow> regex" where "chr c = Chr (\<lambda>x. x = c)"
definition one_of :: "string \<Rightarrow> regex" where "one_of cs = Chr (\<lambda>x. x \<in> set cs)"
definition digit :: regex where "digit = Chr is_digit"
definition not_digit :: regex where "not_digit = Chr (\<lambda>x. \<not> is_digit x)"
definition any_but_newline :: regex where "any_but_newline = Chr (\<lambda>x. x \<noteq> CHR 0x0A)"

fun seqs :: "regex list \<Rightarrow> regex" where
  "seqs [] = Eps" | "seqs [r] = r" | "seqs (r # rs) = Seq r (seqs rs)"

fun alts :: "regex list \<Rightarrow> regex" where
  "alts [] = NotAhead Eps" | "alts [r] = r" | "alts (r # rs) = Alt r (alts rs)"

definition lit :: "string \<Rightarrow> regex" where "lit s = seqs (map chr s)"

text \<open>A literal under \<open>(?i)\<close>.\<close>

definition lit_ci :: "string \<Rightarrow> regex" where
  "lit_ci s = seqs (map (\<lambda>c. Chr (\<lambda>x. casefold_char x = casefold_char c)) s)"

definition opt :: "regex \<Rightarrow> regex" where "opt r = Alt r Eps"
definition plus :: "regex \<Rightarrow> regex" where "plus r = Seq r (Star r)"

fun up_to :: "nat \<Rightarrow> regex \<Rightarrow> regex" where
  "up_to 0 r = Eps" | "up_to (Suc n) r = opt (Seq r (up_to n r))"

fun exactly :: "nat \<Rightarrow> regex \<Rightarrow> regex" where
  "exactly 0 r = Eps" | "exactly (Suc n) r = Seq r (exactly n r)"

definition rep :: "nat \<Rightarrow> nat \<Rightarrow> regex \<Rightarrow> regex" where
  "rep m n r = Seq (exactly m r) (up_to (n - m) r)"

lemmas regex_defs = chr_def one_of_def digit_def not_digit_def any_but_newline_def lit_def lit_ci_def
  opt_def plus_def rep_def

section \<open>Lemmas\<close>

lemma star_steps_bounds:
  assumes "\<And>i c j c'. i \<le> n \<Longrightarrow> (j, c') \<in> set (f i c) \<Longrightarrow> i \<le> j \<and> j \<le> n"
  shows "i \<le> n \<Longrightarrow> (j, c') \<in> set (star_steps k f i c) \<Longrightarrow> i \<le> j \<and> j \<le> n"
proof (induction k arbitrary: i c)
  case (Suc k)
  from Suc.prems(2) consider "j = i" "c' = c"
    | i' c1 where "(i', c1) \<in> set (f i c)" "i < i'" "(j, c') \<in> set (star_steps k f i' c1)"
    by (auto split: if_splits)
  then show ?case
  proof cases
    case 2
    have b: "i \<le> i' \<and> i' \<le> n" by (rule assms [OF Suc.prems(1) 2(1)])
    then have "i' \<le> j \<and> j \<le> n" using Suc.IH 2(3) by blast
    with b show ?thesis by simp
  qed (use Suc.prems(1) in simp)
qed auto

text \<open>A result never goes back and never beyond the end of the text.\<close>

lemma results_bounds: "i \<le> length s \<Longrightarrow> (j, c') \<in> set (results r s i c) \<Longrightarrow> i \<le> j \<and> j \<le> length s"
proof (induction r arbitrary: i j c c')
  case (Seq r q)
  from Seq.prems(2) obtain k d where kd: "(k, d) \<in> set (results r s i c)" "(j, c') \<in> set (results q s k d)" by auto
  have k: "i \<le> k \<and> k \<le> length s" by (rule Seq.IH(1) [OF Seq.prems(1) kd(1)])
  then have "k \<le> j \<and> j \<le> length s" using Seq.IH(2) kd(2) by blast
  with k show ?case by simp
next
  case (Star r)
  have "(j, c') \<in> set (star_steps (length s - i) (results r s) i c)" using Star.prems(2) by simp
  with Star.prems(1) show ?case
    by (rule star_steps_bounds [where n = "length s" and f = "results r s", rotated]) (rule Star.IH)
next
  case (Grp n r)
  from Grp.prems(2) obtain d where "(j, d) \<in> set (results r s i c)" by auto
  then show ?case by (rule Grp.IH [OF Grp.prems(1)])
next
  case (Ahead r)
  from Ahead.prems show ?case by (auto split: list.splits)
next
  case (Alt r q)
  from Alt.prems(2) consider "(j, c') \<in> set (results r s i c)" | "(j, c') \<in> set (results q s i c)"
    by auto
  then show ?case by cases (rule Alt.IH [OF Alt.prems(1)], assumption)+
next
  case (NotAhead r)
  from NotAhead.prems show ?case by (simp split: if_splits)
qed (simp_all split: if_splits)

text \<open>The bound on the rounds never cuts a repetition short.\<close>

lemma star_steps_enough:
  assumes "\<And>i c j c'. i \<le> n \<Longrightarrow> (j, c') \<in> set (f i c) \<Longrightarrow> i \<le> j \<and> j \<le> n"
  shows "i \<le> n \<Longrightarrow> n - i \<le> k \<Longrightarrow> star_steps k f i c = star_steps (n - i) f i c"
proof (induction k arbitrary: i c rule: less_induct)
  case (less k)
  show ?case
  proof (cases "n - i")
    case 0
    then have "i = n" using less.prems(1) by simp
    have "\<not> i < j" if "(j, c') \<in> set (f i c)" for j c'
      using assms [OF less.prems(1) that] \<open>i = n\<close> by simp
    then have "concat (map (\<lambda>(j, c'). if i < j then star_steps m f j c' else []) (f i c)) = []" for m
      by auto
    with 0 show ?thesis by (cases k) auto
  next
    case (Suc m)
    with less.prems obtain k' where k: "k = Suc k'" "m \<le> k'" by (cases k) auto
    have "star_steps k' f j c' = star_steps m f j c'"
      if "(j, c') \<in> set (f i c)" "i < j" for j c'
    proof -
      have j: "j \<le> n" "n - j \<le> m" using assms [OF less.prems(1) that(1)] that(2) Suc by auto
      then have "star_steps k' f j c' = star_steps (n - j) f j c'"
        using less.IH [of k' j c'] k by simp
      moreover have "star_steps m f j c' = star_steps (n - j) f j c'"
        using less.IH [of m j c'] k j by simp
      ultimately show ?thesis by simp
    qed
    then have "map (\<lambda>(j, c'). if i < j then star_steps k' f j c' else []) (f i c)
        = map (\<lambda>(j, c'). if i < j then star_steps m f j c' else []) (f i c)" by auto
    then show ?thesis unfolding k Suc star_steps.simps by (rule arg_cong [THEN arg_cong])
  qed
qed

lemma search_steps_bounds:
  "search_steps n r s i adv = Some m \<Longrightarrow> i + n \<le> Suc (length s) \<Longrightarrow>
     i \<le> m_start m \<and> m_start m \<le> m_end m \<and> m_end m \<le> length s \<and>
     (adv \<longrightarrow> i < m_end m)"
proof (induction n arbitrary: i adv)
  case (Suc n)
  show ?case
  proof (cases "filter (\<lambda>(j, c). adv \<longrightarrow> i < j) (results r s i [])")
    case Nil
    with Suc.prems Suc.IH [of "Suc i" False] show ?thesis by auto
  next
    case (Cons p ps)
    obtain a b where p: "p = (a, b)" by (cases p)
    have "p \<in> set (filter (\<lambda>(j, c). adv \<longrightarrow> i < j) (results r s i []))" using Cons by simp
    then have ab: "(a, b) \<in> set (results r s i [])" "adv \<longrightarrow> i < a" using p by simp_all
    have "i \<le> length s" using Suc.prems(2) by simp
    from results_bounds [OF this ab(1)] ab(2) Cons Suc.prems(1) show ?thesis
      by (auto simp: p)
  qed
qed simp

lemma search_from_bounds:
  "search_from r s i = Some m \<Longrightarrow> i \<le> length s \<Longrightarrow>
     i \<le> m_start m \<and> m_start m \<le> m_end m \<and> m_end m \<le> length s"
  using search_steps_bounds [of "Suc (length s) - i" r s i False m] by (simp add: search_from_def)

lemma search_bounds: "search r s = Some m \<Longrightarrow> m_start m \<le> m_end m \<and> m_end m \<le> length s"
  using search_from_bounds [of r s 0 m] by (simp add: search_def)

text \<open>The guard of \<open>finditer\<close> is no restriction.\<close>

lemma finditer_unguarded:
  assumes "i \<le> length s"
  shows "finditer r s i adv =
     (case search_steps (Suc (length s) - i) r s i adv of
        None \<Rightarrow> []
      | Some m \<Rightarrow> m # finditer r s (m_end m) (m_end m = m_start m))"
proof (cases "search_steps (Suc (length s) - i) r s i adv")
  case None
  then show ?thesis by (simp add: finditer.simps)
next
  case (Some m)
  with search_steps_bounds [OF Some] assms show ?thesis
    by (subst finditer.simps) auto
qed

lemma slice_simps [simp]:
  "slice s 0 j = take j s"
  "slice s i i = []"
  by (simp_all add: slice_def)

lemma set_slice: "set (slice s i j) \<subseteq> set s"
  by (auto simp: slice_def dest: in_set_takeD in_set_dropD)

section \<open>Patterns that replace or collect runs of characters\<close>

text \<open>\<open>re.sub("[..]", new, s)\<close> and \<open>re.sub("[..]+", new, s)\<close> written as list functions.\<close>

definition sub_chars :: "(char \<Rightarrow> bool) \<Rightarrow> string \<Rightarrow> string \<Rightarrow> string" where
  "sub_chars P new s = concat (map (\<lambda>x. if P x then new else [x]) s)"

function sub_runs :: "(char \<Rightarrow> bool) \<Rightarrow> string \<Rightarrow> string \<Rightarrow> string" where
  "sub_runs P new [] = []"
| "sub_runs P new (x # xs) = (if P x then new @ sub_runs P new (dropWhile P xs) else x # sub_runs P new xs)"
  by pat_completeness auto
termination
  by (relation "measure (\<lambda>(P, new, s). length s)") (auto simp: length_dropWhile_le less_Suc_eq_le)

function runs :: "(char \<Rightarrow> bool) \<Rightarrow> string \<Rightarrow> string list" where
  "runs P [] = []"
| "runs P (x # xs) = (if P x then (x # takeWhile P xs) # runs P (dropWhile P xs) else runs P xs)"
  by pat_completeness auto
termination
  by (relation "measure (\<lambda>(P, s). length s)") (auto simp: length_dropWhile_le less_Suc_eq_le)

definition run_end :: "(char \<Rightarrow> bool) \<Rightarrow> string \<Rightarrow> nat \<Rightarrow> nat" where
  "run_end P s i = i + length (takeWhile P (drop i s))"

lemma run_end_step: "i < length s \<Longrightarrow> P (s ! i) \<Longrightarrow> run_end P s i = run_end P s (Suc i)"
  by (simp add: run_end_def Cons_nth_drop_Suc [symmetric])

lemma star_chr_first:
  "length s - i \<le> k \<Longrightarrow> \<exists>rest. star_steps k (results (Chr P) s) i c = (run_end P s i, c) # rest"
proof (induction k arbitrary: i)
  case 0
  then show ?case by (simp add: run_end_def)
next
  case (Suc k)
  show ?case
  proof (cases "i < length s \<and> P (s ! i)")
    case True
    have "length s - Suc i \<le> k" using Suc.prems by simp
    from Suc.IH [OF this] obtain rest where
      "star_steps k (results (Chr P) s) (Suc i) c = (run_end P s (Suc i), c) # rest" ..
    moreover have "results (Chr P) s i c = [(Suc i, c)]" using True by simp
    ultimately have "star_steps (Suc k) (results (Chr P) s) i c = (run_end P s (Suc i), c) # rest @ [(i, c)]"
      unfolding star_steps.simps by (simp del: results.simps)
    with True run_end_step [of i s P] show ?thesis by metis
  next
    case False
    then have "takeWhile P (drop i s) = []"
      by (cases "i < length s") (simp_all add: Cons_nth_drop_Suc [symmetric])
    moreover have "results (Chr P) s i c = []" using False by simp
    ultimately show ?thesis unfolding star_steps.simps by (simp add: run_end_def del: results.simps)
  qed
qed

text \<open>What the two patterns do at a position: \<open>e i\<close> is where the match at \<open>i\<close> ends.\<close>

definition runs_of :: "regex \<Rightarrow> (char \<Rightarrow> bool) \<Rightarrow> string \<Rightarrow> (nat \<Rightarrow> nat) \<Rightarrow> bool" where
  "runs_of r P s e \<longleftrightarrow> (\<forall>i. if i < length s \<and> P (s ! i)
      then i < e i \<and> (\<exists>rest. results r s i [] = (e i, []) # rest) \<and> e i \<le> length s
      else results r s i [] = [])"

lemma runs_of_chr: "runs_of (Chr P) P s Suc"
  by (auto simp: runs_of_def)

lemma runs_of_plus: "runs_of (plus (Chr P)) P s (run_end P s)"
proof -
  have "run_end P s i \<le> length s" if "i < length s" for i
    using that length_takeWhile_le [of P "drop i s"] by (simp add: run_end_def)
  moreover have "i < run_end P s i" if "i < length s" "P (s ! i)" for i
    using that by (simp add: run_end_step run_end_def [of P s "Suc i"])
  moreover have "\<exists>rest. results (plus (Chr P)) s i [] = (run_end P s i, []) # rest"
    if "i < length s" "P (s ! i)" for i
    using that star_chr_first [of s "Suc i" "length s - Suc i" P "[]"]
    by (auto simp: plus_def run_end_step)
  ultimately show ?thesis by (auto simp: runs_of_def plus_def)
qed

lemma finditer_runs:
  assumes "runs_of r P s e" "i < length s"
  shows "finditer r s i adv = (if P (s ! i)
     then \<lparr>m_start = i, m_end = e i, m_groups = []\<rparr> # finditer r s (e i) False
     else finditer r s (Suc i) False)"
proof (cases "P (s ! i)")
  case True
  with assms have "i < e i \<and> (\<exists>rest. results r s i [] = (e i, []) # rest)"
    unfolding runs_of_def by meson
  then obtain rest where "results r s i [] = (e i, []) # rest" "i < e i" by blast
  with True assms(2) show ?thesis
    by (subst finditer_unguarded) (simp_all add: Suc_diff_le)
next
  case False
  with assms have "results r s i [] = []" by (auto simp: runs_of_def)
  then have "search_steps (Suc (length s) - i) r s i adv = search_steps (Suc (length s) - Suc i) r s (Suc i) False"
    using assms(2) by (simp add: Suc_diff_le)
  with False assms(2) show ?thesis
    by (simp add: finditer_unguarded)
qed

lemma finditer_end: "runs_of r P s e \<Longrightarrow> finditer r s (length s) adv = []"
  by (subst finditer_unguarded) (auto simp: runs_of_def)

lemma finditer_start: "m # ms = finditer r s i adv \<Longrightarrow> i \<le> length s \<Longrightarrow> i \<le> m_start m"
  using search_steps_bounds [of "Suc (length s) - i" r s i adv]
  by (subst (asm) finditer_unguarded) (auto split: option.splits)

lemma sub_pieces_shift:
  "i < length s \<Longrightarrow> (\<And>m ms'. ms = m # ms' \<Longrightarrow> Suc i \<le> m_start m) \<Longrightarrow>
   sub_pieces new s i ms = s ! i # sub_pieces new s (Suc i) ms"
proof (cases ms)
  case (Cons m ms')
  assume i: "i < length s" and later: "\<And>m ms'. ms = m # ms' \<Longrightarrow> Suc i \<le> m_start m"
  have "Suc i \<le> m_start m" using later Cons by blast
  then obtain d where "m_start m = Suc (i + d)" by (metis add_Suc le_Suc_ex)
  then have "slice s i (m_start m) = s ! i # slice s (Suc i) (m_start m)"
    using i by (simp add: slice_def Cons_nth_drop_Suc [symmetric])
  with Cons show ?thesis by simp
qed (simp add: Cons_nth_drop_Suc)

lemma sub_run_step:
  assumes "runs_of r P s e" "i < length s"
  shows "sub_pieces new s i (finditer r s i adv) =
     (if P (s ! i) then new @ sub_pieces new s (e i) (finditer r s (e i) False)
      else s ! i # sub_pieces new s (Suc i) (finditer r s (Suc i) False))"
proof (cases "P (s ! i)")
  case False
  have "sub_pieces new s i (finditer r s (Suc i) False)
      = s ! i # sub_pieces new s (Suc i) (finditer r s (Suc i) False)"
  proof (rule sub_pieces_shift [OF assms(2)])
    fix m ms' assume "finditer r s (Suc i) False = m # ms'"
    from finditer_start [OF this [symmetric]] assms(2) show "Suc i \<le> m_start m" by simp
  qed
  with False show ?thesis by (simp add: finditer_runs [OF assms])
qed (simp add: finditer_runs [OF assms])

lemma sub_chr: "sub (Chr P) new s = sub_chars P new s"
proof -
  have "sub_pieces new s i (finditer (Chr P) s i adv) = sub_chars P new (drop i s)" if "i \<le> length s" for i adv
    using that
  proof (induction "length s - i" arbitrary: i adv)
    case 0
    then have "i = length s" by simp
    then show ?case by (simp add: finditer_end [OF runs_of_chr] sub_chars_def)
  next
    case (Suc n)
    then show ?case
      by (auto simp: sub_run_step [OF runs_of_chr] sub_chars_def Cons_nth_drop_Suc [symmetric])
  qed
  from this [of 0] show ?thesis by (simp add: sub_def)
qed

lemma drop_run_end: "drop (run_end P s i) s = dropWhile P (drop i s)"
  by (simp add: run_end_def dropWhile_eq_drop add.commute)

lemma sub_plus: "sub (plus (Chr P)) new s = sub_runs P new s"
proof -
  have "sub_pieces new s i (finditer (plus (Chr P)) s i adv) = sub_runs P new (drop i s)"
    if "i \<le> length s" for i adv
    using that
  proof (induction "length s - i" arbitrary: i adv rule: less_induct)
    case less
    show ?case
    proof (cases "i < length s")
      case True
      have "run_end P s i \<le> length s" "P (s ! i) \<Longrightarrow> i < run_end P s i"
        using runs_of_plus [of P s] True
        by (auto simp: runs_of_def run_end_def split: if_splits intro: le_trans length_takeWhile_le)
          (metis add_le_mono1 le_add_diff_inverse length_drop length_takeWhile_le nat_add_left_cancel_le less_imp_le)
      with less True show ?thesis
        by (auto simp: sub_run_step [OF runs_of_plus] drop_run_end Cons_nth_drop_Suc [symmetric]
            simp del: drop_drop)
    next
      case False
      with less.prems have "i = length s" by simp
      then show ?thesis by (simp add: finditer_end [OF runs_of_plus])
    qed
  qed
  from this [of 0] show ?thesis by (simp add: sub_def)
qed

lemma findall_plus: "findall (plus (Chr P)) s = runs P s"
proof -
  have "map (\<lambda>m. slice s (m_start m) (m_end m)) (finditer (plus (Chr P)) s i adv) = runs P (drop i s)"
    if "i \<le> length s" for i adv
    using that
  proof (induction "length s - i" arbitrary: i adv rule: less_induct)
    case less
    show ?case
    proof (cases "i < length s")
      case True
      have e: "run_end P s i \<le> length s"
        using length_takeWhile_le [of P "drop i s"] True by (simp add: run_end_def)
      have sl: "slice s i (run_end P s i) = takeWhile P (drop i s)"
        by (simp add: slice_def run_end_def) (metis takeWhile_eq_take)
      have "i < run_end P s i" if "P (s ! i)"
        using that True by (simp add: run_end_step run_end_def [of P s "Suc i"])
      with less True e show ?thesis
        by (auto simp: finditer_runs [OF runs_of_plus] sl drop_run_end Cons_nth_drop_Suc [symmetric]
            simp del: drop_drop)
    next
      case False
      with less.prems have "i = length s" by simp
      then show ?thesis by (simp add: finditer_end [OF runs_of_plus])
    qed
  qed
  from this [of 0] show ?thesis by (simp add: findall_def)
qed

section \<open>Bounded repetitions and groups\<close>

lemma exactly_results:
  "results (exactly n (Chr P)) s i c =
     (if i + n \<le> length s \<and> list_all P (take n (drop i s)) then [(i + n, c)]
      else if n = 0 then [(i, c)] else [])"
proof (induction n arbitrary: i)
  case (Suc n)
  then show ?case
    by (auto simp: Cons_nth_drop_Suc [symmetric] Suc_le_eq)
qed simp

lemma up_to_results:
  "j \<in> fst ` set (results (up_to n (Chr P)) s i c) \<longleftrightarrow>
     i \<le> j \<and> j \<le> i + n \<and> (j = i \<or> j \<le> length s \<and> list_all P (take (j - i) (drop i s)))"
proof (induction n arbitrary: i)
  case (Suc n)
  show ?case
  proof (cases "i < length s \<and> P (s ! i)")
    case True
    have "j \<in> fst ` set (results (up_to (Suc n) (Chr P)) s i c)
        \<longleftrightarrow> j \<in> fst ` set (results (up_to n (Chr P)) s (Suc i) c) \<or> j = i"
      using True by (auto simp: opt_def)
    also have "\<dots> \<longleftrightarrow> (Suc i \<le> j \<and> j \<le> Suc i + n \<and>
        (j = Suc i \<or> j \<le> length s \<and> list_all P (take (j - Suc i) (drop (Suc i) s)))) \<or> j = i"
      by (simp only: Suc.IH)
    also have "\<dots> \<longleftrightarrow> i \<le> j \<and> j \<le> i + Suc n \<and>
        (j = i \<or> j \<le> length s \<and> list_all P (take (j - i) (drop i s)))"
    proof (cases "i < j")
      case True
      then obtain d where "j = Suc (i + d)" by (metis add_Suc less_imp_Suc_add)
      with \<open>i < length s \<and> P (s ! i)\<close> show ?thesis
        by (auto simp: Cons_nth_drop_Suc [symmetric])
    qed auto
    finally show ?thesis .
  next
    case False
    have "\<not> list_all P (take (j - i) (drop i s))" if "i < j" "j \<le> length s"
      using that False by (cases "j - i") (auto simp: Cons_nth_drop_Suc [symmetric])
    with False show ?thesis by (auto simp: opt_def) (metis le_neq_implies_less)
  qed
qed auto

lemma rep_results:
  assumes "j \<in> fst ` set (results (rep m n (Chr P)) s i c)" "0 < m" "m \<le> n"
  shows "i + m \<le> j \<and> j \<le> i + n \<and> j \<le> length s \<and> list_all P (slice s i j)"
proof -
  have start: "i + m \<le> length s" "list_all P (take m (drop i s))"
    and "j \<in> fst ` set (results (up_to (n - m) (Chr P)) s (i + m) c)"
    using assms by (auto simp: rep_def exactly_results split: if_splits)
  then have j: "i + m \<le> j" "j \<le> i + n"
    and cs: "j = i + m \<or> j \<le> length s \<and> list_all P (take (j - (i + m)) (drop (i + m) s))"
    using assms(3) by (auto simp: up_to_results)
  have "slice s i j = take m (drop i s) @ take (j - (i + m)) (drop (i + m) s)"
  proof -
    obtain d where "j = i + m + d" using j(1) le_Suc_ex by blast
    then have "slice s i j = take (m + d) (drop i s)" by (simp add: slice_def)
    also have "\<dots> = take m (drop i s) @ take d (drop m (drop i s))" by (rule take_add)
    finally show ?thesis using \<open>j = i + m + d\<close> by (simp add: add.commute)
  qed
  with start j cs show ?thesis by auto
qed

primrec groups_in :: "regex \<Rightarrow> (string \<times> regex) set" where
  "groups_in Eps = {}"
| "groups_in (Chr P) = {}"
| "groups_in (Seq r q) = groups_in r \<union> groups_in q"
| "groups_in (Alt r q) = groups_in r \<union> groups_in q"
| "groups_in (Star r) = groups_in r"
| "groups_in (Grp n r) = insert (n, r) (groups_in r)"
| "groups_in Bol = {}"
| "groups_in Eol = {}"
| "groups_in WordB = {}"
| "groups_in (Ahead r) = groups_in r"
| "groups_in (NotAhead r) = {}"
| "groups_in (NotBehind P) = {}"

text \<open>The groups that every match sets.\<close>

primrec sure_groups :: "regex \<Rightarrow> string set" where
  "sure_groups Eps = {}"
| "sure_groups (Chr P) = {}"
| "sure_groups (Seq r q) = sure_groups r \<union> sure_groups q"
| "sure_groups (Alt r q) = sure_groups r \<inter> sure_groups q"
| "sure_groups (Star r) = {}"
| "sure_groups (Grp n r) = insert n (sure_groups r)"
| "sure_groups Bol = {}"
| "sure_groups Eol = {}"
| "sure_groups WordB = {}"
| "sure_groups (Ahead r) = sure_groups r"
| "sure_groups (NotAhead r) = {}"
| "sure_groups (NotBehind P) = {}"

definition captured :: "regex \<Rightarrow> string \<Rightarrow> string \<times> nat \<times> nat \<Rightarrow> bool" where
  "captured r s g \<longleftrightarrow> (\<exists>r0 c0. (fst g, r0) \<in> groups_in r \<and>
     snd (snd g) \<in> fst ` set (results r0 s (fst (snd g)) c0))"

lemma star_steps_caps:
  assumes "\<And>i c j c'. (j, c') \<in> set (f i c) \<Longrightarrow> set c \<subseteq> set c' \<and> (\<forall>g\<in>set c'. g \<in> set c \<or> Q g)"
  shows "(j, c') \<in> set (star_steps k f i c) \<Longrightarrow> set c \<subseteq> set c' \<and> (\<forall>g\<in>set c'. g \<in> set c \<or> Q g)"
proof (induction k arbitrary: i c)
  case (Suc k)
  from Suc.prems consider "j = i" "c' = c"
    | i' c1 where "(i', c1) \<in> set (f i c)" "(j, c') \<in> set (star_steps k f i' c1)"
    by (auto split: if_splits)
  then show ?case
  proof cases
    case 2
    with assms [OF 2(1)] Suc.IH [OF 2(2)] show ?thesis by blast
  qed simp
qed simp

text \<open>A match only adds groups, and each comes from a group of the pattern.\<close>

lemma results_caps:
  "(j, c') \<in> set (results r s i c) \<Longrightarrow> set c \<subseteq> set c' \<and> (\<forall>g\<in>set c'. g \<in> set c \<or> captured r s g)"
proof (induction r arbitrary: i j c c')
  case (Seq r q)
  from Seq.prems obtain k d where kd: "(k, d) \<in> set (results r s i c)" "(j, c') \<in> set (results q s k d)"
    by auto
  have "captured r s g \<Longrightarrow> captured (Seq r q) s g" "captured q s g \<Longrightarrow> captured (Seq r q) s g" for g
    by (auto simp: captured_def)
  with Seq.IH(1) [OF kd(1)] Seq.IH(2) [OF kd(2)] show ?case by blast
next
  case (Alt r q)
  from Alt.prems consider "(j, c') \<in> set (results r s i c)" | "(j, c') \<in> set (results q s i c)" by auto
  moreover have "captured r s g \<Longrightarrow> captured (Alt r q) s g" "captured q s g \<Longrightarrow> captured (Alt r q) s g" for g
    by (auto simp: captured_def)
  ultimately show ?case using Alt.IH by cases blast+
next
  case (Star r)
  have "(j, c') \<in> set (star_steps (length s - i) (results r s) i c)" using Star.prems by simp
  then have "set c \<subseteq> set c' \<and> (\<forall>g\<in>set c'. g \<in> set c \<or> captured r s g)"
    by (rule star_steps_caps [rotated]) (rule Star.IH)
  then show ?case by (simp add: captured_def)
next
  case (Grp n r)
  from Grp.prems obtain d where d: "(j, d) \<in> set (results r s i c)" "c' = (n, i, j) # d" by auto
  have "captured (Grp n r) s (n, i, j)" using d(1) by (force simp: captured_def)
  moreover have "captured r s g \<Longrightarrow> captured (Grp n r) s g" for g by (auto simp: captured_def)
  ultimately show ?case using Grp.IH [OF d(1)] d(2) by auto
next
  case (Ahead r)
  from Ahead.prems obtain k where "(k, c') \<in> set (results r s i c)"
    by (cases "results r s i c") auto
  from Ahead.IH [OF this] show ?case by (simp add: captured_def)
qed (auto split: if_splits)

lemma results_sure:
  "(j, c') \<in> set (results r s i c) \<Longrightarrow> n \<in> sure_groups r \<Longrightarrow> n \<in> fst ` set c'"
proof (induction r arbitrary: i j c c')
  case (Seq r q)
  from Seq.prems obtain k d where kd: "(k, d) \<in> set (results r s i c)" "(j, c') \<in> set (results q s k d)"
    by auto
  have "set d \<subseteq> set c'" using results_caps [OF kd(2)] by blast
  with Seq.IH(1) [OF kd(1)] Seq.IH(2) [OF kd(2)] Seq.prems(2) show ?case by auto
next
  case (Alt r q)
  from Alt.prems(1) consider "(j, c') \<in> set (results r s i c)" | "(j, c') \<in> set (results q s i c)" by auto
  then show ?case using Alt.prems(2) by cases (use Alt.IH in fastforce)+
next
  case (Grp m r)
  from Grp.prems obtain d where d: "(j, d) \<in> set (results r s i c)" "c' = (m, i, j) # d" by auto
  with Grp.IH [OF d(1)] Grp.prems(2) show ?case by auto
next
  case (Ahead r)
  from Ahead.prems(1) obtain k where "(k, c') \<in> set (results r s i c)"
    by (cases "results r s i c") auto
  from Ahead.IH [OF this] Ahead.prems(2) show ?case by simp
qed auto

lemma search_steps_result:
  "search_steps n r s i adv = Some m \<Longrightarrow> (m_end m, m_groups m) \<in> set (results r s (m_start m) [])"
proof (induction n arbitrary: i adv)
  case (Suc n)
  show ?case
  proof (cases "filter (\<lambda>(j, c). adv \<longrightarrow> i < j) (results r s i [])")
    case Nil
    with Suc.prems have "search_steps n r s (Suc i) False = Some m" by simp
    then show ?thesis by (rule Suc.IH)
  next
    case (Cons p ps)
    obtain a b where p: "p = (a, b)" by (cases p)
    have "p \<in> set (filter (\<lambda>(j, c). adv \<longrightarrow> i < j) (results r s i []))" using Cons by simp
    then have "(a, b) \<in> set (results r s i [])" using p by simp
    with Cons Suc.prems p show ?thesis by auto
  qed
qed simp

text \<open>What a caller may assume of a group of a match.\<close>

lemma match_group:
  assumes "search_steps n r s i adv = Some m" "g \<in> sure_groups r"
  shows "\<exists>a b r0 c0. group s m g = Some (slice s a b) \<and> group_span m g = Some (a, b) \<and>
     (g, r0) \<in> groups_in r \<and> b \<in> fst ` set (results r0 s a c0)"
proof -
  note res = search_steps_result [OF assms(1)]
  obtain a b where ab: "map_of (m_groups m) g = Some (a, b)"
    using results_sure [OF res assms(2)] by (metis map_of_eq_None_iff option.exhaust surj_pair)
  then have "(g, a, b) \<in> set (m_groups m)" by (rule map_of_SomeD)
  with results_caps [OF res] have "captured r s (g, a, b)" by auto
  with ab show ?thesis by (auto simp: group_def group_span_def captured_def)
qed

text \<open>A search finds something as soon as one position matches.\<close>

lemma search_steps_found:
  "results r s k [] \<noteq> [] \<Longrightarrow> i \<le> k \<Longrightarrow> k < i + n \<Longrightarrow> search_steps n r s i False \<noteq> None"
proof (induction n arbitrary: i)
  case (Suc n)
  show ?case
  proof (cases "results r s i []")
    case Nil
    with Suc.prems have "Suc i \<le> k" by (cases "i = k") auto
    with Suc Nil show ?thesis by simp
  qed (auto split: prod.splits)
qed simp

lemma search_found: "results r s k [] \<noteq> [] \<Longrightarrow> k \<le> length s \<Longrightarrow> search r s \<noteq> None"
  using search_steps_found [of r s k 0 "Suc (length s)"] by (simp add: search_def search_from_def)

end
