(* ===== verification/Domain.thy ===== *)
theory Domain
  imports Errors Regex
begin

text \<open>
  The shared domain types and policies (api/app/domain/media_identity.py) and the normal forms of
  hashes, paths and titles (api/app/domain/normalization.py). The string enums are datatypes with
  their wire values; \<open>_str\<close> functions give the values.
\<close>

section \<open>Kinds, categories and authorities\<close>

datatype library_category = Movies | Shows | Anime
datatype content_kind = ContentMovie | ContentSeries
datatype provider_kind = ProviderMovie | ProviderTv
datatype identity_authority = Manual | SearchConfirmed | ProviderResolved | Migrated | Fallback
datatype resolution_status = Resolved | NoMatch | ProviderError

fun category_str :: "library_category \<Rightarrow> string" where
  "category_str Movies = ''movies''"
| "category_str Shows = ''shows''"
| "category_str Anime = ''anime''"

fun content_kind_str :: "content_kind \<Rightarrow> string" where
  "content_kind_str ContentMovie = ''movie''"
| "content_kind_str ContentSeries = ''series''"

fun provider_kind_str :: "provider_kind \<Rightarrow> string" where
  "provider_kind_str ProviderMovie = ''movie''"
| "provider_kind_str ProviderTv = ''tv''"

fun authority_str :: "identity_authority \<Rightarrow> string" where
  "authority_str Manual = ''manual''"
| "authority_str SearchConfirmed = ''search_confirmed''"
| "authority_str ProviderResolved = ''provider_resolved''"
| "authority_str Migrated = ''migrated''"
| "authority_str Fallback = ''fallback''"

fun resolution_status_str :: "resolution_status \<Rightarrow> string" where
  "resolution_status_str Resolved = ''resolved''"
| "resolution_status_str NoMatch = ''no_match''"
| "resolution_status_str ProviderError = ''provider_error''"

definition authoritative :: "identity_authority \<Rightarrow> bool" where
  "authoritative a \<longleftrightarrow> a = Manual \<or> a = SearchConfirmed"

fun identity_authority_priority :: "identity_authority \<Rightarrow> nat" where
  "identity_authority_priority Manual = 50"
| "identity_authority_priority SearchConfirmed = 40"
| "identity_authority_priority Migrated = 30"
| "identity_authority_priority ProviderResolved = 20"
| "identity_authority_priority Fallback = 0"

definition parse_library_category :: "string \<Rightarrow> library_category result" where
  "parse_library_category category =
     (if category = ''movies'' then return Movies
      else if category = ''shows'' then return Shows
      else if category = ''anime'' then return Anime
      else raise (ValueError (''Invalid library category: '' @ category)))"

text \<open>The enums' constructors: \<open>ContentKind(value)\<close> and \<open>ProviderMediaKind(value)\<close>.\<close>

definition parse_content_kind :: "string \<Rightarrow> content_kind result" where
  "parse_content_kind v =
     (if v = ''movie'' then return ContentMovie else if v = ''series'' then return ContentSeries
      else raise (ValueError (v @ '' is not a valid ContentKind'')))"

definition parse_provider_kind :: "string \<Rightarrow> provider_kind result" where
  "parse_provider_kind v =
     (if v = ''movie'' then return ProviderMovie else if v = ''tv'' then return ProviderTv
      else raise (ValueError (v @ '' is not a valid ProviderMediaKind'')))"

definition parse_authority :: "string \<Rightarrow> identity_authority result" where
  "parse_authority v = (case find (\<lambda>a. authority_str a = v) [Manual, SearchConfirmed, ProviderResolved, Migrated, Fallback] of
     Some a \<Rightarrow> return a | None \<Rightarrow> raise (ValueError (v @ '' is not a valid IdentityAuthority'')))"

definition content_kind_for_category :: "string \<Rightarrow> content_kind result" where
  "content_kind_for_category category =
     bind_res (parse_library_category category)
       (\<lambda>p. return (if p = Movies then ContentMovie else ContentSeries))"

definition provider_kind_for_content :: "string \<Rightarrow> provider_kind result" where
  "provider_kind_for_content v =
     bind_res (parse_content_kind v)
       (\<lambda>p. return (if p = ContentMovie then ProviderMovie else ProviderTv))"

definition provider_kind_for_search :: "string \<Rightarrow> provider_kind result" where
  "provider_kind_for_search media_type =
     (if media_type = ''movie'' then return ProviderMovie
      else if media_type = ''series'' then return ProviderTv
      else raise (ValueError (''Invalid search media type: '' @ media_type)))"

definition content_kind_for_provider :: "string \<Rightarrow> content_kind result" where
  "content_kind_for_provider v =
     bind_res (parse_provider_kind v)
       (\<lambda>p. return (if p = ProviderMovie then ContentMovie else ContentSeries))"

definition search_media_type_for_category :: "string \<Rightarrow> string result" where
  "search_media_type_for_category category =
     bind_res (parse_library_category category)
       (\<lambda>p. return (if p = Movies then ''movie'' else ''series''))"

record external_identity =
  xi_provider :: string
  xi_kind :: provider_kind
  xi_external_id :: string

definition external_media_identity :: "string \<Rightarrow> provider_kind \<Rightarrow> string \<Rightarrow> external_identity result" where
  "external_media_identity provider kind external_id =
     (if strip provider = [] then raise (ValueError ''Identity provider is required.'')
      else if strip external_id = [] then raise (ValueError ''External identity is required.'')
      else return \<lparr>xi_provider = provider, xi_kind = kind, xi_external_id = external_id\<rparr>)"

lemma parse_category_str [simp]: "parse_library_category (category_str c) = return c"
  by (cases c) (simp_all add: parse_library_category_def)

lemma parse_content_kind_str [simp]: "parse_content_kind (content_kind_str k) = return k"
  by (cases k) (simp_all add: parse_content_kind_def)

lemma parse_provider_kind_str [simp]: "parse_provider_kind (provider_kind_str k) = return k"
  by (cases k) (simp_all add: parse_provider_kind_def)

lemma parse_authority_str [simp]: "parse_authority (authority_str a) = return a"
  by (cases a) (simp_all add: parse_authority_def)

lemma parse_authority_iff: "parse_authority v = return a \<longleftrightarrow> v = authority_str a"
proof
  have found: "find P xs = Some x \<Longrightarrow> P x" for P and x :: identity_authority and xs
    by (induction xs) (auto split: if_splits)
  assume "parse_authority v = return a"
  then have "find (\<lambda>a. authority_str a = v) [Manual, SearchConfirmed, ProviderResolved, Migrated, Fallback] = Some a"
    unfolding parse_authority_def by (simp split: option.splits del: find.simps)
  from found [OF this] show "v = authority_str a" by simp
qed simp

lemma authoritative_priority: "authoritative a \<longleftrightarrow> 40 \<le> identity_authority_priority a"
  by (cases a) (simp_all add: authoritative_def)

section \<open>Normal forms\<close>

definition alnum :: regex where "alnum = Chr is_alnum"

definition INFO_HASH_PATTERN :: regex where
  "INFO_HASH_PATTERN = seqs [Bol, rep 20 100 alnum, Eol]"

definition TITLE_TOKEN :: regex where "TITLE_TOKEN = plus (Chr is_word)"

text \<open>\<open>None\<close> stands for a value that is not a string.\<close>

definition normalize_info_hash :: "string option \<Rightarrow> string option" where
  "normalize_info_hash value =
     (case value of None \<Rightarrow> None
      | Some v \<Rightarrow>
          let candidate = strip v
          in if fullmatch INFO_HASH_PATTERN candidate then Some (casefold candidate) else None)"

definition normalize_source_path :: "string \<Rightarrow> string" where
  "normalize_source_path v =
     (let normalized = casefold (strip_by (\<lambda>c. c = CHR ''/'') (replace_char (CHR 0x5C) ''/'' v))
      in sub (plus (chr (CHR ''/''))) ''/'' normalized)"

text \<open>NFKC is the identity on the modelled alphabet.\<close>

definition normalize_title_for_identity :: "string \<Rightarrow> string" where
  "normalize_title_for_identity v = join '' '' (findall TITLE_TOKEN (casefold v))"

definition normalize_title_for_duplicate_detection :: "string \<Rightarrow> string" where
  "normalize_title_for_duplicate_detection v = normalize_title_for_identity v"

text \<open>An info hash in normal form: 20 to 100 letters and digits, folded.\<close>

definition info_hash_ok :: "string \<Rightarrow> bool" where
  "info_hash_ok h \<longleftrightarrow> 20 \<le> length h \<and> length h \<le> 100 \<and> list_all is_alnum h \<and> casefold h = h"

lemma fullmatch_info_hash:
  "fullmatch INFO_HASH_PATTERN s \<longleftrightarrow> 20 \<le> length s \<and> length s \<le> 100 \<and> list_all is_alnum s"
proof -
  have "fullmatch INFO_HASH_PATTERN s \<longleftrightarrow>
      length s \<in> fst ` set (results (rep 20 100 alnum) s 0 [])"
    by (auto simp: fullmatch_def INFO_HASH_PATTERN_def list_ex_iff at_eol_def image_iff
        split: if_splits) (metis fst_conv)+
  also have "\<dots> \<longleftrightarrow> 20 \<le> length s \<and> list_all is_alnum (take 20 s) \<and>
      length s \<in> fst ` set (results (up_to 80 alnum) s 20 [])"
    by (auto simp: rep_def alnum_def exactly_results [of 20] simp del: exactly.simps up_to.simps)
  also have "\<dots> \<longleftrightarrow> 20 \<le> length s \<and> length s \<le> 100 \<and> list_all is_alnum s"
    by (auto simp: alnum_def up_to_results list_all_iff simp del: up_to.simps)
      (metis append_take_drop_id in_set_takeD in_set_dropD UnE set_append)+
  finally show ?thesis .
qed

end
