(* ===== verification/PyFloat.thy ===== *)
theory PyFloat
  imports PyPrelude
begin

text \<open>
  Python's \<open>float\<close> as far as the program uses it: binary64 values as exact rationals, decimal text
  rounded to the nearest of them (ties to even), and the value of a product or quotient rounded the
  same way.
\<close>

datatype pyfloat = Fin rat | Inf bool | NaN

fun bit_length :: "nat \<Rightarrow> nat" where
  "bit_length n = (if n = 0 then 0 else Suc (bit_length (n div 2)))"

declare bit_length.simps [simp del]

definition two_to :: "int \<Rightarrow> rat" where
  "two_to e = (if 0 \<le> e then 2 ^ nat e else 1 / 2 ^ nat (- e))"

text \<open>The exponent \<open>e\<close> with \<open>2 ^ e \<le> r < 2 ^ (e + 1)\<close>, for a positive \<open>r\<close>.\<close>

definition exponent_of :: "rat \<Rightarrow> int" where
  "exponent_of r = (case quotient_of r of (p, q) \<Rightarrow>
     let e = int (bit_length (nat p)) - int (bit_length (nat q))
     in if two_to e \<le> r then e else e - 1)"

definition round_half_even :: "rat \<Rightarrow> int" where
  "round_half_even x =
     (let f = floor x; d = x - of_int f
      in if d < 1 / 2 then f else if 1 / 2 < d then f + 1 else if even f then f else f + 1)"

definition to_double :: "rat \<Rightarrow> pyfloat" where
  "to_double r =
     (if r = 0 then Fin 0
      else let e = max (exponent_of \<bar>r\<bar> - 52) (- 1074);
               v = of_int (round_half_even (r / two_to e)) * two_to e
           in if two_to 1024 \<le> \<bar>v\<bar> then Inf (r < 0) else Fin v)"

section \<open>Text\<close>

definition fraction_value :: "string \<Rightarrow> rat" where
  "fraction_value ds = of_int (int_of_decimal ds) / 10 ^ length ds"

text \<open>The exact value of \<open>[-]digits[.digits][e[+-]digits]\<close>.\<close>

definition decimal_value :: "string \<Rightarrow> rat" where
  "decimal_value t =
     (let negative = startswith t ''-'';
          t1 = (if negative then drop 1 t else t);
          whole = takeWhile is_digit t1;
          t2 = drop (length whole) t1;
          frac = (if startswith t2 ''.'' then takeWhile is_digit (drop 1 t2) else []);
          t3 = (if startswith t2 ''.'' then drop (Suc (length frac)) t2 else t2);
          expo = (case t3 of [] \<Rightarrow> 0
             | _ # r \<Rightarrow> if startswith r ''-'' then - int_of_decimal (drop 1 r)
                       else if startswith r ''+'' then int_of_decimal (drop 1 r) else int_of_decimal r);
          v = (of_int (int_of_decimal whole) + fraction_value frac) * (if 0 \<le> expo then 10 ^ nat expo else 1 / 10 ^ nat (- expo))
      in if negative then - v else v)"

definition float_of_text :: "string \<Rightarrow> pyfloat" where
  "float_of_text t =
     (if t = ''nan'' then NaN else if t = ''inf'' then Inf False else if t = ''-inf'' then Inf True
      else to_double (decimal_value t))"

fun float_mult :: "pyfloat \<Rightarrow> pyfloat \<Rightarrow> pyfloat" where
  "float_mult (Fin x) (Fin y) = to_double (x * y)"
| "float_mult (Fin x) (Inf s) = (if x = 0 then NaN else Inf (s \<noteq> (x < 0)))"
| "float_mult (Inf s) (Fin y) = (if y = 0 then NaN else Inf (s \<noteq> (y < 0)))"
| "float_mult (Inf s) (Inf t) = Inf (s \<noteq> t)"
| "float_mult _ _ = NaN"

fun float_greater :: "pyfloat \<Rightarrow> pyfloat \<Rightarrow> bool" where
  "float_greater (Fin x) (Fin y) = (y < x)"
| "float_greater (Inf s) (Fin y) = (\<not> s)"
| "float_greater (Fin x) (Inf s) = s"
| "float_greater (Inf s) (Inf t) = (\<not> s \<and> t)"
| "float_greater _ _ = False"

lemma two_to_pos [simp]: "0 < two_to e"
  by (simp add: two_to_def)

section \<open>Rounding and integers\<close>

lemma bit_length_bounds: "0 < n \<Longrightarrow> 2 ^ (bit_length n - 1) \<le> n \<and> n < 2 ^ bit_length n"
proof (induction n rule: bit_length.induct)
  case (1 n)
  show ?case
  proof (cases "n = 1")
    case True
    then show ?thesis by (simp add: bit_length.simps)
  next
    case False
    then have h: "0 < n div 2" "n \<noteq> 0" using "1.prems" by auto
    obtain k where k: "bit_length (n div 2) = Suc k" using h(1) by (cases "bit_length (n div 2)") (auto simp: bit_length.simps split: if_splits)
    from "1.IH" [OF h(2,1)] k have "2 ^ k \<le> n div 2" "n div 2 < 2 ^ Suc k" by simp_all
    then have "2 ^ Suc k \<le> n" "n < 2 ^ Suc (Suc k)" by simp_all
    then show ?thesis using h(2) k by (simp add: bit_length.simps [of n])
  qed
qed

lemma two_to_diff: "two_to (int a - int b) = 2 ^ a / 2 ^ b"
  by (cases "b \<le> a") (auto simp: two_to_def power_diff nat_diff_distrib' of_nat_diff simp flip: of_nat_diff)

lemma two_to_Suc: "two_to (e + 1) = 2 * two_to e"
proof (cases "0 \<le> e")
  case True then show ?thesis by (simp add: two_to_def nat_add_distrib)
next
  case False
  then have "nat (- e) = Suc (nat (- (e + 1)))" by simp
  then show ?thesis using False by (cases "e = -1") (simp_all add: two_to_def)
qed

lemma two_to_exponent:
  assumes "0 < r" shows "two_to (exponent_of r) \<le> r"
proof -
  obtain p q where pq: "quotient_of r = (p, q)" by fastforce
  then have r: "r = of_int p / of_int q" "0 < q" using quotient_of_div quotient_of_denom_pos by blast+
  then have p: "0 < p" using assms by (simp add: zero_less_divide_iff)
  let ?a = "bit_length (nat p)" and ?b = "bit_length (nat q)"
  have "2 ^ (?a - 1) \<le> nat p" "nat q < 2 ^ ?b" using bit_length_bounds [of "nat p"] bit_length_bounds [of "nat q"] p r(2) by auto
  then have "(2::rat) ^ (?a - 1) \<le> of_int p" "of_int q < (2::rat) ^ ?b"
    using p r(2) by (metis (mono_tags, lifting) of_int_le_iff of_int_numeral of_int_power int_ops(3) of_nat_le_iff of_nat_numeral of_nat_power int_nat_eq less_le, 
      metis (mono_tags, lifting) of_int_less_iff of_int_numeral of_int_power of_nat_less_iff of_nat_numeral of_nat_power int_nat_eq less_le)
  have a: "0 < ?a" using p by (simp add: bit_length.simps)
  show ?thesis
  proof (cases "two_to (int ?a - int ?b) \<le> r")
    case True
    then show ?thesis using pq by (simp add: exponent_of_def)
  next
    case False
    have "two_to (int ?a - int ?b) = two_to (int (?a - 1) - int ?b) * 2"
      using two_to_Suc [of "int (?a - 1) - int ?b"] a by (simp add: of_nat_diff)
    then have "two_to (int ?a - int ?b - 1) = two_to (int (?a - 1) - int ?b)"
      using a by (simp add: of_nat_diff algebra_simps)
    also have "\<dots> = 2 ^ (?a - 1) / 2 ^ ?b" by (rule two_to_diff)
    also have "\<dots> \<le> of_int p / of_int q"
      using \<open>2 ^ (?a - 1) \<le> rat_of_int p\<close> \<open>rat_of_int q < 2 ^ ?b\<close> r(2) p by (intro frac_le) auto
    finally show ?thesis using False pq r(1) by (simp add: exponent_of_def Let_def)
  qed
qed

lemma two_to_mono: "a \<le> b \<Longrightarrow> two_to a \<le> two_to b"
proof -
  assume "a \<le> b"
  then obtain n where n: "b = a + int n" using zle_iff_zadd by blast
  have "two_to a \<le> two_to (a + int m)" for m
  proof (induction m)
    case (Suc m)
    have "two_to (a + int (Suc m)) = 2 * two_to (a + int m)" using two_to_Suc [of "a + int m"] by (simp add: algebra_simps)
    then show ?case using Suc two_to_pos [of "a + int m"] by linarith
  qed simp
  then show ?thesis using n by simp
qed

lemma exponent_below: "0 < r \<Longrightarrow> r < two_to k \<Longrightarrow> exponent_of r < k"
  using two_to_exponent [of r] two_to_mono [of k "exponent_of r"] by (cases "exponent_of r < k") auto

lemma round_half_even_bounds:
  "of_int n \<le> x \<Longrightarrow> n \<le> round_half_even x" "x \<le> of_int n \<Longrightarrow> round_half_even x \<le> n"
proof -
  have f: "of_int \<lfloor>x\<rfloor> \<le> x" "x < of_int \<lfloor>x\<rfloor> + 1" by linarith+
  show "of_int n \<le> x \<Longrightarrow> n \<le> round_half_even x"
    using le_floor_iff [of n x] by (auto simp: round_half_even_def Let_def)
  assume le: "x \<le> of_int n"
  then have "\<lfloor>x\<rfloor> \<le> n" using f by (metis floor_of_int floor_mono)
  show "round_half_even x \<le> n"
  proof (cases "\<lfloor>x\<rfloor> = n")
    case True
    then have "x - of_int \<lfloor>x\<rfloor> = 0" using le f by simp
    then show ?thesis using True by (simp add: round_half_even_def)
  next
    case False
    then show ?thesis using \<open>\<lfloor>x\<rfloor> \<le> n\<close> by (auto simp: round_half_even_def Let_def)
  qed
qed

text \<open>Rounding to a double never crosses an integer (below \<open>2 ^ 52\<close>).\<close>

lemma to_double_between:
  assumes "of_int n \<le> r" "r \<le> of_int m" "0 \<le> n" "m \<le> 2 ^ 52"
  shows "\<exists>v. to_double r = Fin v \<and> of_int n \<le> v \<and> v \<le> of_int m"
proof (cases "r = 0")
  case True
  then show ?thesis using assms by (simp add: to_double_def)
next
  case False
  have r: "0 < r" using assms(1,3) False by (metis linorder_neqE_linordered_idom not_less of_int_0_le_iff order_trans)
  have "(of_int m :: rat) \<le> of_int (2 ^ 52)" using assms(4) by (simp only: of_int_le_iff)
  then have "r < two_to 53" using assms(2) by (simp add: two_to_def)
  then have "exponent_of r < 53" using r by (rule exponent_below [rotated])
  define e where "e = max (exponent_of r - 52) (- 1074)"
  have e: "e \<le> 0" using \<open>exponent_of r < 53\<close> by (simp add: e_def)
  define k where "k = nat (- e)"
  have te: "two_to e = 1 / 2 ^ k" using e by (auto simp: two_to_def k_def)
  let ?x = "r / two_to e"
  have "of_int (n * 2 ^ k) \<le> ?x" "?x \<le> of_int (m * 2 ^ k)" using assms(1,2) by (simp_all add: te)
  then have "n * 2 ^ k \<le> round_half_even ?x" "round_half_even ?x \<le> m * 2 ^ k"
    using round_half_even_bounds by blast+
  then have "of_int (n * 2 ^ k) \<le> (of_int (round_half_even ?x) :: rat)" "(of_int (round_half_even ?x) :: rat) \<le> of_int (m * 2 ^ k)"
    by (simp_all only: of_int_le_iff)
  then have v: "of_int n \<le> of_int (round_half_even ?x) * two_to e" "of_int (round_half_even ?x) * two_to e \<le> of_int m"
    by (simp_all add: te field_simps)
  have "(of_int m :: rat) < two_to 1024"
  proof -
    have "(of_int m :: rat) \<le> of_int (2 ^ 52)" using assms(4) by (simp only: of_int_le_iff)
    then show ?thesis by (simp add: two_to_def)
  qed
  then have "to_double r = Fin (of_int (round_half_even ?x) * two_to e)"
    using v r assms(3) False by (auto simp: to_double_def Let_def simp flip: e_def) 
  then show ?thesis using v by blast
qed

lemma float_text_04: "float_of_text ''0.4'' = Fin (3602879701896397 / 9007199254740992)"
  by code_simp

lemma float_text_08: "float_of_text ''0.8'' = Fin (3602879701896397 / 4503599627370496)"
  by code_simp

lemma float_text_05: "float_of_text ''0.5'' = Fin (1 / 2)"
  by code_simp

lemmas float_texts = float_text_04 float_text_08 float_text_05

end
