(* ===== verification/Json.thy ===== *)
theory Json
  imports Domain OrderedDict PyFloat
begin

text \<open>
  Decoded JSON as the provider clients receive it. An object is an insertion-ordered dictionary; a
  float keeps its text; \<open>float_of_text\<close> is its value.
\<close>

datatype json =
    JNull
  | JBool bool
  | JInt int
  | JFloat string
  | JStr string
  | JArr "json list"
  | JObj "(string, json) odict"

type_synonym payload = "(string, json) odict"

text \<open>\<open>d.get(key)\<close>: \<open>None\<close> for an absent key.\<close>

definition jget :: "payload \<Rightarrow> string \<Rightarrow> json" where
  "jget d k = (case map_of d k of None \<Rightarrow> JNull | Some v \<Rightarrow> v)"

text \<open>The value when it is a string, a list or an object.\<close>

fun jstr :: "json \<Rightarrow> string option" where
  "jstr (JStr s) = Some s"
| "jstr _ = None"

fun jlist :: "json \<Rightarrow> json list option" where
  "jlist (JArr xs) = Some xs"
| "jlist _ = None"

fun jobj :: "json \<Rightarrow> payload option" where
  "jobj (JObj d) = Some d"
| "jobj _ = None"

text \<open>The value when it is an integer and not a boolean.\<close>

fun jint :: "json \<Rightarrow> int option" where
  "jint (JInt i) = Some i"
| "jint _ = None"

text \<open>Python's truth value.\<close>

fun truthy :: "json \<Rightarrow> bool" where
  "truthy JNull = False"
| "truthy (JBool b) = b"
| "truthy (JInt i) = (i \<noteq> 0)"
| "truthy (JFloat t) = (float_of_text t \<noteq> Fin 0)"
| "truthy (JStr s) = (s \<noteq> [])"
| "truthy (JArr xs) = (xs \<noteq> [])"
| "truthy (JObj d) = (d \<noteq> [])"

lemma jstr_Some [simp]: "jstr v = Some s \<longleftrightarrow> v = JStr s"
  by (cases v) auto

lemma jlist_Some [simp]: "jlist v = Some xs \<longleftrightarrow> v = JArr xs"
  by (cases v) auto

lemma jobj_Some [simp]: "jobj v = Some d \<longleftrightarrow> v = JObj d"
  by (cases v) auto

lemma jint_Some [simp]: "jint v = Some i \<longleftrightarrow> v = JInt i"
  by (cases v) auto

end
