(* ===== verification/Grouping.thy ===== *)
theory Grouping
  imports OrderedDict
begin

text \<open>
  Grouping a list by a key into an insertion-ordered dictionary, as the summary, the Blu-ray
  selection and the season inventory do, and the first element with the greatest or least key, as
  \<open>max\<close> and \<open>min\<close> with a \<open>key\<close> return it.
\<close>

text \<open>\<open>grouped[key(x)].append(x)\<close> on a \<open>defaultdict(list)\<close>.\<close>

definition group_by :: "('x \<Rightarrow> 'k) \<Rightarrow> 'x list \<Rightarrow> ('k, 'x list) odict" where
  "group_by key xs = fold (\<lambda>x d. AList.update (key x)
     ((case map_of d (key x) of None \<Rightarrow> [] | Some ys \<Rightarrow> ys) @ [x]) d) xs []"

lemma group_by_snoc: "group_by key (xs @ [x]) = AList.update (key x)
     ((case map_of (group_by key xs) (key x) of None \<Rightarrow> [] | Some ys \<Rightarrow> ys) @ [x]) (group_by key xs)"
  by (simp add: group_by_def)

text \<open>The groups are the fibres of the key, in the order of the list.\<close>

lemma group_by_lookup:
  "map_of (group_by key xs) k = (if k \<in> key ` set xs then Some (filter (\<lambda>x. key x = k) xs) else None)"
proof (induction xs rule: rev_induct)
  case Nil
  then show ?case by (simp add: group_by_def)
next
  case (snoc x xs)
  have "filter (\<lambda>y. key y = key x) xs = []" if "key x \<notin> key ` set xs"
    using that by (auto simp: filter_empty_conv image_iff)
  with snoc show ?case by (auto simp: group_by_snoc update_conv')
qed

lemma group_by_ok: "od_ok (group_by key xs)"
  by (induction xs rule: rev_induct) (simp_all add: group_by_snoc, simp add: group_by_def)

lemma group_by_filter_total:
  fixes key :: "'x \<Rightarrow> 'k"
  shows "sum_list (map (\<lambda>p. length (filter Q (snd p))) (group_by key xs)) = length (filter Q xs)"
proof (induction xs rule: rev_induct)
  case (snoc x xs)
  let ?n = "\<lambda>d. sum_list (map (\<lambda>p. length (filter Q (snd p))) (d :: ('k, 'x list) odict))"
  have upd: "?n (AList.update k v d) + length (filter Q (case map_of d k of None \<Rightarrow> [] | Some w \<Rightarrow> w))
      = ?n d + length (filter Q v)" for k v d
    by (induction d) (auto split: option.splits)
  from upd [of "key x" "(case map_of (group_by key xs) (key x) of None \<Rightarrow> [] | Some ys \<Rightarrow> ys) @ [x]" "group_by key xs"]
  have "?n (group_by key (xs @ [x])) = ?n (group_by key xs) + length (filter Q [x])"
    by (simp add: group_by_snoc)
  with snoc show ?case by (simp only: length_append filter_append)
qed (simp add: group_by_def)

lemma group_by_total: "sum_list (map (length \<circ> snd) (group_by key xs)) = length xs"
  using group_by_filter_total [of "\<lambda>_. True" key xs] by (simp add: comp_def)

lemma group_by_member:
  assumes "(k, ys) \<in> set (group_by key xs)"
  shows "ys = filter (\<lambda>x. key x = k) xs" "ys \<noteq> []"
proof -
  have "map_of (group_by key xs) k = Some ys"
    using assms group_by_ok [of key xs] by (simp add: od_ok_def)
  then have *: "k \<in> key ` set xs \<and> filter (\<lambda>x. key x = k) xs = ys"
    by (metis group_by_lookup option.distinct(1) option.inject)
  then show "ys = filter (\<lambda>x. key x = k) xs" by simp
  from * show "ys \<noteq> []" by (auto simp: filter_empty_conv)
qed

lemma group_by_keys: "fst ` set (group_by key xs) = key ` set xs"
proof -
  have "k \<in> fst ` set (group_by key xs) \<longleftrightarrow> k \<in> key ` set xs" for k
    using group_by_lookup [of key xs k] map_of_eq_None_iff [of "group_by key xs" k]
    by (cases "k \<in> key ` set xs") simp_all
  then show ?thesis by blast
qed

lemma length_group_by: "length (group_by key xs) = card (key ` set xs)"
  using group_by_ok [of key xs] group_by_keys [of key xs]
  by (metis distinct_card length_map list.set_map od_ok_def)

section \<open>The first greatest and the first least element\<close>

text \<open>\<open>max(xs, key=f)\<close> of a nonempty list.\<close>

fun max_by :: "('x \<Rightarrow> 'k::linorder) \<Rightarrow> 'x \<Rightarrow> 'x list \<Rightarrow> 'x" where
  "max_by f m [] = m"
| "max_by f m (x # xs) = max_by f (if f m < f x then x else m) xs"

text \<open>\<open>min(xs, key=f)\<close> of a nonempty list.\<close>

fun min_by :: "('x \<Rightarrow> 'k::linorder) \<Rightarrow> 'x \<Rightarrow> 'x list \<Rightarrow> 'x" where
  "min_by f m [] = m"
| "min_by f m (x # xs) = min_by f (if f x < f m then x else m) xs"

lemma max_by_in: "max_by f m xs \<in> insert m (set xs)"
  by (induction f m xs rule: max_by.induct) auto

lemma max_by_above: "f m \<le> f (max_by f m xs)"
proof (induction f m xs rule: max_by.induct)
  case (2 f m y ys)
  then show ?case by (cases "f m < f y") simp_all
qed simp

lemma max_by_ge: "x \<in> insert m (set xs) \<Longrightarrow> f x \<le> f (max_by f m xs)"
proof (induction f m xs rule: max_by.induct)
  case (2 f m y ys)
  show ?case
  proof (cases "x = m \<or> x = y")
    case True
    then have "f x \<le> f (if f m < f y then y else m)" by auto
    also have "\<dots> \<le> f (max_by f m (y # ys))" by (simp only: max_by.simps max_by_above)
    finally show ?thesis .
  next
    case False
    with "2.prems" have "x \<in> set ys" by simp
    then have "x \<in> insert (if f m < f y then y else m) (set ys)" by simp
    from "2.IH" [OF this] show ?thesis by (simp only: max_by.simps)
  qed
qed simp

lemma min_by_in: "min_by f m xs \<in> insert m (set xs)"
  by (induction f m xs rule: min_by.induct) auto

lemma min_by_below: "f (min_by f m xs) \<le> f m"
proof (induction f m xs rule: min_by.induct)
  case (2 f m y ys)
  then show ?case by (cases "f y < f m") simp_all
qed simp

lemma min_by_le: "x \<in> insert m (set xs) \<Longrightarrow> f (min_by f m xs) \<le> f x"
proof (induction f m xs rule: min_by.induct)
  case (2 f m y ys)
  show ?case
  proof (cases "x = m \<or> x = y")
    case True
    have "f (min_by f m (y # ys)) \<le> f (if f y < f m then y else m)" by (simp only: min_by.simps min_by_below)
    also have "\<dots> \<le> f x" using True by auto
    finally show ?thesis .
  next
    case False
    with "2.prems" have "x \<in> set ys" by simp
    then have "x \<in> insert (if f y < f m then y else m) (set ys)" by simp
    from "2.IH" [OF this] show ?thesis by (simp only: min_by.simps)
  qed
qed simp

end
