(* ===== verification/PathLib.thy ===== *)
theory PathLib
  imports PyPrelude
begin

text \<open>
  \<open>pathlib.PurePosixPath\<close> as the program uses it: an absolute or relative list of segments. A
  parsed path has no empty and no \<open>.\<close> segments; \<open>..\<close> stays until \<open>resolve\<close> (module
  \<open>FileStore\<close>) removes it. Of two leading slashes one is kept.
\<close>

type_synonym seg = string

datatype path = Abs "seg list" | Rel "seg list"

fun path_segs :: "path \<Rightarrow> seg list" where
  "path_segs (Abs ps) = ps"
| "path_segs (Rel ps) = ps"

definition real_segs :: "string \<Rightarrow> seg list" where
  "real_segs s = filter (\<lambda>w. w \<noteq> [] \<and> w \<noteq> ''.'') (split_on (CHR ''/'') s)"

definition parse_path :: "string \<Rightarrow> path" where
  "parse_path s = (if startswith s ''/'' then Abs (real_segs s) else Rel (real_segs s))"

text \<open>\<open>p / q\<close> on paths: an absolute \<open>q\<close> replaces \<open>p\<close>.\<close>

fun join_path :: "path \<Rightarrow> path \<Rightarrow> path" where
  "join_path p (Abs qs) = Abs qs"
| "join_path (Abs ps) (Rel qs) = Abs (ps @ qs)"
| "join_path (Rel ps) (Rel qs) = Rel (ps @ qs)"

text \<open>\<open>Path(a, b, ...)\<close> on strings.\<close>

fun path_of :: "string list \<Rightarrow> path" where
  "path_of [] = Rel []"
| "path_of (s # ss) = foldl (\<lambda>p w. join_path p (parse_path w)) (parse_path s) ss"

fun as_posix :: "path \<Rightarrow> string" where
  "as_posix (Abs ps) = ''/'' @ join ''/'' ps"
| "as_posix (Rel ps) = (if ps = [] then ''.'' else join ''/'' ps)"

text \<open>\<open>path.parts\<close>: an absolute path has its root as the first part.\<close>

fun path_parts :: "path \<Rightarrow> string list" where
  "path_parts (Abs ps) = ''/'' # ps"
| "path_parts (Rel ps) = ps"

definition path_name :: "path \<Rightarrow> string" where
  "path_name p = (if path_segs p = [] then [] else last (path_segs p))"

text \<open>The stem and suffix of a name (Python 3.12): the last dot counts unless it is first or last.\<close>

definition last_dot :: "string \<Rightarrow> nat option" where
  "last_dot s = (if CHR ''.'' \<in> set s
     then Some (length s - 1 - length (takeWhile (\<lambda>c. c \<noteq> CHR ''.'') (rev s))) else None)"

definition name_stem :: "string \<Rightarrow> string" where
  "name_stem s = (case last_dot s of None \<Rightarrow> s
     | Some i \<Rightarrow> if 0 < i \<and> i < length s - 1 then take i s else s)"

definition name_suffix :: "string \<Rightarrow> string" where
  "name_suffix s = (case last_dot s of None \<Rightarrow> []
     | Some i \<Rightarrow> if 0 < i \<and> i < length s - 1 then drop i s else [])"

definition path_stem :: "path \<Rightarrow> string" where "path_stem p = name_stem (path_name p)"
definition path_suffix :: "path \<Rightarrow> string" where "path_suffix p = name_suffix (path_name p)"

text \<open>\<open>path.with_name(n)\<close>, for a path with a name.\<close>

fun with_name :: "path \<Rightarrow> string \<Rightarrow> path" where
  "with_name (Abs ps) n = Abs (butlast ps @ [n])"
| "with_name (Rel ps) n = Rel (butlast ps @ [n])"

text \<open>Removing \<open>.\<close> and \<open>..\<close>: above the root \<open>..\<close> stays at the root.\<close>

fun norm_segs :: "seg list \<Rightarrow> seg list \<Rightarrow> seg list" where
  "norm_segs acc [] = acc"
| "norm_segs acc (w # ws) = norm_segs (if w = ''..'' then butlast acc else acc @ [w]) ws"

definition is_prefix :: "'a list \<Rightarrow> 'a list \<Rightarrow> bool" where
  "is_prefix ps qs \<longleftrightarrow> take (length ps) qs = ps"

section \<open>Lemmas\<close>

lemma stem_suffix: "name_stem s @ name_suffix s = s"
  by (simp add: name_stem_def name_suffix_def split: option.splits)

lemma norm_segs_plain: "''..'' \<notin> set ws \<Longrightarrow> norm_segs acc ws = acc @ ws"
  by (induction ws arbitrary: acc) auto

lemma norm_segs_append: "norm_segs acc (xs @ ys) = norm_segs (norm_segs acc xs) ys"
  by (induction xs arbitrary: acc) auto

lemma norm_segs_no_dots: "''..'' \<notin> set acc \<Longrightarrow> ''..'' \<notin> set (norm_segs acc ws)"
  by (induction ws arbitrary: acc) (auto dest: in_set_butlastD)

lemma norm_segs_idem: "norm_segs [] (norm_segs [] ws) = norm_segs [] ws"
  by (simp add: norm_segs_plain norm_segs_no_dots)

lemma is_prefix_iff: "is_prefix ps qs \<longleftrightarrow> (\<exists>rs. qs = ps @ rs)"
  by (metis append_eq_conv_conj append_take_drop_id is_prefix_def)

lemma is_prefix_append [simp]: "is_prefix ps (ps @ qs)"
  by (simp add: is_prefix_def)

lemma is_prefix_refl [simp]: "is_prefix ps ps"
  by (simp add: is_prefix_def)

lemma is_prefix_trans: "is_prefix ps qs \<Longrightarrow> is_prefix qs rs \<Longrightarrow> is_prefix ps rs"
  by (auto simp: is_prefix_iff)

lemma is_prefix_butlast: "is_prefix ps qs \<Longrightarrow> ps \<noteq> qs \<Longrightarrow> is_prefix ps (butlast qs)"
  by (auto simp: is_prefix_iff butlast_append)

lemma is_prefix_length: "is_prefix ps qs \<Longrightarrow> length ps \<le> length qs"
  by (auto simp: is_prefix_iff)

lemma is_prefix_butlast_iff: "p \<noteq> [] \<Longrightarrow> is_prefix q (butlast p) \<longleftrightarrow> is_prefix q p \<and> q \<noteq> p"
proof (intro iffI conjI)
  assume p: "p \<noteq> []" and q: "is_prefix q (butlast p)"
  have "is_prefix (butlast p) p" using p by (metis append_butlast_last_id is_prefix_append)
  with q show "is_prefix q p" by (rule is_prefix_trans)
  have "length (butlast p) < length p" using p by (cases p) simp_all
  then have "length q < length p" using is_prefix_length [OF q] by linarith
  then show "q \<noteq> p" by auto
qed (simp add: is_prefix_butlast)

lemma real_segs_plain: "CHR ''/'' \<notin> set w \<Longrightarrow> w \<noteq> [] \<Longrightarrow> w \<noteq> ''.'' \<Longrightarrow> real_segs w = [w]"
  by (simp add: real_segs_def split_on_id)

lemma parse_path_plain:
  "CHR ''/'' \<notin> set w \<Longrightarrow> w \<noteq> [] \<Longrightarrow> w \<noteq> ''.'' \<Longrightarrow> parse_path w = Rel [w]"
  by (cases w) (auto simp: parse_path_def real_segs_plain startswith_def)

text \<open>A path made of plain names is parsed back from its text.\<close>

definition plain_seg :: "string \<Rightarrow> bool" where
  "plain_seg w \<longleftrightarrow> w \<noteq> [] \<and> w \<noteq> ''.'' \<and> w \<noteq> ''..'' \<and> CHR ''/'' \<notin> set w"

lemma path_of_plain:
  assumes "\<forall>w\<in>set ws. plain_seg w"
  shows "path_of ws = Rel ws"
proof -
  have "foldl (\<lambda>p w. join_path p (parse_path w)) (Rel ps) vs = Rel (ps @ vs)"
    if "\<forall>w\<in>set vs. plain_seg w" for ps vs
    using that by (induction vs arbitrary: ps) (simp_all add: parse_path_plain plain_seg_def)
  with assms show ?thesis
    by (cases ws) (auto simp: parse_path_plain plain_seg_def)
qed

lemma parse_as_posix:
  assumes "\<forall>w\<in>set ws. plain_seg w" "ws \<noteq> []"
  shows "parse_path (as_posix (Rel ws)) = Rel ws"
proof -
  have split: "split_on (CHR ''/'') (join ''/'' ws) = ws"
    using assms by (intro split_on_join) (auto simp: plain_seg_def)
  then have segs: "real_segs (join ''/'' ws) = ws"
    using assms by (auto simp: real_segs_def plain_seg_def filter_id_conv)
  obtain w ws' where ws: "ws = w # ws'" using assms(2) by (cases ws) auto
  then have "w \<noteq> []" "CHR ''/'' \<notin> set w" using assms by (auto simp: plain_seg_def)
  then have "\<not> startswith (join ''/'' ws) ''/''"
    by (cases w; cases ws') (auto simp: ws startswith_def)
  with segs assms(2) show ?thesis by (simp add: parse_path_def)
qed

text \<open>The stem of a name with a plain extension.\<close>

lemma name_stem_ext:
  assumes "w \<noteq> []" "CHR ''.'' \<notin> set x" "x \<noteq> []"
  shows "name_stem (w @ CHR ''.'' # x) = w" "name_suffix (w @ CHR ''.'' # x) = CHR ''.'' # x"
proof -
  have "takeWhile (\<lambda>c. c \<noteq> CHR ''.'') (rev (w @ CHR ''.'' # x)) = rev x"
    using assms(2) by (simp add: takeWhile_append2 takeWhile_append)
  then have "last_dot (w @ CHR ''.'' # x) = Some (length w)"
    by (simp add: last_dot_def)
  with assms show "name_stem (w @ CHR ''.'' # x) = w" "name_suffix (w @ CHR ''.'' # x) = CHR ''.'' # x"
    by (simp_all add: name_stem_def name_suffix_def)
qed

end
