(* ===== verification/TorBoxFiles.thy ===== *)
theory TorBoxFiles
  imports Json Grouping PathLib
begin

text \<open>
  The playable files of a TorBox download list (api/app/providers/torbox/files.py): decoding,
  filtering of samples and pack extras, the choice of the feature of a Blu-ray disc and the direct
  download URL. TorBox' answer is a list of decoded JSON objects.
\<close>

section \<open>Data\<close>

datatype download_kind = Torrents | Usenet | WebDl

fun download_kind_str :: "download_kind \<Rightarrow> string" where
  "download_kind_str Torrents = ''torrents''"
| "download_kind_str Usenet = ''usenet''"
| "download_kind_str WebDl = ''webdl''"

definition DOWNLOAD_KINDS :: "download_kind list" where
  "DOWNLOAD_KINDS = [Torrents, Usenet, WebDl]"

fun ID_PARAM_BY_KIND :: "download_kind \<Rightarrow> string" where
  "ID_PARAM_BY_KIND Torrents = ''torrent_id''"
| "ID_PARAM_BY_KIND Usenet = ''usenet_id''"
| "ID_PARAM_BY_KIND WebDl = ''web_id''"

definition VIDEO_EXTENSIONS :: "string list" where
  "VIDEO_EXTENSIONS = [''.avi'', ''.m2ts'', ''.m4v'', ''.mkv'', ''.mov'', ''.mp4'', ''.mpeg'', ''.mpg'',
     ''.webm'', ''.wmv'']"

definition SMALL_SAMPLE_MAX_BYTES :: int where "SMALL_SAMPLE_MAX_BYTES = 250 * 1024 * 1024"
definition MIN_BLURAY_STREAM_FILES :: nat where "MIN_BLURAY_STREAM_FILES = 2"

definition separator_char :: "char \<Rightarrow> bool" where
  "separator_char c \<longleftrightarrow> is_space c \<or> c \<in> set ''._-''"

definition PACK_EXTRA :: regex where
  "PACK_EXTRA = seqs [Bol, lit_ci ''s'', rep 1 2 digit, Star (Chr separator_char),
     alts (map lit_ci [''op'', ''ed'', ''sp'']), Star digit, Alt not_digit Eol]"

definition NAMED_EXTRA_TOKENS :: "string list" where
  "NAMED_EXTRA_TOKENS = [''ncop'', ''nced'', ''opening'', ''ending'']"

record torbox_file =
  tf_kind :: download_kind
  tf_item_id :: string
  tf_file_id :: string
  tf_folder_name :: string
  tf_file_name :: string
  tf_path :: string
  tf_mime_type :: string
  tf_size :: "int option"

record extracted_files =
  ef_files :: "torbox_file list"
  ef_skipped_count :: nat

section \<open>Decoding one file\<close>

fun first_string :: "payload \<Rightarrow> string list \<Rightarrow> string" where
  "first_string d [] = []"
| "first_string d (k # ks) =
     (case jstr (jget d k) of
        Some v \<Rightarrow> if strip v \<noteq> [] then strip v else first_string d ks
      | None \<Rightarrow> first_string d ks)"

text \<open>A boolean is an integer to \<open>isinstance\<close>.\<close>

fun string_value :: "json \<Rightarrow> string" where
  "string_value (JStr s) = strip s"
| "string_value (JInt i) = str_int i"
| "string_value (JBool b) = (if b then ''True'' else ''False'')"
| "string_value _ = []"

fun int_value :: "json \<Rightarrow> int option" where
  "int_value (JInt i) = Some i"
| "int_value (JStr s) = (if isdecimal s then Some (int_of_decimal s) else None)"
| "int_value _ = None"

text \<open>\<open>re.split\<close> at either slash.\<close>

definition split_slashes :: "string \<Rightarrow> string list" where
  "split_slashes v = split_on (CHR ''/'') (replace_char (CHR 0x5C) ''/'' v)"

definition basename_of :: "string \<Rightarrow> string" where
  "basename_of v = strip (last (split_slashes v))"

text \<open>\<open>value.rsplit(c, maxsplit=1)\<close>: its last part, and its first.\<close>

definition after_last :: "char \<Rightarrow> string \<Rightarrow> string" where
  "after_last c v = last (split_on c v)"

definition before_last :: "char \<Rightarrow> string \<Rightarrow> string" where
  "before_last c v = (if c \<in> set v then join [c] (butlast (split_on c v)) else v)"

definition file_stem :: "string \<Rightarrow> string" where
  "file_stem v = before_last (CHR ''.'') (after_last (CHR 0x5C) (after_last (CHR ''/'') v))"

definition file_tokens :: "string \<Rightarrow> string list" where
  "file_tokens v = runs (\<lambda>c. \<not> separator_char c) (casefold (file_stem v))"

definition is_video :: "string \<Rightarrow> string \<Rightarrow> bool" where
  "is_video file_name mime_type =
     (if mime_type \<noteq> [] then startswith mime_type ''video/''
      else list_ex (endswith (casefold file_name)) VIDEO_EXTENSIONS)"

definition is_sample_file :: "string \<Rightarrow> string \<Rightarrow> int option \<Rightarrow> bool" where
  "is_sample_file file_name path sz =
     (let name_tokens = file_tokens file_name; path_tokens = file_tokens path
      in if name_tokens = [''sample''] \<or> name_tokens = [''sample2''] then True
         else if ''sample'' \<notin> set name_tokens \<and> ''samples'' \<notin> set path_tokens then False
         else (case sz of None \<Rightarrow> True | Some n \<Rightarrow> n \<le> SMALL_SAMPLE_MAX_BYTES))"

definition is_pack_extra :: "string \<Rightarrow> bool" where
  "is_pack_extra file_name =
     (if match_prefix PACK_EXTRA (file_stem file_name) \<noteq> None then True
      else list_ex (\<lambda>t. t \<in> set NAMED_EXTRA_TOKENS) (file_tokens file_name))"

definition build_torbox_file :: "payload \<Rightarrow> payload \<Rightarrow> download_kind \<Rightarrow> torbox_file option" where
  "build_torbox_file item raw_file kind =
     (let item_id = string_value (jget item ''id'');
          file_id = string_value (jget raw_file ''id'');
          file_name = basename_of (first_string raw_file [''short_name'', ''name'', ''filename'']);
          path = (if string_value (jget raw_file ''name'') \<noteq> [] then string_value (jget raw_file ''name'')
                  else file_name);
          mime_type = string_value (jget raw_file ''mimetype'');
          sz = int_value (jget raw_file ''size'')
      in if item_id = [] \<or> file_id = [] \<or> file_name = [] then None
         else if \<not> is_video file_name mime_type then None
         else if is_sample_file file_name path sz \<or> is_pack_extra file_name then None
         else Some \<lparr>tf_kind = kind, tf_item_id = item_id, tf_file_id = file_id,
             tf_folder_name = string_value (jget item ''name''), tf_file_name = file_name,
             tf_path = path, tf_mime_type = mime_type, tf_size = sz\<rparr>)"

section \<open>Blu-ray discs\<close>

fun bluray_prefix :: "string list \<Rightarrow> string list option" where
  "bluray_prefix (a # b # c # rest) =
     (if casefold a = ''bdmv'' \<and> casefold b = ''stream'' then Some [casefold a]
      else map_option (\<lambda>ps. casefold a # ps) (bluray_prefix (b # c # rest)))"
| "bluray_prefix _ = None"

definition bluray_stream_group :: "string \<Rightarrow> string option" where
  "bluray_stream_group path =
     (let parts = filter (\<lambda>p. p \<noteq> []) (split_slashes path)
      in if parts = [] \<or> \<not> endswith (casefold (last parts)) ''.m2ts'' then None
         else map_option (join ''/'') (bluray_prefix parts))"

definition is_bluray_stream_path :: "string \<Rightarrow> bool" where
  "is_bluray_stream_path path \<longleftrightarrow> bluray_stream_group path \<noteq> None"

definition library_name :: "torbox_file \<Rightarrow> string" where
  "library_name f =
     (if is_bluray_stream_path (tf_path f) \<and> tf_folder_name f \<noteq> [] then tf_folder_name f
      else tf_file_name f)"

text \<open>The files carry their position, which is their identity: equal files of a list are different
  objects.\<close>

type_synonym placed = "nat \<times> torbox_file"

definition placed_group :: "placed \<Rightarrow> string option" where
  "placed_group p = bluray_stream_group (tf_path (snd p))"

definition bluray_groups :: "torbox_file list \<Rightarrow> (string, placed list) odict" where
  "bluray_groups files =
     group_by (\<lambda>p. the (placed_group p)) (filter (\<lambda>p. placed_group p \<noteq> None) (enumerate 0 files))"

definition bluray_feature :: "placed list \<Rightarrow> placed option" where
  "bluray_feature candidates =
     (case filter (\<lambda>p. tf_size (snd p) \<noteq> None) candidates of
        [] \<Rightarrow> None
      | c # cs \<Rightarrow> if length candidates < MIN_BLURAY_STREAM_FILES then None
                 else Some (max_by (\<lambda>p. case tf_size (snd p) of None \<Rightarrow> 0 | Some n \<Rightarrow> n) c cs))"

definition select_bluray_feature_files :: "torbox_file list \<Rightarrow> torbox_file list \<times> nat" where
  "select_bluray_feature_files files =
     (let groups = bluray_groups files;
          selected_by_group = filter (\<lambda>(g, s). s \<noteq> None) (map (\<lambda>(g, cs). (g, bluray_feature cs)) groups);
          skipped_count = sum_list (map (\<lambda>(g, cs). if bluray_feature cs = None then 0 else length cs - 1) groups);
          keep = (\<lambda>p. case placed_group p of None \<Rightarrow> True
                    | Some g \<Rightarrow> (case map_of selected_by_group g of None \<Rightarrow> True | Some s \<Rightarrow> s = Some p))
      in (map snd (filter keep (enumerate 0 files)), skipped_count))"

section \<open>The download list\<close>

fun extract_item_files :: "payload \<Rightarrow> download_kind \<Rightarrow> json list \<Rightarrow> torbox_file list \<times> nat" where
  "extract_item_files item kind [] = ([], 0)"
| "extract_item_files item kind (raw # raws) =
     (let (files, skipped) = extract_item_files item kind raws
      in case jobj raw of None \<Rightarrow> (files, Suc skipped)
         | Some d \<Rightarrow> (case build_torbox_file item d kind of
               None \<Rightarrow> (files, Suc skipped) | Some f \<Rightarrow> (f # files, skipped)))"

definition extract_item :: "payload \<Rightarrow> download_kind \<Rightarrow> torbox_file list \<times> nat" where
  "extract_item item kind =
     (if jget item ''cached'' = JBool False then ([], 1)
      else case jlist (jget item ''files'') of None \<Rightarrow> ([], 1)
      | Some item_files \<Rightarrow>
          let (extracted, skipped) = extract_item_files item kind item_files;
              (selected, bluray_skipped) = select_bluray_feature_files extracted
          in (selected, skipped + bluray_skipped))"

definition extract_torbox_files :: "payload list \<Rightarrow> download_kind \<Rightarrow> extracted_files" where
  "extract_torbox_files downloads kind =
     (let (files, skipped_count) = foldl (\<lambda>(files, skipped) item.
            let (fs, n) = extract_item item kind in (files @ fs, skipped + n)) ([], 0) downloads
      in \<lparr>ef_files = files, ef_skipped_count = skipped_count\<rparr>)"

fun first_info_hash :: "json list \<Rightarrow> string option" where
  "first_info_hash [] = None"
| "first_info_hash (c # cs) =
     (case normalize_info_hash (jstr c) of Some h \<Rightarrow> Some h | None \<Rightarrow> first_info_hash cs)"

definition torrent_info_hash :: "payload \<Rightarrow> string option" where
  "torrent_info_hash item =
     (case normalize_info_hash (jstr (jget item ''hash'')) of Some h \<Rightarrow> Some h
      | None \<Rightarrow> (case jlist (jget item ''alternative_hashes'') of None \<Rightarrow> None
          | Some cs \<Rightarrow> first_info_hash cs))"

section \<open>The direct download URL\<close>

definition hex_digit :: "nat \<Rightarrow> char" where
  "hex_digit n = ''0123456789ABCDEF'' ! n"

definition percent :: "nat \<Rightarrow> string" where
  "percent b = [CHR ''%'', hex_digit (b div 16), hex_digit (b mod 16)]"

text \<open>\<open>urllib.parse.quote_plus\<close>: the UTF-8 bytes of a character, percent-encoded.\<close>

definition quote_char :: "char \<Rightarrow> string" where
  "quote_char c =
     (if is_alnum c \<and> code c < 128 \<or> c \<in> set ''_.-~'' then [c]
      else if c = CHR '' '' then ''+''
      else if code c < 128 then percent (code c)
      else percent (192 + code c div 64) @ percent (128 + code c mod 64))"

definition quote_plus :: "string \<Rightarrow> string" where
  "quote_plus s = concat (map quote_char s)"

definition urlencode :: "(string \<times> string) list \<Rightarrow> string" where
  "urlencode params = join ''&'' (map (\<lambda>(k, v). quote_plus k @ ''='' @ quote_plus v) params)"

definition request_download_url :: "string \<Rightarrow> string \<Rightarrow> torbox_file \<Rightarrow> string" where
  "request_download_url base_url api_key f =
     rstrip_by (\<lambda>c. c = CHR ''/'') base_url @ ''/'' @ download_kind_str (tf_kind f) @ ''/requestdl?'' @
     urlencode [(''token'', api_key), (ID_PARAM_BY_KIND (tf_kind f), tf_item_id f),
       (''file_id'', tf_file_id f), (''redirect'', ''true'')]"

section \<open>The Blu-ray selection\<close>

lemma bluray_feature_in:
  assumes "bluray_feature cs = Some m"
  shows "m \<in> set cs" "tf_size (snd m) \<noteq> None" "2 \<le> length cs"
    "\<And>p. p \<in> set cs \<Longrightarrow> tf_size (snd p) \<noteq> None \<Longrightarrow> the (tf_size (snd p)) \<le> the (tf_size (snd m))"
proof -
  let ?f = "\<lambda>p :: placed. case tf_size (snd p) of None \<Rightarrow> 0 | Some n \<Rightarrow> n"
  obtain d ds where f: "filter (\<lambda>p. tf_size (snd p) \<noteq> None) cs = d # ds" and m: "m = max_by ?f d ds"
    and l: "2 \<le> length cs"
    using assms by (auto simp: bluray_feature_def MIN_BLURAY_STREAM_FILES_def split: list.splits if_splits)
  have sized: "set (d # ds) = {p \<in> set cs. tf_size (snd p) \<noteq> None}" by (simp only: f [symmetric] set_filter)
  have "m \<in> set (d # ds)" using max_by_in [of ?f d ds] m by simp
  with sized show "m \<in> set cs" "tf_size (snd m) \<noteq> None" by auto
  then show "\<And>p. p \<in> set cs \<Longrightarrow> tf_size (snd p) \<noteq> None \<Longrightarrow> the (tf_size (snd p)) \<le> the (tf_size (snd m))"
  proof -
    fix p assume p: "p \<in> set cs" "tf_size (snd p) \<noteq> None"
    then have "p \<in> insert d (set ds)" using sized by auto
    then have "?f p \<le> ?f m" unfolding m by (rule max_by_ge)
    with p \<open>tf_size (snd m) \<noteq> None\<close> show "the (tf_size (snd p)) \<le> the (tf_size (snd m))" by auto
  qed
  show "2 \<le> length cs" by (rule l)
qed

lemma bluray_feature_None:
  "bluray_feature cs = None \<longleftrightarrow> length cs < 2 \<or> list_all (\<lambda>p. tf_size (snd p) = None) cs"
proof (cases "filter (\<lambda>p. tf_size (snd p) \<noteq> None) cs")
  case Nil
  then have "list_all (\<lambda>p. tf_size (snd p) = None) cs" by (simp add: filter_empty_conv list_all_iff)
  with Nil show ?thesis by (simp add: bluray_feature_def)
next
  case (Cons d ds)
  then have "d \<in> set (filter (\<lambda>p. tf_size (snd p) \<noteq> None) cs)" by simp
  then have "\<not> list_all (\<lambda>p. tf_size (snd p) = None) cs" by (auto simp: list_all_iff)
  with Cons show ?thesis by (simp add: bluray_feature_def MIN_BLURAY_STREAM_FILES_def)
qed

definition bluray_kept :: "torbox_file list \<Rightarrow> placed \<Rightarrow> bool" where
  "bluray_kept files p \<longleftrightarrow> (case placed_group p of None \<Rightarrow> True
     | Some g \<Rightarrow> (case bluray_feature (filter (\<lambda>q. placed_group q = Some g) (enumerate 0 files)) of
           None \<Rightarrow> True | Some s \<Rightarrow> s = p))"

lemma bluray_group_of:
  assumes "placed_group p = Some g" "p \<in> set (enumerate 0 files)"
  shows "map_of (bluray_groups files) g = Some (filter (\<lambda>q. placed_group q = Some g) (enumerate 0 files))"
proof -
  have "g \<in> (\<lambda>p. the (placed_group p)) ` set (filter (\<lambda>p. placed_group p \<noteq> None) (enumerate 0 files))"
    using assms by (force simp del: enumerate_simps)
  moreover have "filter (\<lambda>q. the (placed_group q) = g) (filter (\<lambda>q. placed_group q \<noteq> None) (enumerate 0 files))
      = filter (\<lambda>q. placed_group q = Some g) (enumerate 0 files)"
    unfolding filter_filter by (rule filter_cong) auto
  ultimately show ?thesis unfolding bluray_groups_def group_by_lookup by simp
qed

lemma map_of_filter_map:
  assumes "distinct (map fst d)"
  shows "map_of (filter (\<lambda>(g, s). s \<noteq> None) (map (\<lambda>(g, cs). (g, F cs)) d)) g =
     (case map_of d g of None \<Rightarrow> None | Some cs \<Rightarrow> if F cs = None then None else Some (F cs))"
  using assms
proof (induction d)
  case (Cons p d)
  obtain k cs where p: "p = (k, cs)" by (cases p)
  have "map_of d k = None" using Cons.prems by (simp add: p map_of_eq_None_iff)
  with Cons show ?case by (auto simp: p split: option.splits)
qed simp

lemma select_kept:
  "fst (select_bluray_feature_files files) = map snd (filter (bluray_kept files) (enumerate 0 files))"
proof -
  let ?sel = "filter (\<lambda>(g, s). s \<noteq> None) (map (\<lambda>(g, cs). (g, bluray_feature cs)) (bluray_groups files))"
  have ok: "distinct (map fst (bluray_groups files))"
    using group_by_ok [of "\<lambda>p. the (placed_group p)"] by (simp add: bluray_groups_def od_ok_def)
  have "(case placed_group p of None \<Rightarrow> True
      | Some g \<Rightarrow> (case map_of ?sel g of None \<Rightarrow> True | Some s \<Rightarrow> s = Some p)) = bluray_kept files p"
    if "p \<in> set (enumerate 0 files)" for p
  proof (cases "placed_group p")
    case (Some g)
    show ?thesis
      using bluray_group_of [OF Some that] map_of_filter_map [OF ok, of bluray_feature g]
      by (simp add: bluray_kept_def Some split: option.splits)
  qed (simp add: bluray_kept_def)
  then show ?thesis
    unfolding select_bluray_feature_files_def Let_def fst_conv by (intro arg_cong [where f = "map snd"] filter_cong) auto
qed

lemma distinct_enumerate [simp]: "distinct (enumerate n xs)"
  by (simp add: enumerate_eq_zip distinct_zipI1)

lemma select_total:
  "length (fst (select_bluray_feature_files files)) + snd (select_bluray_feature_files files) = length files"
proof -
  let ?Q = "\<lambda>p. \<not> bluray_kept files p"
  let ?grouped = "filter (\<lambda>p. placed_group p \<noteq> None) (enumerate 0 files)"
  have each: "length (filter ?Q cs) = (if bluray_feature cs = None then 0 else length cs - 1)"
    if "(g, cs) \<in> set (bluray_groups files)" for g cs
  proof -
    have "cs = filter (\<lambda>p. the (placed_group p) = g) ?grouped"
      using that group_by_member(1) unfolding bluray_groups_def by fast
    then have cs: "cs = filter (\<lambda>q. placed_group q = Some g) (enumerate 0 files)"
      unfolding filter_filter by (simp only:) (rule filter_cong, auto)
    have Q: "?Q p \<longleftrightarrow> (case bluray_feature cs of None \<Rightarrow> False | Some s \<Rightarrow> s \<noteq> p)" if "p \<in> set cs" for p
      using that by (auto simp: cs bluray_kept_def simp del: enumerate_simps split: option.splits)
    show ?thesis
    proof (cases "bluray_feature cs")
      case None
      with Q show ?thesis by (simp add: filter_empty_conv)
    next
      case (Some s)
      have "distinct cs" by (simp add: cs)
      then have "length (filter (\<lambda>p. s \<noteq> p) cs) = length cs - 1"
        using bluray_feature_in(1) [OF Some] length_remove1 [of s cs] distinct_remove1_removeAll [of cs s]
        by (simp add: removeAll_filter_not_eq)
      moreover have "filter ?Q cs = filter (\<lambda>p. s \<noteq> p) cs" using Q Some by (intro filter_cong) auto
      ultimately show ?thesis using Some by simp
    qed
  qed
  have "snd (select_bluray_feature_files files) =
      sum_list (map (\<lambda>p. length (filter ?Q (snd p))) (bluray_groups files))"
    unfolding select_bluray_feature_files_def Let_def snd_conv
  proof (intro arg_cong [where f = sum_list] map_cong refl)
    fix x assume "x \<in> set (bluray_groups files)"
    then show "(case x of (g, cs) \<Rightarrow> if bluray_feature cs = None then 0 else length cs - 1) =
        length (filter ?Q (snd x))"
      using each [of "fst x" "snd x"] by (simp only: prod.collapse case_prod_unfold)
  qed
  also have "\<dots> = length (filter ?Q ?grouped)"
    unfolding bluray_groups_def by (rule group_by_filter_total)
  also have "filter ?Q ?grouped = filter ?Q (enumerate 0 files)"
    unfolding filter_filter by (rule filter_cong) (auto simp: bluray_kept_def split: option.splits)
  finally show ?thesis
    using sum_length_filter_compl [of "bluray_kept files" "enumerate 0 files"] by (simp add: select_kept)
qed

section \<open>Properties of the extraction\<close>

lemma extract_item_files_total: "length (fst (extract_item_files item kind raws)) + snd (extract_item_files item kind raws) = length raws"
  by (induction raws) (auto split: option.splits prod.splits)

lemma extract_item_files_member:
  "f \<in> set (fst (extract_item_files item kind raws)) \<Longrightarrow> \<exists>d. build_torbox_file item d kind = Some f"
  by (induction raws) (auto split: option.splits prod.splits)

lemma extract_downloads:
  "ef_files (extract_torbox_files downloads kind) = concat (map (\<lambda>item. fst (extract_item item kind)) downloads)"
  "ef_skipped_count (extract_torbox_files downloads kind) = sum_list (map (\<lambda>item. snd (extract_item item kind)) downloads)"
proof -
  have "foldl (\<lambda>(files, skipped) item. let (fs, n) = extract_item item kind in (files @ fs, skipped + n)) (a, n) ds
      = (a @ concat (map (\<lambda>item. fst (extract_item item kind)) ds), n + sum_list (map (\<lambda>item. snd (extract_item item kind)) ds))"
    for a n ds
    by (induction ds arbitrary: a n) (auto split: prod.splits)
  from this [of "[]" 0 downloads] show
    "ef_files (extract_torbox_files downloads kind) = concat (map (\<lambda>item. fst (extract_item item kind)) downloads)"
    "ef_skipped_count (extract_torbox_files downloads kind) = sum_list (map (\<lambda>item. snd (extract_item item kind)) downloads)"
    by (simp_all add: extract_torbox_files_def)
qed

text \<open>What one download contributes to the total: its raw files, or one skip.\<close>

definition download_weight :: "payload \<Rightarrow> nat" where
  "download_weight item =
     (if jget item ''cached'' = JBool False then 1
      else case jlist (jget item ''files'') of None \<Rightarrow> 1 | Some raws \<Rightarrow> length raws)"

text \<open>C27. Nothing of a download list is lost without being counted: the extracted files and the
  skipped count together are the number of raw files, plus one for every download that is not
  cached or has no file list.\<close>

theorem extraction_accounts:
  "length (ef_files (extract_torbox_files downloads kind)) +
     ef_skipped_count (extract_torbox_files downloads kind) = sum_list (map download_weight downloads)"
proof -
  have one: "length (fst (extract_item item kind)) + snd (extract_item item kind) = download_weight item" for item
    using extract_item_files_total [of item kind] select_total
    by (auto simp: extract_item_def download_weight_def split: option.splits prod.splits)
      (metis add.assoc add.commute fst_conv snd_conv)+
  show ?thesis
    unfolding extract_downloads length_concat map_map comp_def sum_list_addf [symmetric]
    by (simp only: one)
qed

text \<open>C28. Every extracted file is playable: it has the kind of the list, an item and a file id and a
  name, it is a video, neither a small sample nor a pack extra, and it comes from a download that
  TorBox does not report as uncached.\<close>

theorem extracted_files_playable:
  assumes "f \<in> set (ef_files (extract_torbox_files downloads kind))"
  shows "tf_kind f = kind \<and> tf_item_id f \<noteq> [] \<and> tf_file_id f \<noteq> [] \<and> tf_file_name f \<noteq> [] \<and>
    is_video (tf_file_name f) (tf_mime_type f) \<and>
    \<not> is_sample_file (tf_file_name f) (tf_path f) (tf_size f) \<and> \<not> is_pack_extra (tf_file_name f) \<and>
    list_ex (\<lambda>item. jget item ''cached'' \<noteq> JBool False \<and> string_value (jget item ''id'') = tf_item_id f) downloads"
proof -
  obtain item where item: "item \<in> set downloads" "f \<in> set (fst (extract_item item kind))"
    using assms by (auto simp: extract_downloads)
  then obtain raws where raws: "jget item ''cached'' \<noteq> JBool False"
    "f \<in> set (fst (select_bluray_feature_files (fst (extract_item_files item kind raws))))"
    by (auto simp: extract_item_def split: if_splits option.splits prod.splits) (metis fst_conv)
  then have "f \<in> set (fst (extract_item_files item kind raws))"
    by (auto simp: select_kept enumerate_eq_zip dest: set_zip_rightD)
  then obtain d where "build_torbox_file item d kind = Some f"
    using extract_item_files_member by blast
  with item raws show ?thesis
    by (auto simp: build_torbox_file_def Let_def list_ex_iff split: if_splits)
qed

lemma filter_enumerate: "map snd (filter (\<lambda>p. P (snd p)) (enumerate n xs)) = filter P xs"
  by (induction xs arbitrary: n) auto

lemma filter_is_singleton: "distinct xs \<Longrightarrow> s \<in> set xs \<Longrightarrow> filter (\<lambda>x. s = x) xs = [s]"
  by (induction xs) (auto simp: filter_empty_conv)

text \<open>Of a Blu-ray disc the feature remains: when a disc has at least two streams and a size is
  known, exactly one of them is kept and no stream of known size is larger; otherwise all its
  streams are kept.\<close>

theorem bluray_feature_chosen:
  "let cs = filter (\<lambda>f. bluray_stream_group (tf_path f) = Some g) files;
       kept = filter (\<lambda>f. bluray_stream_group (tf_path f) = Some g) (fst (select_bluray_feature_files files))
   in if length cs < 2 \<or> list_all (\<lambda>f. tf_size f = None) cs then kept = cs
      else \<exists>m. kept = [m] \<and> m \<in> set cs \<and> tf_size m \<noteq> None \<and>
        list_all (\<lambda>f. case tf_size f of None \<Rightarrow> True | Some n \<Rightarrow> n \<le> the (tf_size m)) cs"
proof -
  let ?G = "\<lambda>f. bluray_stream_group (tf_path f) = Some g"
  let ?ps = "filter (\<lambda>q. placed_group q = Some g) (enumerate 0 files)"
  have cs: "filter ?G files = map snd ?ps"
    using filter_enumerate [of ?G 0 files] by (simp add: placed_group_def)
  have "filter ?G (fst (select_bluray_feature_files files)) =
      map snd (filter (\<lambda>p. ?G (snd p)) (filter (bluray_kept files) (enumerate 0 files)))"
    by (simp add: select_kept filter_map comp_def)
  also have "filter (\<lambda>p. ?G (snd p)) (filter (bluray_kept files) (enumerate 0 files)) = filter (bluray_kept files) ?ps"
    unfolding filter_filter placed_group_def by (rule filter_cong) auto
  finally have kept: "filter ?G (fst (select_bluray_feature_files files)) = map snd (filter (bluray_kept files) ?ps)" .
  show ?thesis
  proof (cases "bluray_feature ?ps")
    case None
    then have "filter (bluray_kept files) ?ps = ?ps"
      unfolding filter_filter by (intro filter_cong refl) (auto simp: bluray_kept_def)
    moreover have "length (map snd ?ps) < 2 \<or> list_all (\<lambda>f. tf_size f = None) (map snd ?ps)"
      using None by (simp add: bluray_feature_None list.pred_map comp_def)
    ultimately show ?thesis unfolding Let_def cs kept by simp
  next
    case (Some m)
    have "filter (bluray_kept files) ?ps = filter (\<lambda>p. m = p) ?ps"
      using Some by (intro filter_cong refl) (auto simp: bluray_kept_def simp del: enumerate_simps)
    also have "\<dots> = [m]" 
      by (rule filter_is_singleton [OF _ bluray_feature_in(1) [OF Some]]) simp
    finally have one: "map snd (filter (bluray_kept files) ?ps) = [snd m]" by simp
    have "\<not> (length (map snd ?ps) < 2 \<or> list_all (\<lambda>f. tf_size f = None) (map snd ?ps))"
      using Some bluray_feature_None [of ?ps] by (simp add: list.pred_map comp_def)
    moreover have "list_all (\<lambda>f. case tf_size f of None \<Rightarrow> True | Some n \<Rightarrow> n \<le> the (tf_size (snd m))) (map snd ?ps)"
      using bluray_feature_in(4) [OF Some] unfolding list.pred_map list_all_iff
      by (force simp del: enumerate_simps split: option.splits)
    moreover have "snd m \<in> set (map snd ?ps)"
      using bluray_feature_in(1) [OF Some] unfolding set_map by (rule imageI)
    ultimately show ?thesis unfolding Let_def cs kept one
      using bluray_feature_in(2) [OF Some] by (simp only: if_False) blast
  qed
qed

lemma normalize_info_hash_ok: "normalize_info_hash v = Some h \<Longrightarrow> info_hash_ok h \<and> normalize_info_hash (Some h) = Some h"
proof -
  assume "normalize_info_hash v = Some h"
  then obtain c where c: "h = casefold c" "fullmatch INFO_HASH_PATTERN c"
    by (auto simp: normalize_info_hash_def Let_def split: option.splits if_splits)
  have ok: "info_hash_ok h"
    using c by (simp add: info_hash_ok_def fullmatch_info_hash casefold_def list.pred_map comp_def)
  have "\<not> is_space x" if "x \<in> set h" for x
    using ok that by (auto simp: info_hash_ok_def list_all_iff is_alnum_def is_digit_def is_upper_def
        is_lower_def is_space_def)
  then have "dropWhile is_space h = h" "dropWhile is_space (rev h) = rev h"
    using dropWhile_eq_self_iff [of is_space h] dropWhile_eq_self_iff [of is_space "rev h"]
      hd_in_set [of h] hd_in_set [of "rev h"] by (auto simp del: dropWhile_eq_self_iff hd_in_set)
  then have "strip h = h"
    by (simp add: strip_def strip_by_def lstrip_by_def rstrip_by_def)
  with ok show ?thesis
    by (simp add: normalize_info_hash_def fullmatch_info_hash info_hash_ok_def)
qed

text \<open>The hash of a torrent is in normal form (20 to 100 letters and digits, lower case), and
  normalising it again changes nothing, so that hashes can be compared as strings.\<close>

theorem torrent_hash_normal:
  assumes "torrent_info_hash item = Some h"
  shows "info_hash_ok h \<and> normalize_info_hash (Some h) = Some h"
proof -
  have "first_info_hash cs = Some h \<Longrightarrow> \<exists>v. normalize_info_hash v = Some h" for cs
    by (induction cs) (auto split: option.splits)
  then have "\<exists>v. normalize_info_hash v = Some h"
    using assms by (auto simp: torrent_info_hash_def split: option.splits)
  then show ?thesis using normalize_info_hash_ok by blast
qed

theorem torrent_hash_normal_witness:
  "info_hash_ok ''0123456789abcdef0123456789abcdef01234567''"
proof -
  have "torrent_info_hash [(''hash'', JInt 5), (''alternative_hashes'',
      JArr [JNull, JStr '' 0123456789ABCDEF0123456789abcdef01234567 ''])]
    = Some ''0123456789abcdef0123456789abcdef01234567''" by code_simp
  from torrent_hash_normal [OF this] show ?thesis by simp
qed

theorem extracted_files_playable_witness:
  "is_video ''Up.mkv'' ''video/x-matroska''"
proof -
  let ?d = "[[(''id'', JInt 7), (''name'', JStr ''Up''), (''files'', JArr [JObj [(''id'', JInt 1),
      (''short_name'', JStr ''Up.mkv''), (''mimetype'', JStr ''video/x-matroska''), (''size'', JInt 5)]])]]"
  let ?f = "\<lparr>tf_kind = Torrents, tf_item_id = ''7'', tf_file_id = ''1'', tf_folder_name = ''Up'',
      tf_file_name = ''Up.mkv'', tf_path = ''Up.mkv'', tf_mime_type = ''video/x-matroska'', tf_size = Some 5\<rparr>"
  have "ef_files (extract_torbox_files ?d Torrents) = [?f]" by code_simp
  then have "?f \<in> set (ef_files (extract_torbox_files ?d Torrents))" by simp
  from extracted_files_playable [OF this] show ?thesis by simp
qed

section \<open>The download URL\<close>

definition hex_value :: "char \<Rightarrow> nat" where
  "hex_value c = (if is_digit c then code c - 48 else code c - 55)"

text \<open>Reading a query string: \<open>urllib.parse.parse_qsl\<close> on ASCII text.\<close>

fun unquote_plus :: "string \<Rightarrow> string" where
  "unquote_plus [] = []"
| "unquote_plus (c # s) =
     (if c = CHR ''+'' then CHR '' '' # unquote_plus s
      else if c = CHR ''%'' then (case s of
          a # b # rest \<Rightarrow> char_of (16 * hex_value a + hex_value b) # unquote_plus rest
        | _ \<Rightarrow> c # unquote_plus s)
      else c # unquote_plus s)"

definition parse_param :: "string \<Rightarrow> string \<times> string" where
  "parse_param w = (unquote_plus (takeWhile (\<lambda>c. c \<noteq> CHR ''='') w),
     unquote_plus (drop 1 (dropWhile (\<lambda>c. c \<noteq> CHR ''='') w)))"

definition parse_qsl :: "string \<Rightarrow> (string \<times> string) list" where
  "parse_qsl q = map parse_param (split_on (CHR ''&'') q)"

definition ascii :: "string \<Rightarrow> bool" where
  "ascii s \<longleftrightarrow> list_all (\<lambda>c. code c < 128) s"

lemma nibble_cases: "n < 16 \<Longrightarrow> n \<in> {0, 1, 2, 3, 4, 5, 6, 7, 8, 9, 10, 11, 12, 13, 14, 15 :: nat}"
  by (simp add: insert_iff) arith

lemma hex_value_digit: "n < 16 \<Longrightarrow> hex_value (hex_digit n) = n \<and> hex_digit n \<notin> set ''&=%+''"
  using nibble_cases [of n] by (auto simp: hex_digit_def hex_value_def is_digit_def code_def)

lemma unquote_quote_char:
  assumes "code c < 128"
  shows "unquote_plus (quote_char c @ s) = c # unquote_plus s" "set (quote_char c) \<inter> set ''&='' = {}"
proof -
  have "code c div 16 < 16" "code c mod 16 < 16" using assms by simp_all
  note hex = hex_value_digit [OF this(1)] hex_value_digit [OF this(2)]
  have c: "char_of (code c) = c" by (simp add: code_def)
  consider "is_alnum c \<or> c \<in> set ''_.-~''" | "c = CHR '' ''" "\<not> is_alnum c"
    | "\<not> (is_alnum c \<or> c \<in> set ''_.-~'')" "c \<noteq> CHR '' ''" by blast
  then have "unquote_plus (quote_char c @ s) = c # unquote_plus s \<and> set (quote_char c) \<inter> set ''&='' = {}"
  proof cases
    case 1
    then have "c \<notin> set ''+%&=''" by (auto simp: is_alnum_def is_digit_def is_upper_def is_lower_def code_def)
    with 1 assms show ?thesis by (auto simp: quote_char_def)
  next
    case 2
    then show ?thesis by (simp add: quote_char_def)
  next
    case 3
    then have "quote_char c = percent (code c)" using assms by (auto simp: quote_char_def)
    with hex c show ?thesis by (auto simp: percent_def)
  qed
  then show "unquote_plus (quote_char c @ s) = c # unquote_plus s" "set (quote_char c) \<inter> set ''&='' = {}" by simp_all
qed

lemma unquote_quote: "ascii s \<Longrightarrow> unquote_plus (quote_plus s) = s"
proof (induction s)
  case (Cons c s)
  then show ?case using unquote_quote_char(1) [of c "quote_plus s"] by (simp add: ascii_def quote_plus_def)
qed (simp add: quote_plus_def)

lemma quote_plus_safe: "ascii s \<Longrightarrow> x \<in> set (quote_plus s) \<Longrightarrow> x \<noteq> CHR ''&'' \<and> x \<noteq> CHR ''=''"
  using unquote_quote_char(2) by (fastforce simp: ascii_def quote_plus_def list_all_iff)

lemma parse_urlencode:
  assumes "params \<noteq> []" "\<And>k v. (k, v) \<in> set params \<Longrightarrow> ascii k \<and> ascii v"
  shows "parse_qsl (urlencode params) = params"
proof -
  let ?enc = "\<lambda>(k, v). quote_plus k @ ''='' @ quote_plus v"
  have "parse_param (?enc p) = p" if "p \<in> set params" for p
  proof -
    obtain k v where p: "p = (k, v)" by (cases p)
    have a: "ascii k" "ascii v" using assms(2) that p by auto
    have "takeWhile (\<lambda>c. c \<noteq> CHR ''='') (quote_plus k @ ''='' @ quote_plus v) = quote_plus k"
      "dropWhile (\<lambda>c. c \<noteq> CHR ''='') (quote_plus k @ ''='' @ quote_plus v) = ''='' @ quote_plus v"
      using quote_plus_safe [OF a(1)] by (auto simp: takeWhile_append dropWhile_append)
    then have "takeWhile (\<lambda>c. c \<noteq> CHR ''='') (quote_plus k @ CHR ''='' # quote_plus v) = quote_plus k"
      "dropWhile (\<lambda>c. c \<noteq> CHR ''='') (quote_plus k @ CHR ''='' # quote_plus v) = CHR ''='' # quote_plus v"
      by simp_all
    then show ?thesis using a by (simp add: p parse_param_def unquote_quote)
  qed
  then have "map parse_param (map ?enc params) = params" by (simp add: map_idI)
  moreover have "split_on (CHR ''&'') (urlencode params) = map ?enc params"
    unfolding urlencode_def using assms quote_plus_safe by (intro split_on_join) fastforce+
  ultimately show ?thesis by (simp add: parse_qsl_def)
qed

text \<open>C29. The direct download URL asks TorBox for exactly this file: reading its query string back
  gives the token, the item under the parameter name of its kind, the file and the redirect flag,
  whatever characters the key and the ids contain.\<close>

theorem download_url_parameters:
  assumes "ascii api_key" "ascii (tf_item_id f)" "ascii (tf_file_id f)"
  shows "\<exists>q. request_download_url base_url api_key f =
      rstrip_by (\<lambda>c. c = CHR ''/'') base_url @ ''/'' @ download_kind_str (tf_kind f) @ ''/requestdl?'' @ q \<and>
    parse_qsl q = [(''token'', api_key), (ID_PARAM_BY_KIND (tf_kind f), tf_item_id f),
      (''file_id'', tf_file_id f), (''redirect'', ''true'')]"
proof -
  have "ascii ''token''" "ascii ''file_id''" "ascii ''redirect''" "ascii ''true''"
    "ascii (ID_PARAM_BY_KIND (tf_kind f))"
    by (cases "tf_kind f"; simp add: ascii_def code_def)+
  with assms have "parse_qsl (urlencode [(''token'', api_key), (ID_PARAM_BY_KIND (tf_kind f), tf_item_id f),
      (''file_id'', tf_file_id f), (''redirect'', ''true'')]) = [(''token'', api_key),
      (ID_PARAM_BY_KIND (tf_kind f), tf_item_id f), (''file_id'', tf_file_id f), (''redirect'', ''true'')]"
    by (intro parse_urlencode) auto
  then show ?thesis unfolding request_download_url_def by blast
qed

theorem download_url_parameters_witness:
  "\<exists>q. parse_qsl q = [(''token'', ''a&b c''), (''web_id'', ''7=8''), (''file_id'', ''%''), (''redirect'', ''true'')]"
  using download_url_parameters [of "''a&b c''" "\<lparr>tf_kind = WebDl, tf_item_id = ''7=8'', tf_file_id = ''%'',
      tf_folder_name = [], tf_file_name = ''Up.mkv'', tf_path = ''Up.mkv'', tf_mime_type = [], tf_size = None\<rparr>" "[]"]
  by (auto simp: ascii_def code_def)

end
