(* ===== verification/TorBoxManifests.thy ===== *)
theory TorBoxManifests
  imports Json PathLib "HOL-Library.Multiset" "HOL-Library.Char_ord"
    "HOL-Library.List_Lexorder" "HOL-Library.Product_Lexorder"
begin

text \<open>
  The file manifest of a torrent as TorBox reports it (api/app/providers/torbox/manifests.py).
\<close>

record manifest_file =
  mf_external_id :: "string option"
  mf_name :: string
  mf_path :: string
  mf_size :: "int option"
  mf_mime_type :: "string option"

record torrent_manifest =
  tm_info_hash :: string
  tm_name :: "string option"
  tm_files :: "manifest_file list"

fun optional_string :: "json \<Rightarrow> string option" where
  "optional_string (JStr s) = (if strip s \<noteq> [] then Some (strip s) else None)"
| "optional_string _ = None"

fun optional_int :: "json \<Rightarrow> int option" where
  "optional_int (JInt i) = (if 0 \<le> i then Some i else None)"
| "optional_int _ = None"

fun identifier_of :: "json \<Rightarrow> string option" where
  "identifier_of (JInt i) = Some (str_int i)"
| "identifier_of v = optional_string v"

fun first_present :: "payload \<Rightarrow> string list \<Rightarrow> string option" where
  "first_present d [] = None"
| "first_present d (k # ks) =
     (case optional_string (jget d k) of Some v \<Rightarrow> Some v | None \<Rightarrow> first_present d ks)"

definition manifest_file_of :: "payload \<Rightarrow> nat \<Rightarrow> manifest_file option" where
  "manifest_file_of raw_file index =
     (case first_present raw_file [''name'', ''path'', ''filename'', ''short_name''] of
        None \<Rightarrow> None
      | Some path \<Rightarrow> Some
          \<lparr>mf_external_id = Some (case identifier_of (jget raw_file ''id'') of Some i \<Rightarrow> i
              | None \<Rightarrow> ''file:'' @ dec index),
           mf_name = (case first_present raw_file [''short_name'', ''filename''] of Some n \<Rightarrow> n
              | None \<Rightarrow> path_name (parse_path path)),
           mf_path = path,
           mf_size = optional_int (jget raw_file ''size''),
           mf_mime_type = optional_string (if truthy (jget raw_file ''mimetype'')
              then jget raw_file ''mimetype'' else jget raw_file ''mime_type'')\<rparr>)"

fun manifest_files :: "nat \<Rightarrow> json list \<Rightarrow> manifest_file list" where
  "manifest_files index [] = []"
| "manifest_files index (raw # raws) =
     (case jobj raw of None \<Rightarrow> [] | Some d \<Rightarrow> (case manifest_file_of d index of None \<Rightarrow> [] | Some f \<Rightarrow> [f]))
     @ manifest_files (Suc index) raws"

definition manifest_order :: "manifest_file \<Rightarrow> string \<times> string" where
  "manifest_order f = (casefold (mf_name f), casefold (mf_path f))"

definition torrent_manifest_of :: "payload \<Rightarrow> string \<Rightarrow> torrent_manifest option" where
  "torrent_manifest_of item info_hash =
     (case jlist (jget item ''files'') of None \<Rightarrow> None
      | Some raw_files \<Rightarrow>
          let files = manifest_files 0 raw_files
          in if files = [] then None
             else Some \<lparr>tm_info_hash = info_hash, tm_name = optional_string (jget item ''name''),
               tm_files = sort_key manifest_order files\<rparr>)"

fun cached_item :: "payload \<Rightarrow> string \<Rightarrow> payload option" where
  "cached_item [] info_hash = None"
| "cached_item ((key, v) # d) info_hash =
     (if casefold key \<noteq> info_hash \<or> jobj v = None then cached_item d info_hash else jobj v)"

definition torrent_manifest_from_cached_payload :: "payload \<Rightarrow> string \<Rightarrow> torrent_manifest option" where
  "torrent_manifest_from_cached_payload payload info_hash =
     (case normalize_info_hash (Some info_hash) of None \<Rightarrow> None
      | Some normalized_hash \<Rightarrow> (case jobj (jget payload ''data'') of None \<Rightarrow> None
          | Some data \<Rightarrow> (case cached_item data normalized_hash of None \<Rightarrow> None
              | Some item \<Rightarrow> torrent_manifest_of item normalized_hash)))"

definition torrent_manifest_from_download :: "payload \<Rightarrow> string option \<Rightarrow> torrent_manifest option" where
  "torrent_manifest_from_download download info_hash =
     torrent_manifest_of download
       (case normalize_info_hash info_hash of Some h \<Rightarrow> h | None \<Rightarrow> ''unknown'')"

section \<open>Properties\<close>

lemma first_present_nonempty: "first_present d ks = Some v \<Longrightarrow> v \<noteq> []"
proof (induction ks)
  case (Cons k ks)
  have "optional_string j = Some w \<Longrightarrow> w \<noteq> []" for j w
    by (cases j) (auto split: if_splits)
  with Cons show ?case by (auto split: option.splits)
qed simp

lemma manifest_file_of_path: "manifest_file_of d n = Some f \<Longrightarrow> mf_path f \<noteq> [] \<and> mf_external_id f \<noteq> None"
  using first_present_nonempty [of d "[''name'', ''path'', ''filename'', ''short_name'']"]
  unfolding manifest_file_of_def
  by (cases "first_present d [''name'', ''path'', ''filename'', ''short_name'']") (auto simp del: first_present.simps)

lemma manifest_files_have_path: "f \<in> set (manifest_files n raws) \<Longrightarrow> mf_path f \<noteq> [] \<and> mf_external_id f \<noteq> None"
  using manifest_file_of_path by (induction raws arbitrary: n) (fastforce split: option.splits)+

lemma cached_item_key: "cached_item d h = Some item \<Longrightarrow> \<exists>key. casefold key = h \<and> (key, JObj item) \<in> set d"
  by (induction d h rule: cached_item.induct) (auto split: if_splits)

text \<open>A manifest from TorBox' cache answer belongs to the torrent that was asked for: its hash is
  the normal form of the given one, its data stands under that hash, and its files are the decoded
  raw files, at least one, in the order of folded name and path, all with a path and an id.\<close>

theorem cached_manifest_matches:
  assumes "torrent_manifest_from_cached_payload payload info_hash = Some m"
  shows "normalize_info_hash (Some info_hash) = Some (tm_info_hash m) \<and>
    sorted (map manifest_order (tm_files m)) \<and> tm_files m \<noteq> [] \<and>
    list_all (\<lambda>f. mf_path f \<noteq> [] \<and> mf_external_id f \<noteq> None) (tm_files m) \<and>
    (\<exists>data key item raws. jget payload ''data'' = JObj data \<and> (key, JObj item) \<in> set data \<and>
       casefold key = tm_info_hash m \<and> jget item ''files'' = JArr raws \<and>
       mset (tm_files m) = mset (manifest_files 0 raws))"
proof -
  obtain h data item where h: "normalize_info_hash (Some info_hash) = Some h"
    and d: "jget payload ''data'' = JObj data" "cached_item data h = Some item"
    and t: "torrent_manifest_of item h = Some m"
    using assms by (auto simp: torrent_manifest_from_cached_payload_def split: option.splits)
  from t obtain raws where raws: "jget item ''files'' = JArr raws"
    "manifest_files 0 raws \<noteq> []" "tm_files m = sort_key manifest_order (manifest_files 0 raws)"
    "tm_info_hash m = h"
    by (auto simp: torrent_manifest_of_def Let_def split: option.splits if_splits)
  obtain key where "casefold key = h" "(key, JObj item) \<in> set data"
    using cached_item_key [OF d(2)] by blast
  moreover have "tm_files m \<noteq> []" using raws by (metis mset_sort mset_zero_iff)
  ultimately show ?thesis using h d raws manifest_files_have_path [of _ 0 raws]
    by (auto simp: list_all_iff)
qed

theorem cached_manifest_matches_witness:
  "\<exists>m :: torrent_manifest. tm_files m \<noteq> [] \<and> tm_info_hash m = ''0123456789abcdef0123''"
proof -
  let ?p = "[(''data'', JObj [(''0123456789ABCDEF0123'', JObj [(''files'',
      JArr [JObj [(''name'', JStr ''b.mkv'')], JNull, JObj [(''name'', JStr ''a.mkv''), (''id'', JInt 3)]])])])]"
  have "torrent_manifest_from_cached_payload ?p ''0123456789ABCDEF0123'' \<noteq> None" by code_simp
  then obtain m where m: "torrent_manifest_from_cached_payload ?p ''0123456789ABCDEF0123'' = Some m" by auto
  have h: "normalize_info_hash (Some ''0123456789ABCDEF0123'') = Some ''0123456789abcdef0123''" by code_simp
  from cached_manifest_matches [OF m]
  have "Some ''0123456789abcdef0123'' = Some (tm_info_hash m)" "tm_files m \<noteq> []" unfolding h by blast+
  then show ?thesis by (intro exI [of _ m]) simp
qed

end
