(* ===== verification/TorBoxClient.thy ===== *)
theory TorBoxClient
  imports Coordinator Caches Effects TorBoxFiles TorBoxManifests
begin

text \<open>
  The TorBox client (api/app/providers/torbox/client.py) and the removal of items
  (api/app/providers/torbox/removal.py). The HTTP transport, the clock and the sleep are
  parameters over a world \<open>'w\<close>; the request coordinator, the metrics and the manifest cache are
  the modelled ones and part of the client's state.
\<close>

section \<open>Requests and responses\<close>

record http_request =
  rq_method :: string
  rq_url :: string
  rq_headers :: "(string \<times> string) list"
  rq_params :: "payload option"
  rq_json :: "payload option"
  rq_files :: "(string \<times> string) list option"

text \<open>\<open>rs_json\<close> is what \<open>response.json()\<close> returns or raises.\<close>

record http_response =
  rs_status :: nat
  rs_json :: "json result"

definition is_error_status :: "nat \<Rightarrow> bool" where
  "is_error_status n \<longleftrightarrow> 400 \<le> n \<and> n \<le> 599"

record 'w torbox_env =
  te_send :: "http_request \<Rightarrow> 'w \<Rightarrow> http_response result \<times> 'w"
  te_now :: "'w \<Rightarrow> time"
  te_sleep :: "time \<Rightarrow> time \<Rightarrow> time"
  te_wake :: "time \<Rightarrow> 'w \<Rightarrow> 'w"
  te_fuel :: nat
  te_str :: "json \<Rightarrow> string"

record torbox_client =
  tbc_api_key :: string
  tbc_base_url :: string

record 'w torbox_state =
  ts_world :: 'w
  ts_coordinator :: coordinator
  ts_metrics :: metrics
  ts_cache :: "torrent_manifest manifest_cache"

type_synonym ('w, 'a) torbox = "('w torbox_state, 'a) eff"

definition DEFAULT_TORBOX_BASE_URL :: string where
  "DEFAULT_TORBOX_BASE_URL = ''https://api.torbox.app/v1/api''"

definition USER_AGENT :: string where "USER_AGENT = ''Strmline/0.1.0''"

definition client_init :: "string \<Rightarrow> string \<Rightarrow> torbox_client" where
  "client_init api_key base_url =
     \<lparr>tbc_api_key = api_key, tbc_base_url = rstrip_by (\<lambda>c. c = CHR ''/'') base_url\<rparr>"

definition torbox_url :: "torbox_client \<Rightarrow> string \<Rightarrow> string" where
  "torbox_url c path = tbc_base_url c @ ''/'' @ strip_by (\<lambda>x. x = CHR ''/'') path"

definition torbox_headers :: "torbox_client \<Rightarrow> (string \<times> string) list" where
  "torbox_headers c = [(''Authorization'', ''Bearer '' @ tbc_api_key c), (''User-Agent'', USER_AGENT)]"

fun string_payload_value :: "json \<Rightarrow> string" where
  "string_payload_value (JStr s) = strip s"
| "string_payload_value _ = []"

definition error_message :: "nat \<Rightarrow> payload \<Rightarrow> string" where
  "error_message status_code p =
     (let error = string_payload_value (jget p ''error''); detail = string_payload_value (jget p ''detail'')
      in join '' '' ([''TorBox request failed with status '' @ dec status_code @ ''.''] @
           (if error \<noteq> [] then [error] else []) @ (if detail \<noteq> [] then [detail] else [])))"

definition api_error :: "nat \<Rightarrow> payload \<Rightarrow> exn" where
  "api_error status_code p =
     TorBoxAPIError (error_message status_code p)
       (let e = string_payload_value (jget p ''error'') in if e = [] then None else Some e)"

definition response_payload :: "http_response \<Rightarrow> payload result" where
  "response_payload r = bind_res (rs_json r) (\<lambda>v. case jobj v of
       None \<Rightarrow> raise (TorBoxAPIError ''TorBox response was not a JSON object.'' None)
     | Some p \<Rightarrow> return p)"

definition checked_payload :: "http_response \<Rightarrow> payload result" where
  "checked_payload r = bind_res (response_payload r) (\<lambda>p.
     if is_error_status (rs_status r) \<or> jget p ''success'' = JBool False
     then raise (api_error (rs_status r) p) else return p)"

definition client_acquire :: "'w torbox_env \<Rightarrow> ('w, unit) torbox" where
  "client_acquire env = (\<lambda>s.
     case acquire (te_fuel env) (te_sleep env) (te_now env (ts_world s)) (ts_coordinator s, ts_metrics s) of
       None \<Rightarrow> (raise OutOfFuel, s)
     | Some (t, c, m) \<Rightarrow>
         (return (), s\<lparr>ts_world := te_wake env t (ts_world s), ts_coordinator := c, ts_metrics := m\<rparr>))"

definition request_json :: "'w torbox_env \<Rightarrow> torbox_client \<Rightarrow> string \<Rightarrow> string \<Rightarrow> (string \<times> string) list \<Rightarrow>
    payload option \<Rightarrow> payload option \<Rightarrow> (string \<times> string) list option \<Rightarrow> ('w, payload) torbox" where
  "request_json env c method path headers params json_payload form =
     eff_then (client_acquire env)
     (eff_then (eff_modify (\<lambda>s. s\<lparr>ts_metrics := record_request_started (te_now env (ts_world s)) (ts_metrics s)\<rparr>))
     (\<lambda>s. case te_send env \<lparr>rq_method = method, rq_url = torbox_url c path, rq_headers = headers,
              rq_params = params, rq_json = json_payload, rq_files = form\<rparr> (ts_world s) of
        (Inl e, w) \<Rightarrow> (raise e, s\<lparr>ts_world := w, ts_metrics := record_request_finished None False (ts_metrics s)\<rparr>)
      | (Inr r, w) \<Rightarrow> (checked_payload r, s\<lparr>ts_world := w,
          ts_metrics := record_request_finished (Some (rs_status r)) (returned (checked_payload r)) (ts_metrics s)\<rparr>)))"

section \<open>The operations\<close>

definition get_json :: "'w torbox_env \<Rightarrow> torbox_client \<Rightarrow> string \<Rightarrow> payload option \<Rightarrow> ('w, payload) torbox" where
  "get_json env c path params = request_json env c ''GET'' path (torbox_headers c) params None None"

definition post_json :: "'w torbox_env \<Rightarrow> torbox_client \<Rightarrow> string \<Rightarrow> payload \<Rightarrow> ('w, payload) torbox" where
  "post_json env c path p =
     request_json env c ''POST'' path (torbox_headers c @ [(''Content-Type'', ''application/json'')]) None (Some p) None"

definition post_form :: "'w torbox_env \<Rightarrow> torbox_client \<Rightarrow> string \<Rightarrow> (string \<times> string) list \<Rightarrow> ('w, payload) torbox" where
  "post_form env c path form = request_json env c ''POST'' path (torbox_headers c) None None (Some form)"

definition numeric_id_payload :: "string \<Rightarrow> json" where
  "numeric_id_payload v = (if isdecimal v then JInt (int_of_decimal v) else JStr v)"

fun object_items :: "json list \<Rightarrow> payload list result" where
  "object_items [] = return []"
| "object_items (x # xs) = (case jobj x of
     None \<Rightarrow> raise (TorBoxAPIError ''TorBox response data contained a non-object item.'' None)
   | Some d \<Rightarrow> bind_res (object_items xs) (\<lambda>ds. return (d # ds)))"

definition require_data_list :: "payload \<Rightarrow> payload list result" where
  "require_data_list p = (case jlist (jget p ''data'') of
     None \<Rightarrow> raise (TorBoxAPIError ''TorBox response data was not a list.'' None)
   | Some xs \<Rightarrow> object_items xs)"

fun list_pages :: "nat \<Rightarrow> 'w torbox_env \<Rightarrow> torbox_client \<Rightarrow> download_kind \<Rightarrow> nat \<Rightarrow> payload list \<Rightarrow> nat \<Rightarrow>
    ('w, payload list) torbox" where
  "list_pages 0 env c kind limit downloads offset = eff_raise OutOfFuel"
| "list_pages (Suc fuel) env c kind limit downloads offset =
     eff_bind (get_json env c (''/'' @ download_kind_str kind @ ''/mylist'')
         (Some [(''limit'', JInt (int limit)), (''offset'', JInt (int offset)), (''bypass_cache'', JBool True)]))
       (\<lambda>p. eff_bind (eff_lift (require_data_list p)) (\<lambda>batch.
         if length batch < limit then eff_return (downloads @ batch)
         else list_pages fuel env c kind limit (downloads @ batch) (offset + limit)))"

definition list_downloads :: "nat \<Rightarrow> 'w torbox_env \<Rightarrow> torbox_client \<Rightarrow> download_kind \<Rightarrow> nat \<Rightarrow> ('w, payload list) torbox" where
  "list_downloads fuel env c kind limit = list_pages fuel env c kind limit [] 0"

text \<open>\<open>str(item.get("id", ""))\<close>; the text of a float, a list or a dictionary is a parameter.\<close>

definition str_or_empty :: "'w torbox_env \<Rightarrow> payload \<Rightarrow> string \<Rightarrow> string" where
  "str_or_empty env d k = (case map_of d k of
     None \<Rightarrow> [] | Some (JStr s) \<Rightarrow> s | Some (JInt i) \<Rightarrow> str_int i | Some JNull \<Rightarrow> ''None''
   | Some (JBool b) \<Rightarrow> (if b then ''True'' else ''False'') | Some v \<Rightarrow> te_str env v)"

definition get_download :: "'w torbox_env \<Rightarrow> torbox_client \<Rightarrow> download_kind \<Rightarrow> string \<Rightarrow> ('w, payload option) torbox" where
  "get_download env c kind item_id =
     eff_bind (get_json env c (''/'' @ download_kind_str kind @ ''/mylist'')
         (Some [(''id'', numeric_id_payload item_id), (''bypass_cache'', JBool True)]))
       (\<lambda>p. eff_return (case jget p ''data'' of
           JObj d \<Rightarrow> Some d
         | JArr xs \<Rightarrow>
             let typed_items = List.map_filter jobj xs
             in (case find (\<lambda>item. strip (str_or_empty env item ''id'') = item_id) typed_items of
                 Some item \<Rightarrow> Some item
               | None \<Rightarrow> (if length typed_items = 1 then Some (hd typed_items) else None))
         | _ \<Rightarrow> None))"

definition cached_batch_result :: "string list \<Rightarrow> payload \<Rightarrow> (string, bool) odict" where
  "cached_batch_result hashes p = (case jobj (jget p ''data'') of
     None \<Rightarrow> fold (\<lambda>h d. AList.update h False d) hashes []
   | Some data \<Rightarrow> fold (\<lambda>h d. AList.update h (jget data h \<noteq> JNull \<and> jget data h \<noteq> JBool False) d) hashes [])"

text \<open>\<open>hashes[start : start + 100]\<close> for \<open>start\<close> in steps of 100.\<close>

function batches :: "nat \<Rightarrow> 'x list \<Rightarrow> 'x list list" where
  "batches n xs = (if xs = [] \<or> n = 0 then [] else take n xs # batches n (drop n xs))"
  by pat_completeness auto
termination
  by (relation "measure (\<lambda>(n, xs). length xs)") auto

declare batches.simps [simp del]

definition is_torbox_api_error :: "exn \<Rightarrow> bool" where
  "is_torbox_api_error e = (case e of TorBoxAPIError m c \<Rightarrow> True | _ \<Rightarrow> False)"

definition update_all :: "(string, bool) odict \<Rightarrow> (string, bool) odict \<Rightarrow> (string, bool) odict" where
  "update_all result new = fold (\<lambda>(k, v) d. AList.update k v d) new result"

definition check_cached_batches :: "'w torbox_env \<Rightarrow> torbox_client \<Rightarrow> bool \<Rightarrow> string list \<Rightarrow> ('w, (string, bool) odict) torbox" where
  "check_cached_batches env c suppress_errors hashes =
     eff_fold (\<lambda>result batch.
         eff_catch is_torbox_api_error
           (eff_bind (get_json env c ''/torrents/checkcached'' (Some [(''hash'', JStr (join '','' batch))]))
             (\<lambda>p. eff_return (update_all result (cached_batch_result batch p))))
           (\<lambda>e. if suppress_errors
                then eff_return (update_all result (fold (\<lambda>h d. AList.update h False d) batch []))
                else eff_raise e))
       [] (batches 100 hashes)"

definition check_cached :: "'w torbox_env \<Rightarrow> torbox_client \<Rightarrow> string list \<Rightarrow> ('w, (string, bool) odict) torbox" where
  "check_cached env c hashes = check_cached_batches env c True hashes"

definition check_cached_strict :: "'w torbox_env \<Rightarrow> torbox_client \<Rightarrow> string list \<Rightarrow> ('w, (string, bool) odict) torbox" where
  "check_cached_strict env c hashes = check_cached_batches env c False hashes"

definition cached_torrent_manifest :: "'w torbox_env \<Rightarrow> torbox_client \<Rightarrow> string \<Rightarrow> ('w, torrent_manifest option) torbox" where
  "cached_torrent_manifest env c info_hash =
     (let normalized_hash = casefold (strip info_hash)
      in (\<lambda>s. case manifest_get (te_now env (ts_world s)) normalized_hash (ts_cache s) of
            ((True, cached), cache) \<Rightarrow> (return cached, s\<lparr>ts_cache := cache\<rparr>)
          | ((False, _), cache) \<Rightarrow>
              eff_bind (get_json env c ''/torrents/checkcached''
                  (Some [(''hash'', JStr normalized_hash), (''format'', JStr ''object''), (''list_files'', JBool True)]))
                (\<lambda>p. let manifest = torrent_manifest_from_cached_payload p normalized_hash
                  in eff_then (eff_modify (\<lambda>s. s\<lparr>ts_cache :=
                       manifest_put (te_now env (ts_world s)) normalized_hash manifest (ts_cache s)\<rparr>))
                     (eff_return manifest)) (s\<lparr>ts_cache := cache\<rparr>)))"

definition bool_field :: "bool \<Rightarrow> string" where
  "bool_field v = (if v then ''true'' else ''false'')"

definition create_torrent :: "'w torbox_env \<Rightarrow> torbox_client \<Rightarrow> string \<Rightarrow> string option \<Rightarrow> bool \<Rightarrow> ('w, payload) torbox" where
  "create_torrent env c magnet name add_only_if_cached =
     eff_bind (post_form env c ''/torrents/createtorrent''
         ([(''magnet'', magnet), (''add_only_if_cached'', bool_field add_only_if_cached)] @
          (case name of None \<Rightarrow> [] | Some n \<Rightarrow> if strip n \<noteq> [] then [(''name'', strip n)] else [])))
       (\<lambda>p. eff_return (case jobj (jget p ''data'') of None \<Rightarrow> [] | Some d \<Rightarrow> d))"

definition request_download_link :: "'w torbox_env \<Rightarrow> torbox_client \<Rightarrow> torbox_file \<Rightarrow> ('w, string) torbox" where
  "request_download_link env c f =
     eff_bind (get_json env c (''/'' @ download_kind_str (tf_kind f) @ ''/requestdl'')
         (Some [(''token'', JStr (tbc_api_key c)),
           (ID_PARAM_BY_KIND (tf_kind f), numeric_id_payload (tf_item_id f)),
           (''file_id'', numeric_id_payload (tf_file_id f))]))
       (\<lambda>p. case jstr (jget p ''data'') of
           None \<Rightarrow> eff_raise (TorBoxAPIError ''TorBox download response did not include a media URL.'' None)
         | Some url \<Rightarrow> if strip url = []
             then eff_raise (TorBoxAPIError ''TorBox download response did not include a media URL.'' None)
             else eff_return (strip url))"

fun delete_control :: "download_kind \<Rightarrow> string \<times> string" where
  "delete_control Torrents = (''/torrents/controltorrent'', ''torrent_id'')"
| "delete_control Usenet = (''/usenet/controlusenet'', ''usenet_id'')"
| "delete_control WebDl = (''/webdl/controlwebdownload'', ''web_id'')"

definition delete_download :: "'w torbox_env \<Rightarrow> torbox_client \<Rightarrow> download_kind \<Rightarrow> string \<Rightarrow> ('w, unit) torbox" where
  "delete_download env c kind item_id =
     (case delete_control kind of (path, id_key) \<Rightarrow>
        eff_bind (post_json env c path
            [(id_key, numeric_id_payload item_id), (''operation'', JStr ''delete''), (''all'', JBool False)])
          (\<lambda>_. eff_return ()))"

definition delete_torrent :: "'w torbox_env \<Rightarrow> torbox_client \<Rightarrow> string \<Rightarrow> ('w, unit) torbox" where
  "delete_torrent env c torrent_id = delete_download env c Torrents torrent_id"

definition hash_of_item :: "json \<Rightarrow> string list" where
  "hash_of_item v = (case jstr v of None \<Rightarrow> [] | Some s \<Rightarrow> if strip s = [] then [] else [casefold (strip s)])"

definition item_hashes :: "payload \<Rightarrow> string list" where
  "item_hashes item = hash_of_item (jget item ''hash'') @
     (case jlist (jget item ''alternative_hashes'') of None \<Rightarrow> []
      | Some cs \<Rightarrow> concat (map hash_of_item cs))"

definition find_torrents_by_hashes :: "nat \<Rightarrow> 'w torbox_env \<Rightarrow> torbox_client \<Rightarrow> string list \<Rightarrow>
    ('w, string \<Rightarrow> payload option) torbox" where
  "find_torrents_by_hashes fuel env c info_hashes =
     (let normalized_hashes = map casefold (filter (\<lambda>h. h \<noteq> []) info_hashes)
      in if normalized_hashes = [] then eff_return (\<lambda>_. None)
         else eff_bind (list_downloads fuel env c Torrents 1000) (\<lambda>items. eff_return
           (foldl (\<lambda>matches item h. if h \<in> set (item_hashes item) \<and> h \<in> set normalized_hashes
              then Some item else matches h) (\<lambda>_. None) items)))"

definition find_torrent_by_hash :: "nat \<Rightarrow> 'w torbox_env \<Rightarrow> torbox_client \<Rightarrow> string \<Rightarrow> ('w, payload option) torbox" where
  "find_torrent_by_hash fuel env c info_hash =
     eff_bind (find_torrents_by_hashes fuel env c [casefold info_hash])
       (\<lambda>matches. eff_return (matches (casefold info_hash)))"

section \<open>Removing items\<close>

record torbox_item_removal =
  ir_kind :: download_kind
  ir_item_id :: string

record removal_result =
  rr_removed :: nat
  rr_already_absent :: nat
  rr_unconfirmed :: nat

definition removal_complete :: "removal_result \<Rightarrow> bool" where
  "removal_complete r \<longleftrightarrow> rr_unconfirmed r = 0"

text \<open>The loop over the pending targets; \<open>delete\<close> is the client's \<open>delete_download\<close>.\<close>

fun remove_targets :: "(download_kind \<Rightarrow> string \<Rightarrow> ('s, unit) eff) \<Rightarrow> torbox_item_removal list \<Rightarrow>
    removal_result \<Rightarrow> ('s, removal_result) eff" where
  "remove_targets delete [] r = eff_return r"
| "remove_targets delete (t # pending) r = (\<lambda>s.
     case delete (ir_kind t) (ir_item_id t) s of
       (Inr _, s') \<Rightarrow> remove_targets delete pending (r\<lparr>rr_removed := rr_removed r + 1\<rparr>) s'
     | (Inl (TorBoxAPIError m error_code), s') \<Rightarrow>
         if error_code = Some ''ITEM_NOT_FOUND''
         then remove_targets delete pending (r\<lparr>rr_already_absent := rr_already_absent r + 1\<rparr>) s'
         else remove_targets delete pending (r\<lparr>rr_unconfirmed := rr_unconfirmed r + 1\<rparr>) s'
     | (Inl (HttpxError m), s') \<Rightarrow>
         (return (r\<lparr>rr_unconfirmed := rr_unconfirmed r + length (t # pending)\<rparr>), s')
     | (Inl (OSError m), s') \<Rightarrow>
         (return (r\<lparr>rr_unconfirmed := rr_unconfirmed r + length (t # pending)\<rparr>), s')
     | (Inl e, s') \<Rightarrow> (raise e, s'))"

definition remove_torbox_items :: "(download_kind \<Rightarrow> string \<Rightarrow> ('s, unit) eff) \<Rightarrow> torbox_item_removal list \<Rightarrow>
    ('s, removal_result) eff" where
  "remove_torbox_items delete targets =
     remove_targets delete targets \<lparr>rr_removed = 0, rr_already_absent = 0, rr_unconfirmed = 0\<rparr>"

definition removal_total :: "removal_result \<Rightarrow> nat" where
  "removal_total r = rr_removed r + rr_already_absent r + rr_unconfirmed r"

lemma remove_targets_total:
  "remove_targets delete pending r s = (return r', s') \<Longrightarrow> removal_total r' = removal_total r + length pending"
proof (induction pending arbitrary: r s)
  case (Cons t pending)
  obtain x s1 where d: "delete (ir_kind t) (ir_item_id t) s = (x, s1)" by fastforce
  show ?case
    using Cons.prems Cons.IH d
    by (cases x; (cases "projl x")?) (auto simp: removal_total_def split: if_splits)
qed (simp add: removal_total_def)

section \<open>Every request is accounted for\<close>

definition ready :: "'w torbox_env \<Rightarrow> 'w torbox_state \<Rightarrow> bool" where
  "ready env s \<longleftrightarrow> within_budget (ts_coordinator s) \<and> (\<forall>now w. now + w \<le> te_sleep env now w) \<and> 2 \<le> te_fuel env"

lemma acquire_ready:
  assumes "ready env s"
  obtains s1 where "client_acquire env s = (return (), s1)" "ready env s1" "ts_cache s1 = ts_cache s"
    "queue_depth (ts_metrics s1) = queue_depth (ts_metrics s)"
    "requests_total (ts_metrics s1) = requests_total (ts_metrics s)"
    "requests_succeeded (ts_metrics s1) = requests_succeeded (ts_metrics s)"
    "requests_failed (ts_metrics s1) = requests_failed (ts_metrics s)"
proof -
  obtain t c' where t: "acquire_loop (te_fuel env) (te_sleep env) (te_now env (ts_world s)) (ts_coordinator s) = Some (t, c')"
    "within_budget c'"
    using assms acquire_loop_returns [of "ts_coordinator s" "te_sleep env" "te_fuel env"]
    unfolding ready_def by blast
  then show ?thesis
    using assms that [of "s\<lparr>ts_world := te_wake env t (ts_world s), ts_coordinator := c',
      ts_metrics := torbox_queue_left (torbox_queue_entered (ts_metrics s))\<rparr>"]
    by (simp add: client_acquire_def acquire_def ready_def torbox_queue_left_def torbox_queue_entered_def)
qed

lemma finished_counts:
  "requests_total (record_request_finished status ok m) = requests_total m"
  "queue_depth (record_request_finished status ok m) = queue_depth m"
  "requests_succeeded (record_request_finished status ok m) = requests_succeeded m + (if ok then 1 else 0)"
  "requests_failed (record_request_finished status ok m) = requests_failed m + (if ok then 0 else 1)"
  by (simp_all add: record_request_finished_def torbox_request_finished_def Let_def)

lemma started_counts:
  "requests_total (record_request_started now m) = requests_total m + 1"
  "queue_depth (record_request_started now m) = queue_depth m"
  "requests_succeeded (record_request_started now m) = requests_succeeded m"
  "requests_failed (record_request_started now m) = requests_failed m"
  by (simp_all add: record_request_started_def torbox_request_started_def prune_recent_calls_def)

text \<open>One request from a ready state: what the transport answers decides the result, and the state
  stays ready.\<close>

lemma request_run:
  assumes "ready env s"
  obtains w w' where
    "fst (request_json env c verb path headers params p form s) =
       (case fst (te_send env \<lparr>rq_method = verb, rq_url = torbox_url c path, rq_headers = headers,
          rq_params = params, rq_json = p, rq_files = form\<rparr> w) of Inl e \<Rightarrow> raise e | Inr r \<Rightarrow> checked_payload r)"
    "ready env (snd (request_json env c verb path headers params p form s))"
    "ts_cache (snd (request_json env c verb path headers params p form s)) = ts_cache s"
    "ts_world (snd (request_json env c verb path headers params p form s)) = w'"
    "queue_depth (ts_metrics (snd (request_json env c verb path headers params p form s))) = queue_depth (ts_metrics s)"
    "requests_total (ts_metrics (snd (request_json env c verb path headers params p form s))) = requests_total (ts_metrics s) + 1"
    "requests_succeeded (ts_metrics (snd (request_json env c verb path headers params p form s))) =
       requests_succeeded (ts_metrics s) + (if returned (fst (request_json env c verb path headers params p form s)) then 1 else 0)"
    "requests_failed (ts_metrics (snd (request_json env c verb path headers params p form s))) =
       requests_failed (ts_metrics s) + (if returned (fst (request_json env c verb path headers params p form s)) then 0 else 1)"
proof -
  obtain s1 where s1: "client_acquire env s = (return (), s1)" "ready env s1" "ts_cache s1 = ts_cache s"
    "queue_depth (ts_metrics s1) = queue_depth (ts_metrics s)"
    "requests_total (ts_metrics s1) = requests_total (ts_metrics s)"
    "requests_succeeded (ts_metrics s1) = requests_succeeded (ts_metrics s)"
    "requests_failed (ts_metrics s1) = requests_failed (ts_metrics s)"
    using acquire_ready [OF assms] by blast
  let ?q = "\<lparr>rq_method = verb, rq_url = torbox_url c path, rq_headers = headers,
          rq_params = params, rq_json = p, rq_files = form\<rparr>"
  obtain r w' where send: "te_send env ?q (ts_world s1) = (r, w')" by fastforce
  show ?thesis
    by (rule that [of "ts_world s1" w'], insert s1 send)
      (cases r; auto simp: request_json_def eff_then_def eff_bind_run finished_counts started_counts ready_def)+
qed

text \<open>C30. Every call of the client is accounted for, whatever the transport answers or raises: once
  admitted it counts as one started request and as exactly one success or failure (a success only
  when a payload is returned), the queue is as deep as before, and the client stays within its
  budget.\<close>

theorem request_accounted:
  assumes "ready env s"
  shows "let (r, s') = request_json env c verb path headers params p form s
     in requests_total (ts_metrics s') = requests_total (ts_metrics s) + 1 \<and>
        requests_succeeded (ts_metrics s') = requests_succeeded (ts_metrics s) + (if returned r then 1 else 0) \<and>
        requests_failed (ts_metrics s') = requests_failed (ts_metrics s) + (if returned r then 0 else 1) \<and>
        queue_depth (ts_metrics s') = queue_depth (ts_metrics s) \<and> ready env s'"
  by (rule request_run [OF assms, of c verb path headers params p form]) (simp add: case_prod_unfold)

section \<open>Listing downloads\<close>

definition page_request :: "torbox_client \<Rightarrow> download_kind \<Rightarrow> nat \<Rightarrow> nat \<Rightarrow> http_request" where
  "page_request c kind limit offset =
     \<lparr>rq_method = ''GET'', rq_url = torbox_url c (''/'' @ download_kind_str kind @ ''/mylist''),
      rq_headers = torbox_headers c,
      rq_params = Some [(''limit'', JInt (int limit)), (''offset'', JInt (int offset)), (''bypass_cache'', JBool True)],
      rq_json = None, rq_files = None\<rparr>"

text \<open>A service that holds \<open>xs\<close> and answers a page request with the slice it asks for.\<close>

definition serves :: "'w torbox_env \<Rightarrow> torbox_client \<Rightarrow> download_kind \<Rightarrow> nat \<Rightarrow> payload list \<Rightarrow> bool" where
  "serves env c kind limit xs \<longleftrightarrow> (\<forall>offset w. fst (te_send env (page_request c kind limit offset) w) =
     return \<lparr>rs_status = 200,
       rs_json = return (JObj [(''data'', JArr (map JObj (take limit (drop offset xs))))])\<rparr>)"

lemma object_items_map [simp]: "object_items (map JObj ds) = return ds"
  by (induction ds) simp_all

lemma page_run:
  assumes "ready env s" "serves env c kind limit xs"
  obtains s' where "get_json env c (''/'' @ download_kind_str kind @ ''/mylist'')
       (Some [(''limit'', JInt (int limit)), (''offset'', JInt (int offset)), (''bypass_cache'', JBool True)]) s =
     (return [(''data'', JArr (map JObj (take limit (drop offset xs))))], s')" "ready env s'"
proof -
  let ?m = "get_json env c (''/'' @ download_kind_str kind @ ''/mylist'')
       (Some [(''limit'', JInt (int limit)), (''offset'', JInt (int offset)), (''bypass_cache'', JBool True)]) s"
  have "fst ?m = return [(''data'', JArr (map JObj (take limit (drop offset xs))))] \<and> ready env (snd ?m)"
    unfolding get_json_def
    by (rule request_run [OF assms(1)]) (use assms(2) in \<open>auto simp: serves_def page_request_def
      checked_payload_def response_payload_def is_error_status_def jget_def\<close>)
  then show ?thesis using that [of "snd ?m"] by (metis prod.collapse)
qed

lemma list_pages_run:
  assumes "ready env s" "serves env c kind limit xs" "0 < limit" "length xs - offset < fuel * limit"
  shows "fst (list_pages fuel env c kind limit acc offset s) = return (acc @ drop offset xs)"
  using assms(1,4)
proof (induction fuel arbitrary: s acc offset)
  case (Suc fuel)
  obtain s1 where s1: "get_json env c (''/'' @ download_kind_str kind @ ''/mylist'')
       (Some [(''limit'', JInt (int limit)), (''offset'', JInt (int offset)), (''bypass_cache'', JBool True)]) s =
     (return [(''data'', JArr (map JObj (take limit (drop offset xs))))], s1)" "ready env s1"
    using page_run [OF Suc.prems(1) assms(2)] by blast
  have batch: "require_data_list [(''data'', JArr (map JObj (take limit (drop offset xs))))]
      = return (take limit (drop offset xs))"
    by (simp add: require_data_list_def jget_def)
  show ?case
  proof (cases "length xs - offset < limit")
    case True
    then show ?thesis using s1 batch by simp
  next
    case False
    then have "length xs - (offset + limit) < fuel * limit" using Suc.prems(2) by simp
    from Suc.IH [OF s1(2) this, of "acc @ take limit (drop offset xs)"]
    have "fst (list_pages fuel env c kind limit (acc @ take limit (drop offset xs)) (offset + limit) s1) =
        return (acc @ drop offset xs)"
      by (metis append.assoc append_take_drop_id drop_drop add.commute)
    then show ?thesis using s1 batch False by simp
  qed
qed simp

text \<open>C31. Listing terminates and misses nothing: against a service that answers every page request
  with its slice, \<open>list_downloads\<close> returns after at most one page more than fit completely, and what
  it returns is exactly what the service holds, in order.\<close>

theorem list_downloads_complete:
  assumes "ready env s" "serves env c kind limit xs" "0 < limit" "length xs div limit < fuel"
  shows "fst (list_downloads fuel env c kind limit s) = return xs"
proof -
  have "length xs < (length xs div limit + 1) * limit"
    using assms(3) by (metis Suc_eq_plus1 dividend_less_div_times mult.commute mult_Suc_right add.commute)
  also have "\<dots> \<le> fuel * limit" using assms(4) by (intro mult_le_mono1) simp
  finally show ?thesis using list_pages_run [OF assms(1-3), of 0 fuel "[]"] by (simp add: list_downloads_def)
qed

section \<open>The manifest cache\<close>

lemma request_keeps_cache: "ts_cache (snd (request_json env c method path headers params p form s)) = ts_cache s"
  by (auto simp: request_json_def eff_then_def eff_bind_def client_acquire_def eff_defs
      split: option.splits sum.splits prod.splits)

lemma get_json_keeps_cache: "ts_cache (snd (get_json env c path params s)) = ts_cache s"
  by (simp add: get_json_def request_keeps_cache)

lemma manifest_miss_run:
  assumes "cached_torrent_manifest env c info_hash s = (return m, s1)"
    and "\<not> fst (fst (manifest_get (te_now env (ts_world s)) (casefold (strip info_hash)) (ts_cache s)))"
  shows "ts_cache s1 = manifest_put (te_now env (ts_world s1)) (casefold (strip info_hash)) m
    (snd (manifest_get (te_now env (ts_world s)) (casefold (strip info_hash)) (ts_cache s)))"
proof -
  let ?k = "casefold (strip info_hash)"
  obtain x cache where g: "manifest_get (te_now env (ts_world s)) ?k (ts_cache s) = ((False, x), cache)"
    using assms(2) by (cases "manifest_get (te_now env (ts_world s)) ?k (ts_cache s)") auto
  let ?get = "get_json env c ''/torrents/checkcached'' (Some [(''hash'', JStr ?k), (''format'', JStr ''object''),
      (''list_files'', JBool True)]) (s\<lparr>ts_cache := cache\<rparr>)"
  obtain r s' where r: "?get = (r, s')" by fastforce
  have "ts_cache s' = cache"
    using get_json_keeps_cache [of env c _ _ "s\<lparr>ts_cache := cache\<rparr>"] r by (auto dest: arg_cong [where f = "\<lambda>x. ts_cache (snd x)"])
  then show ?thesis using assms(1) g r
    by (cases r) (auto simp: cached_torrent_manifest_def Let_def eff_then_def)
qed

text \<open>C32. TorBox is asked once: after a torrent's manifest was fetched, asking again for the same hash
  (in any spelling) before the entry expires sends no request and returns the same manifest, also
  when the answer was that there is none, as long as fewer other torrents than the cache can hold
  were looked up in between.\<close>

theorem manifest_fetched_once:
  assumes "cached_torrent_manifest env c info_hash s = (return m, s1)"
    and "\<not> fst (fst (manifest_get (te_now env (ts_world s)) (casefold (strip info_hash)) (ts_cache s)))"
    and "od_ok (mc_entries (ts_cache s))" "length (mc_entries (ts_cache s)) \<le> nat (mc_max_entries (ts_cache s))"
    and "ts_cache s2 = run_cache manifest_get manifest_put ops (ts_cache s1)"
    and "casefold (strip info_hash) \<notin> op_key ` set ops"
    and "card (op_key ` set ops) < nat (mc_max_entries (ts_cache s))"
    and "te_now env (ts_world s2) < te_now env (ts_world s1) + manifest_ttl (ts_cache s) m"
    and "casefold (strip info_hash') = casefold (strip info_hash)"
  shows "\<exists>cache. cached_torrent_manifest env c info_hash' s2 = (return m, s2\<lparr>ts_cache := cache\<rparr>)"
proof -
  let ?k = "casefold (strip info_hash)" and ?t = "te_now env (ts_world s1)"
  let ?before = "snd (manifest_get (te_now env (ts_world s)) ?k (ts_cache s))"
  have b: "manifest.bounded ?before"
    using assms(3,4) by (intro manifest.bounded_get) (simp add: manifest.bounded_def)
  have same: "mc_max_entries ?before = mc_max_entries (ts_cache s)" "manifest_ttl ?before = manifest_ttl (ts_cache s)"
    by (auto simp: manifest_get_def manifest_ttl_def fun_eq_iff split: option.splits)
  have "fst (manifest_get (te_now env (ts_world s2)) ?k
      (run_cache manifest_get manifest_put ops (manifest_put ?t ?k m ?before))) = (True, m)"
    using manifest.put_then_get [OF b assms(6), where now = "te_now env (ts_world s2)" and t = ?t and w = m] assms(7,8) same by simp
  then have "fst (manifest_get (te_now env (ts_world s2)) ?k (ts_cache s2)) = (True, m)"
    using manifest_miss_run [OF assms(1,2)] assms(5) by simp
  then show ?thesis
    by (cases "manifest_get (te_now env (ts_world s2)) ?k (ts_cache s2)")
      (auto simp: cached_torrent_manifest_def assms(9) Let_def)
qed

section \<open>Removal\<close>

text \<open>The outcome of a removal speaks for every target: when the loop returns, the removed, the
  already absent and the unconfirmed items together are all targets, also when TorBox became
  unavailable in the middle.\<close>

theorem removal_outcome_total:
  assumes "remove_torbox_items delete targets s = (return r, s')"
  shows "rr_removed r + rr_already_absent r + rr_unconfirmed r = length targets"
  using remove_targets_total [OF assms [unfolded remove_torbox_items_def]] by (simp add: removal_total_def)

section \<open>Witnesses\<close>

text \<open>A service over a list of downloads, for concrete runs; its world is the clock.\<close>

definition demo_send :: "payload list \<Rightarrow> http_request \<Rightarrow> time \<Rightarrow> http_response result \<times> time" where
  "demo_send xs q w =
     (let n = (\<lambda>k. case jint (jget (the (rq_params q)) k) of Some i \<Rightarrow> nat i | None \<Rightarrow> 0)
      in (return \<lparr>rs_status = 200, rs_json = return (JObj
            [(''data'', JArr (map JObj (take (n ''limit'') (drop (n ''offset'') xs))))])\<rparr>, w + 1))"

definition demo_env :: "payload list \<Rightarrow> time torbox_env" where
  "demo_env xs = \<lparr>te_send = demo_send xs, te_now = (\<lambda>w. w), te_sleep = (\<lambda>now w. now + w),
     te_wake = (\<lambda>t w. t), te_fuel = 2, te_str = (\<lambda>_. [])\<rparr>"

definition demo_state :: "time torbox_state" where
  "demo_state = \<lparr>ts_world = 0, ts_coordinator = \<lparr>requests_per_minute = 250, admitted_calls = []\<rparr>,
     ts_metrics = metrics_init, ts_cache = \<lparr>mc_ttl_seconds = 30, mc_negative_ttl_seconds = 5,
     mc_max_entries = 2, mc_entries = []\<rparr>\<rparr>"

lemma demo_ready: "ready (demo_env xs) demo_state"
  by (simp add: ready_def demo_env_def demo_state_def within_budget_def)

theorem request_accounted_witness:
  "requests_total (ts_metrics (snd (request_json (demo_env []) (client_init ''k'' ''u'') ''GET'' ''/x'' []
     (Some []) None None demo_state))) = 1"
  using request_accounted [OF demo_ready, of "[]" "client_init ''k'' ''u''" "''GET''" "''/x''" "[]" "Some []" None None]
  by (simp add: case_prod_unfold Let_def) (simp add: demo_state_def metrics_init_def)

theorem list_downloads_complete_witness:
  "fst (list_downloads 3 (demo_env [[], [(''id'', JInt 1)], []]) (client_init ''k'' ''u'') Torrents 2 demo_state)
     = return [[], [(''id'', JInt 1)], []]"
  by (rule list_downloads_complete [OF demo_ready])
    (simp_all add: serves_def demo_env_def demo_send_def page_request_def jget_def Let_def)

theorem manifest_fetched_once_witness:
  "\<exists>s1 cache. cached_torrent_manifest (demo_env []) (client_init ''k'' ''u'') '' AB '' s1 = (return None, s1\<lparr>ts_cache := cache\<rparr>)"
proof -
  let ?run = "cached_torrent_manifest (demo_env []) (client_init ''k'' ''u'') ''ab'' demo_state"
  have none: "torrent_manifest_from_cached_payload p ''ab'' = None" for p
  proof -
    have "normalize_info_hash (Some ''ab'') = None" by code_simp
    then show ?thesis by (simp add: torrent_manifest_from_cached_payload_def)
  qed
  have k: "casefold (strip ''ab'') = ''ab''" "casefold (strip '' AB '') = ''ab''" by code_simp+
  have "\<exists>s1. ?run = (return None, s1) \<and> ts_cache s1 = manifest_put 1 ''ab'' None (ts_cache demo_state) \<and> ts_world s1 = 1"
    by (simp add: cached_torrent_manifest_def Let_def k none demo_state_def manifest_get_def get_json_def
        request_json_def client_acquire_def acquire_def demo_env_def reserve_or_wait_def demo_send_def
        numeral_2_eq_2 eff_then_def eff_bind_run checked_payload_def response_payload_def jget_def is_error_status_def)
  then obtain s1 where s1: "?run = (return None, s1)" "ts_cache s1 = manifest_put 1 ''ab'' None (ts_cache demo_state)"
    "ts_world s1 = 1" by blast
  then have "\<exists>cache. cached_torrent_manifest (demo_env []) (client_init ''k'' ''u'') '' AB '' s1 = (return None, s1\<lparr>ts_cache := cache\<rparr>)"
    by (intro manifest_fetched_once [OF s1(1), where ops = "[]"])
      (simp_all add: k demo_state_def manifest_get_def manifest_ttl_def)
  then show ?thesis by blast
qed

theorem removal_outcome_total_witness:
  "rr_removed \<lparr>rr_removed = 1, rr_already_absent = 1, rr_unconfirmed = 2\<rparr> + 1 + 2 = 4"
proof -
  let ?delete = "\<lambda>k i n. (if i = ''1'' then return () else if i = ''2'' then raise (TorBoxAPIError [] (Some ''ITEM_NOT_FOUND''))
     else raise (HttpxError []), n + (1 :: nat))"
  let ?ts = "map (\<lambda>i. \<lparr>ir_kind = Torrents, ir_item_id = i\<rparr>) [''1'', ''2'', ''3'', ''4'']"
  have "remove_torbox_items ?delete ?ts 0 =
      (return \<lparr>rr_removed = 1, rr_already_absent = 1, rr_unconfirmed = 2\<rparr>, 3)"
    by (simp add: remove_torbox_items_def numeral_3_eq_3)
  from removal_outcome_total [OF this] show ?thesis by simp
qed

end
