(* ===== verification/Urls.thy ===== *)
theory Urls
  imports Errors
begin

text \<open>
  Python's \<open>urllib.parse.urlparse\<close> with its host and user parts, query strings, and
  \<open>ipaddress.ip_address\<close> with the networks of Python 3.12, as the provider client and the stream
  identity use them. A text that is no URL or no address is a \<open>ValueError\<close>.
\<close>

section \<open>Splitting texts\<close>

text \<open>\<open>s.partition(c)\<close> and \<open>s.rpartition(c)\<close>; None when the separator is absent.\<close>

definition partition_at :: "char \<Rightarrow> string \<Rightarrow> (string \<times> string) option" where
  "partition_at c s = (if c \<in> set s then Some (takeWhile (\<lambda>x. x \<noteq> c) s, drop 1 (dropWhile (\<lambda>x. x \<noteq> c) s)) else None)"

definition rpartition_at :: "char \<Rightarrow> string \<Rightarrow> (string \<times> string) option" where
  "rpartition_at c s = map_option (\<lambda>(a, b). (rev b, rev a)) (partition_at c (rev s))"

definition before :: "char \<Rightarrow> string \<Rightarrow> string" where
  "before c s = (case partition_at c s of None \<Rightarrow> s | Some (a, _) \<Rightarrow> a)"

definition after :: "char \<Rightarrow> string \<Rightarrow> string" where
  "after c s = (case partition_at c s of None \<Rightarrow> [] | Some (_, b) \<Rightarrow> b)"

section \<open>IP addresses\<close>

definition octet :: "string \<Rightarrow> nat option" where
  "octet t = (if t = [] \<or> \<not> list_all is_digit t \<or> 3 < length t \<or> (t \<noteq> ''0'' \<and> hd t = CHR ''0'') then None
     else let v = nat (int_of_decimal t) in if 255 < v then None else Some v)"

definition number_of_digits :: "nat \<Rightarrow> nat list \<Rightarrow> nat" where
  "number_of_digits b ds = foldl (\<lambda>n d. b * n + d) 0 ds"

definition ipv4_value :: "string \<Rightarrow> nat option" where
  "ipv4_value s = (let octets = map octet (split_on (CHR ''.'') s)
     in if length octets \<noteq> 4 \<or> None \<in> set octets then None else Some (number_of_digits 256 (map the octets)))"

definition hex_digit_value :: "char \<Rightarrow> nat option" where
  "hex_digit_value c = (if is_digit c then Some (code c - 48)
     else if 97 \<le> code c \<and> code c \<le> 102 then Some (code c - 87)
     else if 65 \<le> code c \<and> code c \<le> 70 then Some (code c - 55) else None)"

text \<open>A part of an IPv6 address: a text, or the value of half of an IPv4 suffix.\<close>

definition hextet :: "string + nat \<Rightarrow> nat option" where
  "hextet p = (case p of
     Inr v \<Rightarrow> Some v
   | Inl t \<Rightarrow> let ds = map hex_digit_value t
       in if t = [] \<or> 4 < length t \<or> None \<in> set ds then None else Some (number_of_digits 16 (map the ds)))"

definition ipv6_parts :: "string \<Rightarrow> (string + nat) list option" where
  "ipv6_parts s =
     (let parts = split_on (CHR '':'') s
      in if length parts < 3 then None
         else if CHR ''.'' \<in> set (last parts)
         then map_option (\<lambda>v. map Inl (butlast parts) @ [Inr (v div 65536), Inr (v mod 65536)]) (ipv4_value (last parts))
         else Some (map Inl parts))"

text \<open>How many parts stand before and after the \<open>::\<close>, and how many it stands for.\<close>

definition ipv6_layout :: "(string + nat) list \<Rightarrow> (nat \<times> nat \<times> nat) option" where
  "ipv6_layout parts =
     (let n = length parts; skips = filter (\<lambda>i. parts ! i = Inl []) [1..<n - 1]
      in if 9 < n then None
         else case skips of
           [] \<Rightarrow> if n = 8 \<and> hd parts \<noteq> Inl [] \<and> last parts \<noteq> Inl [] then Some (8, 0, 0) else None
         | [i] \<Rightarrow>
             let hi = (if hd parts = Inl [] then i - 1 else i);
                 lo = (if last parts = Inl [] then n - i - 2 else n - i - 1)
             in if (hd parts = Inl [] \<and> hi \<noteq> 0) \<or> (last parts = Inl [] \<and> lo \<noteq> 0) \<or> 8 \<le> hi + lo then None
                else Some (hi, 8 - (hi + lo), lo)
         | _ \<Rightarrow> None)"

definition ipv6_value :: "string \<Rightarrow> nat option" where
  "ipv6_value s = (case ipv6_parts s of
     None \<Rightarrow> None
   | Some parts \<Rightarrow> (case ipv6_layout parts of
        None \<Rightarrow> None
      | Some (hi, skipped, lo) \<Rightarrow>
          let vs = map hextet (take hi parts) @ replicate skipped (Some 0) @ map hextet (drop (length parts - lo) parts)
          in if None \<in> set vs then None else Some (number_of_digits 65536 (map the vs))))"

datatype ip_address = IPv4 nat | IPv6 nat

definition parse_ip_address :: "string \<Rightarrow> ip_address option" where
  "parse_ip_address s = (case ipv4_value s of
     Some v \<Rightarrow> Some (IPv4 v)
   | None \<Rightarrow> (case partition_at (CHR ''%'') s of
        None \<Rightarrow> map_option IPv6 (ipv6_value s)
      | Some (addr, scope_id) \<Rightarrow> if scope_id = [] \<or> CHR ''%'' \<in> set scope_id then None
          else map_option IPv6 (ipv6_value addr)))"

text \<open>Networks, as the base address and the number of free bits.\<close>

definition in_networks :: "(nat \<times> nat) list \<Rightarrow> nat \<Rightarrow> bool" where
  "in_networks nets v \<longleftrightarrow> list_ex (\<lambda>(base, free). v div 2 ^ free = base div 2 ^ free) nets"

definition v4 :: "nat \<Rightarrow> nat \<Rightarrow> nat \<Rightarrow> nat \<Rightarrow> nat" where "v4 a b c d = number_of_digits 256 [a, b, c, d]"

definition v6 :: "nat list \<Rightarrow> nat" where
  "v6 hs = number_of_digits 65536 (hs @ replicate (8 - length hs) 0)"

definition IPV4_PRIVATE :: "(nat \<times> nat) list" where
  "IPV4_PRIVATE = [(v4 0 0 0 0, 24), (v4 10 0 0 0, 24), (v4 127 0 0 0, 24), (v4 169 254 0 0, 16), (v4 172 16 0 0, 20),
     (v4 192 0 0 0, 8), (v4 192 0 0 170, 1), (v4 192 0 2 0, 8), (v4 192 168 0 0, 16), (v4 198 18 0 0, 17),
     (v4 198 51 100 0, 8), (v4 203 0 113 0, 8), (v4 240 0 0 0, 28), (v4 255 255 255 255, 0)]"

definition IPV4_PRIVATE_EXCEPTIONS :: "(nat \<times> nat) list" where
  "IPV4_PRIVATE_EXCEPTIONS = [(v4 192 0 0 9, 0), (v4 192 0 0 10, 0)]"

definition ipv4_is_private :: "nat \<Rightarrow> bool" where
  "ipv4_is_private v \<longleftrightarrow> in_networks IPV4_PRIVATE v \<and> \<not> in_networks IPV4_PRIVATE_EXCEPTIONS v"

definition IPV6_PRIVATE :: "(nat \<times> nat) list" where
  "IPV6_PRIVATE = [(1, 0), (0, 0), (v6 [0, 0, 0, 0, 0, 0xFFFF], 32), (v6 [0x64, 0xFF9B, 1], 80), (v6 [0x100], 64),
     (v6 [0x2001], 105), (v6 [0x2001, 0xDB8], 96), (v6 [0x2002], 112), (v6 [0xFC00], 121), (v6 [0xFE80], 118)]"

definition IPV6_PRIVATE_EXCEPTIONS :: "(nat \<times> nat) list" where
  "IPV6_PRIVATE_EXCEPTIONS = [(v6 [0x2001, 1] + 1, 0), (v6 [0x2001, 1] + 2, 0), (v6 [0x2001, 3], 96),
     (v6 [0x2001, 4, 0x112], 80), (v6 [0x2001, 0x20], 100), (v6 [0x2001, 0x30], 100)]"

definition IPV6_RESERVED :: "(nat \<times> nat) list" where
  "IPV6_RESERVED = [(0, 120), (v6 [0x100], 120), (v6 [0x200], 121), (v6 [0x400], 122), (v6 [0x800], 123),
     (v6 [0x1000], 124), (v6 [0x4000], 125), (v6 [0x6000], 125), (v6 [0x8000], 125), (v6 [0xA000], 125),
     (v6 [0xC000], 125), (v6 [0xE000], 124), (v6 [0xF000], 123), (v6 [0xF800], 122), (v6 [0xFE00], 119)]"

definition ipv6_is_private :: "nat \<Rightarrow> bool" where
  "ipv6_is_private v \<longleftrightarrow>
     (if v div 2 ^ 32 = 0xFFFF then ipv4_is_private (v mod 2 ^ 32)
      else in_networks IPV6_PRIVATE v \<and> \<not> in_networks IPV6_PRIVATE_EXCEPTIONS v)"

text \<open>\<open>is_private or is_loopback or is_link_local or is_reserved or is_unspecified\<close>\<close>

fun ip_is_internal :: "ip_address \<Rightarrow> bool" where
  "ip_is_internal (IPv4 v) = (ipv4_is_private v \<or> in_networks [(v4 127 0 0 0, 24)] v \<or>
     in_networks [(v4 169 254 0 0, 16)] v \<or> in_networks [(v4 240 0 0 0, 28)] v \<or> v = 0)"
| "ip_is_internal (IPv6 v) = (ipv6_is_private v \<or> v = 1 \<or> in_networks [(v6 [0xFE80], 118)] v \<or>
     in_networks IPV6_RESERVED v \<or> v = 0)"

section \<open>URLs\<close>

record url_parts =
  url_scheme :: string
  url_netloc :: string
  url_path :: string
  url_query :: string

definition scheme_char :: "char \<Rightarrow> bool" where
  "scheme_char c \<longleftrightarrow> is_alnum c \<or> c \<in> set ''+-.''"

definition bracketed_host_ok :: "string \<Rightarrow> bool" where
  "bracketed_host_ok h =
     (if startswith h ''v''
      then (let digits = takeWhile (\<lambda>c. hex_digit_value c \<noteq> None) (drop 1 h); r = drop (Suc (length digits)) h
            in digits \<noteq> [] \<and> startswith r ''.'' \<and> 1 < length r \<and> CHR 0x0A \<notin> set (drop 1 r))
      else (case parse_ip_address h of Some (IPv6 _) \<Rightarrow> True | _ \<Rightarrow> False))"

definition netloc_ok :: "string \<Rightarrow> bool" where
  "netloc_ok netloc =
     (let l = (CHR ''['' \<in> set netloc); r = (CHR '']'' \<in> set netloc)
      in l = r \<and> (l \<longrightarrow> bracketed_host_ok (before (CHR '']'') (after (CHR ''['') netloc))))"

definition urlsplit :: "string \<Rightarrow> url_parts result" where
  "urlsplit url =
     (let u = filter (\<lambda>c. c \<notin> {CHR 0x09, CHR 0x0A, CHR 0x0D}) (dropWhile (\<lambda>c. code c \<le> 32) url);
          head = takeWhile (\<lambda>c. c \<noteq> CHR '':'') u;
          has_scheme = (CHR '':'' \<in> set u \<and> head \<noteq> [] \<and> (is_upper (hd u) \<or> is_lower (hd u)) \<and> list_all scheme_char head);
          scheme = (if has_scheme then casefold head else []);
          u1 = (if has_scheme then drop (Suc (length head)) u else u);
          has_netloc = startswith u1 ''//'';
          netloc = (if has_netloc then takeWhile (\<lambda>c. c \<notin> set ''/?#'') (drop 2 u1) else []);
          u2 = (if has_netloc then drop (2 + length netloc) u1 else u1);
          u3 = before (CHR ''#'') u2
      in if has_netloc \<and> \<not> netloc_ok netloc then raise (ValueError ''Invalid IPv6 URL'')
         else return \<lparr>url_scheme = scheme, url_netloc = netloc, url_path = before (CHR ''?'') u3, url_query = after (CHR ''?'') u3\<rparr>)"

definition USES_PARAMS :: "string set" where
  "USES_PARAMS = {'''', ''ftp'', ''hdl'', ''prospero'', ''http'', ''imap'', ''https'', ''shttp'', ''rtsp'', ''rtsps'',
     ''rtspu'', ''sip'', ''sips'', ''mms'', ''sftp'', ''tel''}"

text \<open>\<open>urlparse\<close> also cuts the parameters off the last segment of the path.\<close>

definition without_params :: "string \<Rightarrow> string" where
  "without_params path = (case rpartition_at (CHR ''/'') path of
     None \<Rightarrow> before (CHR '';'') path
   | Some (a, b) \<Rightarrow> a @ [CHR ''/''] @ before (CHR '';'') b)"

definition urlparse :: "string \<Rightarrow> url_parts result" where
  "urlparse url = bind_res (urlsplit url) (\<lambda>u.
     return (if url_scheme u \<in> USES_PARAMS then u\<lparr>url_path := without_params (url_path u)\<rparr> else u))"

definition url_has_userinfo :: "url_parts \<Rightarrow> bool" where
  "url_has_userinfo u \<longleftrightarrow> CHR ''@'' \<in> set (url_netloc u)"

definition url_hostname :: "url_parts \<Rightarrow> string option" where
  "url_hostname u =
     (let hostinfo = (case rpartition_at (CHR ''@'') (url_netloc u) of None \<Rightarrow> url_netloc u | Some (_, h) \<Rightarrow> h);
          hostname = (if CHR ''['' \<in> set hostinfo then before (CHR '']'') (after (CHR ''['') hostinfo)
                      else before (CHR '':'') hostinfo)
      in if hostname = [] then None
         else Some (case partition_at (CHR ''%'') hostname of
             None \<Rightarrow> casefold hostname | Some (h, zone) \<Rightarrow> casefold h @ [CHR ''%''] @ zone))"

text \<open>\<open>parse_qs(query).get(key, [])\<close>; bytes above 127 stay undecoded.\<close>

fun unquote_text :: "string \<Rightarrow> string" where
  "unquote_text (c # a # b # s) =
     (if c = CHR ''+'' then CHR '' '' # unquote_text (a # b # s)
      else case (c = CHR ''%'', hex_digit_value a, hex_digit_value b) of
        (True, Some x, Some y) \<Rightarrow> char_of (16 * x + y) # unquote_text s
      | _ \<Rightarrow> c # unquote_text (a # b # s))"
| "unquote_text [c, a] = (if c = CHR ''+'' then CHR '' '' else c) # unquote_text [a]"
| "unquote_text [c] = [if c = CHR ''+'' then CHR '' '' else c]"
| "unquote_text [] = []"

definition parse_qs_get :: "string \<Rightarrow> string \<Rightarrow> string list" where
  "parse_qs_get query key =
     List.map_filter (\<lambda>w. if after (CHR ''='') w \<noteq> [] \<and> unquote_text (before (CHR ''='') w) = key
                          then Some (unquote_text (after (CHR ''='') w)) else None)
       (split_on (CHR ''&'') query)"

end
