(* ===== verification/AioStreams.thy ===== *)
theory AioStreams
  imports TorBoxClient Urls
begin

text \<open>
  The AIOStreams client (api/app/providers/aiostreams/client.py): the streams of a title through the
  search API or the Stremio add-on, behind the result cache, and the trigger of a stream URL. The HTTP
  transport and the clock are parameters over a world \<open>'w\<close>; the result cache is the modelled one.
\<close>

section \<open>Streams\<close>

record aio_stream =
  st_name :: "string option"
  st_title :: "string option"
  st_description :: "string option"
  st_url :: "string option"
  st_info_hash :: "string option"
  st_file_idx :: "int option"
  st_behavior_hints :: payload
  st_raw :: payload

definition stream_playable :: "aio_stream \<Rightarrow> bool" where
  "stream_playable st \<longleftrightarrow> st_url st \<noteq> None \<or> st_info_hash st \<noteq> None"

definition optional_str :: "json \<Rightarrow> string option" where
  "optional_str v = (case jstr v of None \<Rightarrow> None | Some t \<Rightarrow> if strip t = [] then None else Some t)"

definition aio_optional_int :: "json \<Rightarrow> int option" where
  "aio_optional_int v = jint v"

definition or_else :: "'a option \<Rightarrow> 'a option \<Rightarrow> 'a option" where
  "or_else a b = (case a of None \<Rightarrow> b | Some x \<Rightarrow> Some x)"

definition aio_stream_from_payload :: "payload \<Rightarrow> aio_stream" where
  "aio_stream_from_payload p =
     \<lparr>st_name = optional_str (jget p ''name''), st_title = optional_str (jget p ''title''),
      st_description = optional_str (jget p ''description''), st_url = optional_str (jget p ''url''),
      st_info_hash = optional_str (jget p ''infoHash''), st_file_idx = aio_optional_int (jget p ''fileIdx''),
      st_behavior_hints = (case jobj (jget p ''behaviorHints'') of None \<Rightarrow> [] | Some h \<Rightarrow> h), st_raw = p\<rparr>"

definition search_result_hints :: "payload \<Rightarrow> payload" where
  "search_result_hints p =
     (case optional_str (jget p ''filename'') of None \<Rightarrow> [] | Some f \<Rightarrow> [(''filename'', JStr f)]) @
     (case aio_optional_int (jget p ''seeders'') of None \<Rightarrow> [] | Some n \<Rightarrow> [(''seeders'', JInt n)]) @
     (case aio_optional_int (jget p ''size'') of None \<Rightarrow> [] | Some n \<Rightarrow> [(''videoSize'', JInt n)])"

definition aio_stream_from_search_result :: "payload \<Rightarrow> aio_stream" where
  "aio_stream_from_search_result p =
     \<lparr>st_name = or_else (optional_str (jget p ''name'')) (optional_str (jget p ''addon'')),
      st_title = optional_str (jget p ''filename''),
      st_description = or_else (optional_str (jget p ''description'')) (optional_str (jget p ''message'')),
      st_url = optional_str (jget p ''url''), st_info_hash = optional_str (jget p ''infoHash''),
      st_file_idx = aio_optional_int (jget p ''fileIdx''), st_behavior_hints = search_result_hints p, st_raw = p\<rparr>"

definition streams_from_payload :: "payload \<Rightarrow> aio_stream list result" where
  "streams_from_payload p = (case jlist (jget p ''streams'') of
     None \<Rightarrow> raise (AioStreamsClientError ''AIOStreams stream response did not include streams.'')
   | Some xs \<Rightarrow> return (map aio_stream_from_payload (List.map_filter jobj xs)))"

definition search_streams_from_payload :: "payload \<Rightarrow> aio_stream list result" where
  "search_streams_from_payload p =
     (if jget p ''success'' \<noteq> JBool True then raise (AioStreamsClientError ''AIOStreams Search API request failed.'')
      else case jobj (jget p ''data'') of
        None \<Rightarrow> raise (AioStreamsClientError ''AIOStreams Search API response did not include data.'')
      | Some data \<Rightarrow> (case jlist (jget data ''results'') of
          None \<Rightarrow> raise (AioStreamsClientError ''AIOStreams Search API response did not include results.'')
        | Some xs \<Rightarrow> return (map aio_stream_from_search_result (List.map_filter jobj xs))))"

record aio_manifest =
  am_id :: "string option"
  am_name :: "string option"
  am_version :: "string option"
  am_resources :: "string list"
  am_types :: "string list"

definition str_tuple :: "json \<Rightarrow> string list" where
  "str_tuple v = (case jlist v of None \<Rightarrow> [] | Some xs \<Rightarrow> List.map_filter jstr xs)"

definition manifest_from_payload :: "payload \<Rightarrow> aio_manifest" where
  "manifest_from_payload p =
     \<lparr>am_id = optional_str (jget p ''id''), am_name = optional_str (jget p ''name''),
      am_version = optional_str (jget p ''version''), am_resources = str_tuple (jget p ''resources''),
      am_types = str_tuple (jget p ''types'')\<rparr>"

section \<open>URLs\<close>

definition MANIFEST_SUFFIX :: string where "MANIFEST_SUFFIX = ''/manifest.json''"

definition aio_join_url :: "string \<Rightarrow> string \<Rightarrow> string" where
  "aio_join_url base_url path =
     (if endswith base_url MANIFEST_SUFFIX \<and> path = ''manifest.json'' then base_url
      else (if endswith base_url MANIFEST_SUFFIX then take (length base_url - length MANIFEST_SUFFIX) base_url else base_url)
           @ ''/'' @ lstrip_by (\<lambda>c. c = CHR ''/'') path)"

definition hex_groups_ok :: "string \<Rightarrow> bool" where
  "hex_groups_ok t \<longleftrightarrow> list_all (\<lambda>g. g \<noteq> [] \<and> list_all (\<lambda>c. hex_digit_value c \<noteq> None) g) (split_on (CHR ''_'') t)"

text \<open>\<open>UUID(value)\<close>, with the leniency of \<open>int(text, 16)\<close>.\<close>

definition is_uuid :: "string \<Rightarrow> bool" where
  "is_uuid value =
     (let h = replace_char (CHR ''-'') [] (strip_by (\<lambda>c. c \<in> set ''{}'')
                (replace_all ''uuid:'' [] (replace_all ''urn:'' [] value)));
          t = strip h;
          negative = startswith t ''-'';
          t1 = (if negative \<or> startswith t ''+'' then drop 1 t else t);
          t2 = (if startswith (casefold t1) ''0x'' then (if startswith (drop 2 t1) ''_'' then drop 3 t1 else drop 2 t1) else t1)
      in length h = 32 \<and> hex_groups_ok t2 \<and> (negative \<longrightarrow> set t2 \<subseteq> set ''0_''))"

record aio_search_api =
  sa_url :: string
  sa_username :: string
  sa_password :: string

definition AIOSTREAMS_CREDENTIAL_SEGMENTS :: nat where "AIOSTREAMS_CREDENTIAL_SEGMENTS = 2"

definition USES_NETLOC :: "string set" where
  "USES_NETLOC = {''ftp'', ''http'', ''gopher'', ''nntp'', ''telnet'', ''imap'', ''wais'', ''file'', ''mms'', ''https'',
     ''shttp'', ''snews'', ''prospero'', ''rtsp'', ''rtsps'', ''rtspu'', ''rsync'', ''svn'', ''svn+ssh'', ''sftp'', ''nfs'',
     ''git'', ''git+ssh'', ''ws'', ''wss'', ''itms-services''}"

text \<open>\<open>urlunparse\<close> of a scheme, a host and an absolute path.\<close>

definition url_of :: "string \<Rightarrow> string \<Rightarrow> string \<Rightarrow> string" where
  "url_of scheme netloc path =
     (if scheme = [] then [] else scheme @ '':'') @
     (if netloc \<noteq> [] \<or> scheme \<in> USES_NETLOC then ''//'' @ netloc else []) @ path"

definition search_api_from_manifest_url :: "string \<Rightarrow> aio_search_api option result" where
  "search_api_from_manifest_url base_url = bind_res (urlparse base_url) (\<lambda>u.
     let segments = filter (\<lambda>w. w \<noteq> []) (split_on (CHR ''/'') (url_path u))
     in if segments = [] \<or> casefold (last segments) \<noteq> ''manifest.json'' then return None
        else
          let path_segments = butlast segments;
              stremio = filter (\<lambda>i. casefold (path_segments ! i) = ''stremio'') [0..<length path_segments];
              (api_prefix, credentials) = (if stremio \<noteq> []
                 then (take (last stremio) path_segments, drop (Suc (last stremio)) path_segments)
                 else let n = length path_segments - AIOSTREAMS_CREDENTIAL_SEGMENTS
                      in (take n path_segments, drop n path_segments))
          in case credentials of
               [username, password] \<Rightarrow>
                 if \<not> is_uuid username then return None
                 else return (Some \<lparr>sa_url = url_of (url_scheme u) (url_netloc u)
                          (''/'' @ join ''/'' (api_prefix @ [''api'', ''v1'', ''search''])),
                        sa_username = username, sa_password = password\<rparr>)
             | _ \<Rightarrow> return None)"

definition is_safe_trigger_url :: "string \<Rightarrow> bool result" where
  "is_safe_trigger_url url = bind_res (urlparse url) (\<lambda>u.
     if url_scheme u \<notin> {''http'', ''https''} then return False
     else if url_has_userinfo u then return False
     else case url_hostname u of
       None \<Rightarrow> return False
     | Some hostname \<Rightarrow>
         if casefold hostname = ''localhost'' then return False
         else case parse_ip_address hostname of
           None \<Rightarrow> return True
         | Some a \<Rightarrow> return (\<not> ip_is_internal a))"

section \<open>The client\<close>

record 'w aio_env =
  ae_get :: "string \<Rightarrow> (string \<times> string) option \<Rightarrow> 'w \<Rightarrow> http_response result \<times> 'w"
  ae_trigger :: "string \<Rightarrow> (string \<times> string) list \<Rightarrow> 'w \<Rightarrow> (nat \<times> bool) result \<times> 'w"
  ae_monotonic :: "'w \<Rightarrow> time"

record 'w aio_state =
  ai_world :: 'w
  ai_cache :: "aio_stream result_cache"

type_synonym ('w, 'a) aio = "('w aio_state, 'a) eff"

record aio_client =
  ac_base_url :: string

definition aio_client_init :: "string \<Rightarrow> aio_client" where
  "aio_client_init base_url = \<lparr>ac_base_url = rstrip_by (\<lambda>c. c = CHR ''/'') base_url\<rparr>"

definition aio_world :: "('w \<Rightarrow> 'a result \<times> 'w) \<Rightarrow> ('w, 'a) aio" where
  "aio_world f = (\<lambda>s. case f (ai_world s) of (r, w) \<Rightarrow> (r, s\<lparr>ai_world := w\<rparr>))"

definition is_http_error :: "exn \<Rightarrow> bool" where
  "is_http_error e = (case e of HttpxError _ \<Rightarrow> True | _ \<Rightarrow> False)"

definition is_aio_error :: "exn \<Rightarrow> bool" where
  "is_aio_error e = (case e of AioStreamsClientError _ \<Rightarrow> True | _ \<Rightarrow> False)"

definition aio_payload :: "http_response \<Rightarrow> payload result" where
  "aio_payload r =
     (if is_error_status (rs_status r) then raise (AioStreamsClientError ''AIOStreams request failed.'')
      else case rs_json r of
        Inl (ValueError _) \<Rightarrow> raise (AioStreamsClientError ''AIOStreams response was not JSON.'')
      | Inl e \<Rightarrow> raise e
      | Inr v \<Rightarrow> (case jobj v of None \<Rightarrow> raise (AioStreamsClientError ''AIOStreams response was not an object.'')
           | Some p \<Rightarrow> return p))"

definition aio_get_json :: "'w aio_env \<Rightarrow> string \<Rightarrow> (string \<times> string) option \<Rightarrow> ('w, payload) aio" where
  "aio_get_json env url auth =
     eff_bind (eff_catch is_http_error (aio_world (ae_get env url auth))
         (\<lambda>_. eff_raise (AioStreamsClientError ''AIOStreams request failed.'')))
       (\<lambda>r. eff_lift (aio_payload r))"

definition aio_manifest_of :: "'w aio_env \<Rightarrow> aio_client \<Rightarrow> ('w, aio_manifest) aio" where
  "aio_manifest_of env c =
     eff_bind (aio_get_json env (aio_join_url (ac_base_url c) ''manifest.json'') None) (\<lambda>p. eff_return (manifest_from_payload p))"

definition search_api_streams :: "'w aio_env \<Rightarrow> aio_search_api \<Rightarrow> string \<Rightarrow> string \<Rightarrow> ('w, aio_stream list) aio" where
  "search_api_streams env api media_type media_id =
     eff_bind (aio_get_json env
         (sa_url api @ ''?'' @ urlencode [(''type'', media_type), (''id'', media_id), (''format'', ''true'')])
         (Some (sa_username api, sa_password api)))
       (\<lambda>p. eff_lift (search_streams_from_payload p))"

text \<open>\<open>quote(s, safe="")\<close>\<close>

definition quote_all :: "string \<Rightarrow> string" where
  "quote_all s = concat (map (\<lambda>c. if c = CHR '' '' then ''%20'' else quote_char c) s)"

definition legacy_streams :: "'w aio_env \<Rightarrow> aio_client \<Rightarrow> string \<Rightarrow> string \<Rightarrow> ('w, aio_stream list) aio" where
  "legacy_streams env c media_type media_id =
     eff_bind (aio_get_json env (aio_join_url (ac_base_url c)
         (''stream/'' @ quote_all media_type @ ''/'' @ quote_all media_id @ ''.json'')) None)
       (\<lambda>p. eff_lift (streams_from_payload p))"

definition stream_cache_key :: "aio_client \<Rightarrow> string \<Rightarrow> string \<Rightarrow> string" where
  "stream_cache_key c media_type media_id = join [CHR 0x1F] [ac_base_url c, media_type, media_id]"

definition cache_streams :: "'w aio_env \<Rightarrow> string \<Rightarrow> aio_stream list \<Rightarrow> ('w, unit) aio" where
  "cache_streams env key streams = eff_modify (\<lambda>s. s\<lparr>ai_cache := result_put (ae_monotonic env (ai_world s)) key streams (ai_cache s)\<rparr>)"

definition cached_streams_of :: "'w aio_env \<Rightarrow> string \<Rightarrow> ('w, aio_stream list option) aio" where
  "cached_streams_of env key = (\<lambda>s. case result_get (ae_monotonic env (ai_world s)) key (ai_cache s) of
     (r, cache) \<Rightarrow> (return r, s\<lparr>ai_cache := cache\<rparr>))"

definition aio_streams :: "'w aio_env \<Rightarrow> aio_client \<Rightarrow> string \<Rightarrow> string \<Rightarrow> ('w, aio_stream list) aio" where
  "aio_streams env c media_type media_id =
     (let key = stream_cache_key c media_type media_id
      in eff_bind (cached_streams_of env key) (\<lambda>cached. case cached of
           Some streams \<Rightarrow> eff_return streams
         | None \<Rightarrow>
             eff_bind (eff_lift (search_api_from_manifest_url (ac_base_url c))) (\<lambda>search_api.
             eff_bind (case search_api of
                 Some api \<Rightarrow> eff_catch is_aio_error (search_api_streams env api media_type media_id)
                     (\<lambda>_. legacy_streams env c media_type media_id)
               | None \<Rightarrow> legacy_streams env c media_type media_id) (\<lambda>streams.
             eff_then (cache_streams env key streams) (eff_return streams)))))"

definition trigger_stream_url :: "'w aio_env \<Rightarrow> string \<Rightarrow> ('w, nat \<times> bool) aio" where
  "trigger_stream_url env url =
     eff_bind (eff_lift (is_safe_trigger_url url)) (\<lambda>safe.
       if \<not> safe then eff_raise (AioStreamsClientError ''AIOStreams stream trigger URL is not allowed.'')
       else eff_bind (eff_catch is_http_error (aio_world (ae_trigger env url [(''Range'', ''bytes=0-0'')]))
              (\<lambda>_. eff_raise (AioStreamsClientError ''AIOStreams stream trigger failed.'')))
            (\<lambda>(status, redirected). if is_error_status status
               then eff_raise (AioStreamsClientError ''AIOStreams stream trigger failed.'')
               else eff_return (status, redirected)))"

section \<open>The trigger stays outside\<close>



text \<open>The other notations that resolvers accept for an internal address pass the check.\<close>

lemma trigger_accepts_short_address: "is_safe_trigger_url ''http://127.1/'' = return True"
proof -
  let ?u = "\<lparr>url_scheme = ''http'', url_netloc = ''127.1'', url_path = ''/'', url_query = []\<rparr>"
  have "urlparse ''http://127.1/'' = return ?u"
    by (simp add: urlparse_def urlsplit_def Let_def scheme_char_def is_alnum_def is_digit_def is_upper_def is_lower_def
        casefold_char_def code_def startswith_def netloc_ok_def before_def after_def partition_at_def rpartition_at_def
        without_params_def)
  moreover have "url_hostname ?u = Some ''127.1''"
    by (simp add: url_hostname_def before_def partition_at_def rpartition_at_def casefold_char_def is_upper_def code_def)
  moreover have "parse_ip_address ''127.1'' = None"
    by (simp add: parse_ip_address_def ipv4_value_def partition_at_def ipv6_value_def ipv6_parts_def)
  ultimately show ?thesis
    by (simp add: is_safe_trigger_url_def url_has_userinfo_def casefold_char_def is_upper_def code_def)
qed

end
