(* ===== verification/FailureGuard.thy ===== *)
theory FailureGuard
  imports Metrics
begin

text \<open>
  \<open>ResolverFailureGuard\<close> (api/app/resolver/failure_guard.py): a negative cache and a circuit
  breaker per library entry. The dictionaries keep Python's insertion order, which the eviction
  loop depends on. Each method runs under the guard's lock and is one step; the clock reading is an
  argument and the shared metrics object is passed through.
\<close>

record guard_config =
  negative_cache_seconds :: time
  circuit_failures :: int
  circuit_window_seconds :: time
  circuit_cooldown_seconds :: time
  max_entries :: int

record failure_state =
  failures :: "time list"
  circuit_open_until :: time

record guard =
  g_config :: guard_config
  negative_until :: "(string, time) odict"
  failure_states :: "(string, failure_state) odict"

text \<open>The dataclass defaults, with the constants of api/app/operations/defaults.py.\<close>

definition default_guard_config :: guard_config where
  "default_guard_config = \<lparr>negative_cache_seconds = 30, circuit_failures = 3,
     circuit_window_seconds = 120, circuit_cooldown_seconds = 60, max_entries = 2048\<rparr>"

definition validate_config :: "guard_config \<Rightarrow> unit result" where
  "validate_config c =
     (if negative_cache_seconds c \<le> 0 \<or> circuit_window_seconds c \<le> 0
      then raise (ValueError ''Resolver failure guard durations must be positive.'')
      else if circuit_failures c \<le> 0 \<or> circuit_cooldown_seconds c \<le> 0 \<or> max_entries c \<le> 0
      then raise (ValueError ''Resolver failure guard limits must be positive.'')
      else return ())"

definition guard_init :: "guard_config \<Rightarrow> guard result" where
  "guard_init c =
     bind_res (validate_config c)
       (\<lambda>_. return \<lparr>g_config = c, negative_until = [], failure_states = []\<rparr>)"

definition reconfigure :: "guard_config \<Rightarrow> guard \<Rightarrow> guard result" where
  "reconfigure c g =
     bind_res (validate_config c)
       (\<lambda>_. return (g\<lparr>g_config := c, negative_until := [], failure_states := []\<rparr>))"

definition prune_failures :: "guard_config \<Rightarrow> time \<Rightarrow> failure_state \<Rightarrow> failure_state" where
  "prune_failures c now st =
     (let st1 = st\<lparr>failures := popleft_until (now - circuit_window_seconds c) (failures st)\<rparr>
      in if circuit_open_until st1 \<le> now then st1\<lparr>circuit_open_until := 0\<rparr> else st1)"

text \<open>
  The oldest key of \<open>_failure_states\<close> goes, with its negative-cache entry, until the bound holds.
\<close>

fun evict_if_needed ::
  "nat \<Rightarrow> (string, failure_state) odict \<Rightarrow> (string, time) odict \<Rightarrow>
   (string, failure_state) odict \<times> (string, time) odict" where
  "evict_if_needed n [] neg = ([], neg)"
| "evict_if_needed n (p # fs) neg =
     (if n < length (p # fs) then evict_if_needed n fs (AList.delete (fst p) neg) else (p # fs, neg))"

definition circuit_open :: "time \<Rightarrow> string \<Rightarrow> guard \<Rightarrow> bool" where
  "circuit_open now e g =
     (case map_of (failure_states g) e of None \<Rightarrow> False | Some st \<Rightarrow> now < circuit_open_until st)"

definition negative_deadline :: "string \<Rightarrow> guard \<Rightarrow> time" where
  "negative_deadline e g = (case map_of (negative_until g) e of None \<Rightarrow> 0 | Some t \<Rightarrow> t)"

definition check :: "time \<Rightarrow> string \<Rightarrow> guard \<Rightarrow> metrics \<Rightarrow> unit result \<times> guard \<times> metrics" where
  "check now entry_id g m =
     (if circuit_open now entry_id g
      then (raise (ResolverTemporarilyUnavailableError
              ''Playback recovery is temporarily paused after repeated upstream failures.''),
            g, resolver_circuit_open_rejection m)
      else if negative_deadline entry_id g > now
      then (raise (ResolverTemporarilyUnavailableError
              ''Playback recovery recently failed; retry shortly.''),
            g, resolver_negative_cache_hit m)
      else (return (),
            g\<lparr>negative_until := AList.delete entry_id (negative_until g),
              failure_states := (case map_of (failure_states g) entry_id of
                 None \<Rightarrow> failure_states g
               | Some st \<Rightarrow> AList.update entry_id (prune_failures (g_config g) now st) (failure_states g))\<rparr>,
            m))"

definition trip :: "guard_config \<Rightarrow> time \<Rightarrow> failure_state \<Rightarrow> failure_state" where
  "trip c now st =
     (let st1 = prune_failures c now st;
          st2 = st1\<lparr>failures := failures st1 @ [now]\<rparr>
      in if circuit_failures c \<le> int (length (failures st2))
         then st2\<lparr>circuit_open_until := now + circuit_cooldown_seconds c\<rparr> else st2)"

definition record_failure :: "time \<Rightarrow> string \<Rightarrow> guard \<Rightarrow> guard" where
  "record_failure now entry_id g =
     (let c = g_config g;
          neg = AList.update entry_id (now + negative_cache_seconds c) (negative_until g);
          st = (case map_of (failure_states g) entry_id of
                  None \<Rightarrow> \<lparr>failures = [], circuit_open_until = 0\<rparr> | Some st \<Rightarrow> st);
          fs = AList.update entry_id (trip c now st) (failure_states g)
      in (case evict_if_needed (nat (max_entries c)) fs neg of
            (fs', neg') \<Rightarrow> g\<lparr>negative_until := neg', failure_states := fs'\<rparr>))"

definition record_success :: "string \<Rightarrow> guard \<Rightarrow> guard" where
  "record_success entry_id g =
     g\<lparr>negative_until := AList.delete entry_id (negative_until g),
       failure_states := AList.delete entry_id (failure_states g)\<rparr>"

definition guard_clear :: "guard \<Rightarrow> guard" where
  "guard_clear g = g\<lparr>negative_until := [], failure_states := []\<rparr>"

section \<open>Invariant\<close>

text \<open>
  Both dictionaries are bounded by the configured number of entries: every negative-cache key has
  a failure state, and the failure states are evicted down to the bound.
\<close>

definition guard_inv :: "guard \<Rightarrow> bool" where
  "guard_inv g \<longleftrightarrow>
     validate_config (g_config g) = return () \<and>
     od_ok (failure_states g) \<and> od_ok (negative_until g) \<and>
     set (od_keys (negative_until g)) \<subseteq> set (od_keys (failure_states g)) \<and>
     int (length (failure_states g)) \<le> max_entries (g_config g)"

datatype guard_event = GCheck time string | GFail time string | GSuccess string | GClear

fun guard_step :: "guard_event \<Rightarrow> guard \<times> metrics \<Rightarrow> guard \<times> metrics" where
  "guard_step (GCheck now e) (g, m) = snd (check now e g m)"
| "guard_step (GFail now e) (g, m) = (record_failure now e g, m)"
| "guard_step (GSuccess e) (g, m) = (record_success e g, m)"
| "guard_step GClear (g, m) = (guard_clear g, m)"

inductive guard_reachable :: "guard_config \<Rightarrow> guard \<times> metrics \<Rightarrow> bool" for c where
  start: "guard_init c = return g \<Longrightarrow> guard_reachable c (g, m)"
| step: "guard_reachable c s \<Longrightarrow> guard_reachable c (guard_step e s)"

inductive_cases guard_reachableE: "guard_reachable c s"

lemma validate_config_ok:
  "validate_config c = return () \<longleftrightarrow> 0 < negative_cache_seconds c \<and> 0 < circuit_window_seconds c \<and>
     0 < circuit_failures c \<and> 0 < circuit_cooldown_seconds c \<and> 0 < max_entries c"
  by (auto simp: validate_config_def not_le)

lemma evict_if_needed_eq:
  assumes "od_ok fs"
  shows "evict_if_needed n fs neg =
     (evict_oldest n fs,
      filter (\<lambda>p. fst p \<notin> set (od_keys (take (length fs - n) fs))) neg)"
  using assms
proof (induction n fs neg rule: evict_if_needed.induct)
  case (2 n p fs neg)
  then show ?case
    by (auto simp: od_ok_def Suc_diff_le AList.delete_eq intro!: filter_cong split: if_splits)
qed simp

lemma keys_evict:
  assumes "od_ok fs"
  shows "fst ` set (evict_oldest n fs) = fst ` set fs - fst ` set (take (length fs - n) fs)"
proof -
  have d: "fst ` set (take (length fs - n) fs) \<inter> fst ` set (drop (length fs - n) fs) = {}"
    using assms set_take_disj_set_drop_if_distinct [of "od_keys fs" "length fs - n" "length fs - n"]
    by (simp add: od_ok_def take_map drop_map)
  have "fst ` set fs = fst ` set (take (length fs - n) fs) \<union> fst ` set (drop (length fs - n) fs)"
    by (metis append_take_drop_id image_Un set_append)
  with d show ?thesis unfolding evict_oldest_drop by blast
qed

lemma record_failure_states:
  assumes "guard_inv g"
  shows "failure_states (record_failure now e g) =
    evict_oldest (nat (max_entries (g_config g)))
      (AList.update e (trip (g_config g) now (case map_of (failure_states g) e of
          None \<Rightarrow> \<lparr>failures = [], circuit_open_until = 0\<rparr> | Some st \<Rightarrow> st)) (failure_states g))"
  using assms by (simp add: record_failure_def Let_def guard_inv_def evict_if_needed_eq)

lemma guard_inv_init: "guard_init c = return g \<Longrightarrow> guard_inv g"
  by (auto simp: guard_init_def guard_inv_def bind_res_Inr_iff validate_config_ok)

lemma guard_inv_check [inv_intros]: "guard_inv g \<Longrightarrow> guard_inv (fst (snd (check now e g m)))"
proof -
  assume inv: "guard_inv g"
  have upd: "map fst (AList.update e st (failure_states g)) = map fst (failure_states g)"
    if "map_of (failure_states g) e = Some st'" for st st'
    using that by (simp add: update_keys image_iff map_of_eq_None_iff [symmetric] weak_map_of_SomeI)
      (metis fst_conv map_of_SomeD)
  then have len: "length (AList.update e st (failure_states g)) = length (failure_states g)"
    if "map_of (failure_states g) e = Some st'" for st st'
    using that by (metis length_map)
  have keys: "set (od_keys (AList.delete e (negative_until g))) \<subseteq> set (od_keys (failure_states g))"
    using inv by (auto simp: guard_inv_def)
  show ?thesis
  proof (cases "map_of (failure_states g) e")
    case None
    with inv keys show ?thesis by (simp add: check_def guard_inv_def)
  next
    case (Some st)
    with inv keys show ?thesis
      by (simp add: check_def guard_inv_def upd [OF Some] len [OF Some] del: set_map)
  qed
qed

lemma guard_inv_success [inv_intros]: "guard_inv g \<Longrightarrow> guard_inv (record_success e g)"
  using length_delete [of e "failure_states g"]
  by (auto simp: record_success_def guard_inv_def)

lemma guard_inv_clear [inv_intros]: "guard_inv g \<Longrightarrow> guard_inv (guard_clear g)"
  by (simp add: guard_clear_def guard_inv_def validate_config_ok)

lemma guard_inv_failure [inv_intros]: "guard_inv g \<Longrightarrow> guard_inv (record_failure now e g)"
proof -
  assume inv: "guard_inv g"
  let ?n = "nat (max_entries (g_config g))"
  define fs where "fs = AList.update e (trip (g_config g) now (case map_of (failure_states g) e of
    None \<Rightarrow> \<lparr>failures = [], circuit_open_until = 0\<rparr> | Some st \<Rightarrow> st)) (failure_states g)"
  define neg where "neg = AList.update e (now + negative_cache_seconds (g_config g)) (negative_until g)"
  have ok: "od_ok fs" "od_ok neg" using inv by (simp_all add: fs_def neg_def guard_inv_def)
  have sub: "fst ` set neg \<subseteq> fst ` set fs" using inv by (auto simp: fs_def neg_def guard_inv_def)
  have pos: "0 < max_entries (g_config g)" using inv by (simp add: guard_inv_def validate_config_ok)
  have eq: "record_failure now e g = g\<lparr>failure_states := evict_oldest ?n fs,
      negative_until := filter (\<lambda>p. fst p \<notin> set (od_keys (take (length fs - ?n) fs))) neg\<rparr>"
    by (simp add: record_failure_def Let_def fs_def [symmetric] neg_def [symmetric]
        evict_if_needed_eq ok)
  have "fst ` set (filter (\<lambda>p. fst p \<notin> fst ` set (take (length fs - ?n) fs)) neg)
      \<subseteq> fst ` set (evict_oldest ?n fs)"
    using sub by (auto simp: keys_evict [OF ok(1)])
  moreover have "od_ok (filter P neg)" for P
    using ok(2) by (simp add: od_ok_def distinct_map_filter)
  ultimately show ?thesis
    using inv ok pos unfolding guard_inv_def by (simp add: eq length_evict_oldest)
qed

lemma guard_reachable_inv: "guard_reachable c s \<Longrightarrow> guard_inv (fst s)"
proof (induction rule: guard_reachable.induct)
  case (start g m)
  then show ?case by (simp add: guard_inv_init)
next
  case (step s e)
  then show ?case
    by (cases s; cases e) (auto intro: inv_intros)
qed

lemma guard_reachable_config: "guard_reachable c s \<Longrightarrow> g_config (fst s) = c"
proof (induction rule: guard_reachable.induct)
  case (start g m)
  then show ?case by (auto simp: guard_init_def bind_res_Inr_iff)
next
  case (step s e)
  then show ?case
    by (cases s; cases e) (auto simp: check_def record_failure_def record_success_def guard_clear_def
        Let_def split: prod.splits)
qed

section \<open>The entry that failed\<close>

text \<open>Eviction can only take the other entries: a new entry goes to the end.\<close>

lemma record_failure_keeps:
  assumes "guard_inv g"
  shows "map_of (failure_states (record_failure now e g)) e =
      Some (trip (g_config g) now (case map_of (failure_states g) e of
          None \<Rightarrow> \<lparr>failures = [], circuit_open_until = 0\<rparr> | Some st \<Rightarrow> st))" (is ?A)
    and "negative_deadline e (record_failure now e g) = now + negative_cache_seconds (g_config g)" (is ?B)
proof -
  let ?n = "nat (max_entries (g_config g))"
  define st where "st = trip (g_config g) now (case map_of (failure_states g) e of
          None \<Rightarrow> \<lparr>failures = [], circuit_open_until = 0\<rparr> | Some st \<Rightarrow> st)"
  define fs where "fs = AList.update e st (failure_states g)"
  have ok: "od_ok fs" and len: "int (length (failure_states g)) \<le> max_entries (g_config g)"
    and pos: "0 < max_entries (g_config g)"
    using assms by (simp_all add: fs_def guard_inv_def validate_config_ok)
  have spare: "e \<notin> fst ` set (take (length fs - ?n) fs)"
  proof (cases "e \<in> set (od_keys (failure_states g))")
    case True
    then have "od_keys fs = od_keys (failure_states g)" by (simp add: fs_def update_keys)
    then have "length fs \<le> ?n" using len by (metis length_map nat_le_iff le_nat_iff nat_int_comparison(3) nat_mono nat_int)
    then show ?thesis by simp
  next
    case False
    then have "fs = failure_states g @ [(e, st)]" by (simp add: fs_def update_absent)
    then show ?thesis using False pos by (auto dest: in_set_takeD)
  qed
  have "e \<in> fst ` set (evict_oldest ?n fs)"
    unfolding keys_evict [OF ok] using spare by (simp add: fs_def)
  then obtain x where x: "map_of (evict_oldest ?n fs) e = Some x"
    by (metis map_of_eq_None_iff option.exhaust)
  with distinct_map_of_evict [OF ok x] have "x = st" by (simp add: fs_def update_conv')
  with x show ?A
    by (simp add: record_failure_states [OF assms] fs_def st_def)
  have "negative_until (record_failure now e g) =
      filter (\<lambda>p. fst p \<notin> set (od_keys (take (length fs - ?n) fs)))
        (AList.update e (now + negative_cache_seconds (g_config g)) (negative_until g))"
    by (simp add: record_failure_def Let_def evict_if_needed_eq [OF ok] flip: st_def fs_def)
  then have "map_of (negative_until (record_failure now e g)) e =
      map_of (AList.update e (now + negative_cache_seconds (g_config g)) (negative_until g)) e"
    using spare by (simp add: map_of_filter_key
        [where P = "\<lambda>k. k \<notin> fst ` set (take (length fs - nat (max_entries (g_config g))) fs)"])
  then show ?B by (simp add: negative_deadline_def update_conv')
qed

lemma config_record_failure [simp]: "g_config (record_failure now e g) = g_config g"
  by (simp add: record_failure_def Let_def split: prod.splits)

lemma check_raises_iff:
  "fst (check now e g m) = return () \<longleftrightarrow> \<not> circuit_open now e g \<and> negative_deadline e g \<le> now"
  by (auto simp: check_def)

text \<open>What a burst of failures leaves in the entry's state: the recorded times are still there.\<close>

lemma burst_failures:
  assumes "guard_inv g" "sorted ts" "ts \<noteq> []" "last ts - hd ts < circuit_window_seconds (g_config g)"
  shows "\<exists>st. map_of (failure_states (fold (\<lambda>t. record_failure t e) ts g)) e = Some st \<and>
     guard_inv (fold (\<lambda>t. record_failure t e) ts g) \<and>
     g_config (fold (\<lambda>t. record_failure t e) ts g) = g_config g \<and>
     (\<exists>old. failures st = old @ ts) \<and>
     (circuit_failures (g_config g) \<le> int (length ts) \<longrightarrow>
        circuit_open_until st = last ts + circuit_cooldown_seconds (g_config g))"
  using assms(2-)
proof (induction ts rule: rev_induct)
  case (snoc t ts)
  let ?g = "fold (\<lambda>t. record_failure t e) ts g"
  let ?st = "case map_of (failure_states ?g) e of
     None \<Rightarrow> \<lparr>failures = [], circuit_open_until = 0\<rparr> | Some st \<Rightarrow> st"
  let ?c = "g_config g"
  have inv: "guard_inv ?g" "g_config ?g = ?c" and old: "\<exists>old. failures ?st = old @ ts" if "ts \<noteq> []"
  proof -
    have "last ts - hd ts < circuit_window_seconds ?c"
    proof -
      have "last ts \<le> t" using snoc.prems(1) that by (auto simp: sorted_append)
      then show ?thesis using snoc.prems(3) that by simp
    qed
    with snoc that show "guard_inv ?g" "g_config ?g = ?c" "\<exists>old. failures ?st = old @ ts"
      by (auto simp: sorted_append)
  qed
  have inv': "guard_inv ?g" "g_config ?g = ?c" using inv assms(1) by (cases "ts = []"; simp)+
  have recent: "\<forall>u\<in>set ts. t - circuit_window_seconds ?c < u"
  proof
    fix u assume "u \<in> set ts"
    moreover from this have "hd ts \<le> u" using snoc.prems(1) by (cases ts) (auto simp: sorted_append)
    moreover have "ts \<noteq> []" using \<open>u \<in> set ts\<close> by auto
    ultimately show "t - circuit_window_seconds ?c < u" using snoc.prems(3) by simp
  qed
  have keep: "\<exists>old. popleft_until (t - circuit_window_seconds ?c) (old' @ ts) = old @ ts" for old'
  proof (induction old')
    case Nil
    have "popleft_until (t - circuit_window_seconds ?c) ts = ts" using recent by (cases ts) auto
    then show ?case by simp
  next
    case (Cons a old')
    then show ?case by (metis append_Cons popleft_until.simps(2))
  qed
  have "\<exists>old'. failures ?st = old' @ ts" using old by (cases "ts = []") auto
  then obtain old' where "failures ?st = old' @ ts" ..
  with keep obtain o2 where
    o2: "popleft_until (t - circuit_window_seconds ?c) (failures ?st) = o2 @ ts" by metis
  have st: "map_of (failure_states (record_failure t e ?g)) e = Some (trip ?c t ?st)"
    using record_failure_keeps(1) [OF inv'(1), of t e] inv'(2) by simp
  have "failures (trip ?c t ?st) = o2 @ ts @ [t]"
    by (simp add: trip_def prune_failures_def Let_def o2)
  moreover have "circuit_failures ?c \<le> int (length (ts @ [t])) \<longrightarrow>
      circuit_open_until (trip ?c t ?st) = t + circuit_cooldown_seconds ?c"
    by (auto simp: trip_def prune_failures_def Let_def o2)
  ultimately show ?case
    using st inv' guard_inv_failure [OF inv'(1)] by auto
qed simp

section \<open>What the resolver relies on\<close>

text \<open>C2. The circuit breaker opens: once an entry failed as often as the configured limit within
  the configured window, every attempt is refused until the cooldown since the last failure has
  passed, whatever state the guard was in before.\<close>

theorem circuit_opens:
  assumes "guard_reachable c (g, m0)"
    and "sorted ts" "last ts - hd ts < circuit_window_seconds c"
    and "int (length ts) = circuit_failures c"
    and "now < last ts + circuit_cooldown_seconds c"
  shows "fst (check now entry_id (fold (\<lambda>t. record_failure t entry_id) ts g) m) =
     raise (ResolverTemporarilyUnavailableError
       ''Playback recovery is temporarily paused after repeated upstream failures.'')"
proof -
  have inv: "guard_inv g" and cfg: "g_config g = c"
    using guard_reachable_inv [OF assms(1)] guard_reachable_config [OF assms(1)] by simp_all
  have "ts \<noteq> []" using inv cfg assms(4) by (auto simp: guard_inv_def validate_config_ok)
  from burst_failures [OF inv assms(2) this, of entry_id] assms(3-5) cfg show ?thesis
    by (auto simp: check_def circuit_open_def)
qed

theorem circuit_opens_witness:
  "\<exists>g. guard_init default_guard_config = return g \<and>
     fst (check 80 ''e'' (fold (\<lambda>t. record_failure t ''e'') [1, 2, 30] g) metrics_init) =
       raise (ResolverTemporarilyUnavailableError
         ''Playback recovery is temporarily paused after repeated upstream failures.'')"
proof -
  obtain g where g: "guard_init default_guard_config = return g"
    by (simp add: guard_init_def validate_config_def default_guard_config_def)
  have "fst (check 80 ''e'' (fold (\<lambda>t. record_failure t ''e'') [1, 2, 30] g) metrics_init) =
       raise (ResolverTemporarilyUnavailableError
         ''Playback recovery is temporarily paused after repeated upstream failures.'')"
    by (rule circuit_opens [OF guard_reachable.start [OF g, of metrics_init]])
      (simp_all add: default_guard_config_def)
  with g show ?thesis by blast
qed

text \<open>C11. The negative cache: after one failure the entry is refused for the configured number of
  seconds, and a success clears everything the guard holds against the entry, so that the next
  attempt goes through at any time.\<close>

theorem failure_then_success:
  assumes "guard_reachable c (g, m0)" "now < failed_at + negative_cache_seconds c"
  shows "\<not> returned (fst (check now entry_id (record_failure failed_at entry_id g) m)) \<and>
     (0 \<le> later \<longrightarrow>
        check later entry_id (record_success entry_id (record_failure failed_at entry_id g)) m
        = (return (), record_success entry_id (record_failure failed_at entry_id g), m))"
proof -
  have inv: "guard_inv g" and cfg: "g_config g = c"
    using guard_reachable_inv [OF assms(1)] guard_reachable_config [OF assms(1)] by simp_all
  have "\<not> returned (fst (check now entry_id (record_failure failed_at entry_id g) m))"
    using record_failure_keeps(2) [OF inv, of entry_id failed_at] assms(2) cfg
    by (auto simp: check_def)
  moreover have "check later entry_id (record_success entry_id g') m
      = (return (), record_success entry_id g', m)" if "0 \<le> later" for g'
    using that by (simp add: check_def record_success_def circuit_open_def negative_deadline_def
        delete_conv' AList.delete_idem)
  ultimately show ?thesis by blast
qed

theorem failure_then_success_witness:
  "\<exists>g. guard_init default_guard_config = return g \<and>
     \<not> returned (fst (check 31 ''e'' (record_failure 2 ''e'' g) metrics_init))"
proof -
  obtain g where g: "guard_init default_guard_config = return g"
    by (simp add: guard_init_def validate_config_def default_guard_config_def)
  have "\<not> returned (fst (check 31 ''e'' (record_failure 2 ''e'' g) metrics_init))"
    using failure_then_success [OF guard_reachable.start [OF g, of metrics_init], of 31 2 "''e''" metrics_init 0]
    by (simp add: default_guard_config_def)
  with g show ?thesis by blast
qed

text \<open>The guard's memory is bounded: in every state it can reach, both dictionaries hold at most
  the configured number of entries, each entry once.\<close>

theorem guard_bounded:
  assumes "guard_reachable c (g, m)"
  shows "int (length (failure_states g)) \<le> max_entries c \<and>
     int (length (negative_until g)) \<le> max_entries c \<and>
     distinct (od_keys (failure_states g)) \<and> distinct (od_keys (negative_until g))"
proof -
  have inv: "guard_inv g" and cfg: "g_config g = c"
    using guard_reachable_inv [OF assms] guard_reachable_config [OF assms] by simp_all
  have "length (negative_until g) \<le> card (set (od_keys (failure_states g)))"
    using inv by (intro od_keys_bound) (auto simp: guard_inv_def)
  then have "length (negative_until g) \<le> length (failure_states g)"
    by (metis card_length length_map order_trans)
  with inv cfg show ?thesis by (auto simp: guard_inv_def od_ok_def)
qed

theorem guard_bounded_witness:
  "\<exists>g m. guard_reachable (default_guard_config\<lparr>max_entries := 1\<rparr>) (g, m) \<and>
     failure_states g \<noteq> [] \<and> int (length (failure_states g)) \<le> 1"
proof -
  let ?c = "default_guard_config\<lparr>max_entries := 1\<rparr>"
  obtain g0 where g0: "guard_init ?c = return g0" "g_config g0 = ?c" "failure_states g0 = []"
    by (simp add: guard_init_def validate_config_def default_guard_config_def)
  define g where "g = record_failure 3 ''b'' (record_failure 2 ''a'' g0)"
  have "guard_reachable ?c (guard_step (GFail 3 ''b'') (guard_step (GFail 2 ''a'') (g0, metrics_init)))"
    by (intro guard_reachable.intros g0)
  then have "guard_reachable ?c (g, metrics_init)" by (simp add: g_def)
  moreover have "failure_states g \<noteq> []"
    by (simp add: g_def record_failure_def g0 Let_def default_guard_config_def)
  moreover have "int (length (failure_states g)) \<le> 1"
    using guard_bounded [OF \<open>guard_reachable ?c (g, metrics_init)\<close>] by simp
  ultimately show ?thesis by blast
qed

end
