(* ===== verification/FileStore.thy ===== *)
theory FileStore
  imports Effects PathLib OrderedDict "HOL-Library.List_Lexorder" "HOL-Library.Char_ord"
begin

text \<open>
  The file system below the library root as the program uses it (\<open>pathlib\<close>, \<open>os\<close>, \<open>shutil\<close>,
  \<open>tempfile\<close>): directories and files under absolute names, without symbolic links, so that
  \<open>resolve\<close> only removes \<open>..\<close>. A call fails with \<open>OSError\<close> as POSIX does (missing or
  existing names, files where directories are needed, directories that are not empty); failures
  of the disk itself are not modelled. The association list is the order in which a directory
  walk meets the names.
\<close>

datatype node = Dir | File string

type_synonym fpath = "seg list"

record fs =
  fs_cwd :: fpath
  fs_nodes :: "(fpath, node) odict"

type_synonym 'a io = "(fs, 'a) eff"

definition node_at :: "fs \<Rightarrow> fpath \<Rightarrow> node option" where
  "node_at s p = (if p = [] then Some Dir else map_of (fs_nodes s) p)"

definition file_content :: "fs \<Rightarrow> fpath \<Rightarrow> string option" where
  "file_content s p = (case node_at s p of Some (File c) \<Rightarrow> Some c | _ \<Rightarrow> None)"

definition path_exists :: "fs \<Rightarrow> fpath \<Rightarrow> bool" where
  "path_exists s p \<longleftrightarrow> node_at s p \<noteq> None"

definition is_file :: "fs \<Rightarrow> fpath \<Rightarrow> bool" where
  "is_file s p \<longleftrightarrow> file_content s p \<noteq> None"

definition is_dir :: "fs \<Rightarrow> fpath \<Rightarrow> bool" where
  "is_dir s p \<longleftrightarrow> node_at s p = Some Dir"

definition has_children :: "fs \<Rightarrow> fpath \<Rightarrow> bool" where
  "has_children s p \<longleftrightarrow> list_ex (\<lambda>(q, n). is_prefix p q \<and> q \<noteq> p) (fs_nodes s)"

definition resolve :: "fs \<Rightarrow> path \<Rightarrow> fpath" where
  "resolve s p = norm_segs [] (case p of Abs ps \<Rightarrow> ps | Rel ps \<Rightarrow> fs_cwd s @ ps)"

text \<open>A name below a file: POSIX answers ENOTDIR, which \<open>missing_ok\<close> does not cover.\<close>

definition below_file :: "fs \<Rightarrow> fpath \<Rightarrow> bool" where
  "below_file s p \<longleftrightarrow> list_ex (\<lambda>(q, n). n \<noteq> Dir \<and> is_prefix q p \<and> q \<noteq> p) (fs_nodes s)"

section \<open>Operations\<close>

definition read_file :: "fpath \<Rightarrow> string io" where
  "read_file p = (\<lambda>s. case file_content s p of
     None \<Rightarrow> (raise (OSError ''cannot read''), s) | Some c \<Rightarrow> (return c, s))"

definition unlink :: "bool \<Rightarrow> fpath \<Rightarrow> unit io" where
  "unlink missing_ok p = (\<lambda>s. case node_at s p of
     None \<Rightarrow> if missing_ok \<and> \<not> below_file s p then (return (), s)
             else (raise (OSError ''no such file''), s)
   | Some Dir \<Rightarrow> (raise (OSError ''is a directory''), s)
   | Some (File c) \<Rightarrow> (return (), s\<lparr>fs_nodes := AList.delete p (fs_nodes s)\<rparr>))"

definition rmdir :: "fpath \<Rightarrow> unit io" where
  "rmdir p = (\<lambda>s. if p = [] then (raise (OSError ''busy''), s)
     else if node_at s p \<noteq> Some Dir then (raise (OSError ''not a directory''), s)
     else if has_children s p then (raise (OSError ''directory not empty''), s)
     else (return (), s\<lparr>fs_nodes := AList.delete p (fs_nodes s)\<rparr>))"

text \<open>\<open>mkdir(parents=True, exist_ok=True)\<close>, from the root downwards.\<close>

fun mkdirs :: "fpath \<Rightarrow> fpath \<Rightarrow> unit io" where
  "mkdirs up [] s = (return (), s)"
| "mkdirs up (w # ws) s =
     (case node_at s (up @ [w]) of
        None \<Rightarrow> mkdirs (up @ [w]) ws (s\<lparr>fs_nodes := fs_nodes s @ [(up @ [w], Dir)]\<rparr>)
      | Some Dir \<Rightarrow> mkdirs (up @ [w]) ws s
      | Some (File c) \<Rightarrow> (raise (OSError ''not a directory''), s))"

definition mkdir_parents :: "bool \<Rightarrow> fpath \<Rightarrow> unit io" where
  "mkdir_parents exist_ok p = (\<lambda>s.
     if \<not> exist_ok \<and> path_exists s p then (raise (OSError ''file exists''), s) else mkdirs [] p s)"

definition put_file :: "fpath \<Rightarrow> string \<Rightarrow> fs \<Rightarrow> fs" where
  "put_file p c s = s\<lparr>fs_nodes := AList.update p (File c) (fs_nodes s)\<rparr>"

text \<open>
  \<open>tempfile.mkstemp(prefix, suffix, dir)\<close> chooses an unused name at random; here it is a name
  longer than every name in use.
\<close>

definition temp_name :: "fs \<Rightarrow> fpath \<Rightarrow> string" where
  "temp_name s target = ''.'' @ last target @ ''.'' @
     replicate (sum_list (map (\<lambda>(p, n). length (concat p)) (fs_nodes s))) (CHR ''a'') @ ''.tmp''"

text \<open>\<open>os.replace(src, dst)\<close>\<close>

definition move_nodes :: "fpath \<Rightarrow> fpath \<Rightarrow> fs \<Rightarrow> fs" where
  "move_nodes src dst s = s\<lparr>fs_nodes :=
     map (\<lambda>(q, n). (if is_prefix src q then dst @ drop (length src) q else q, n))
       (AList.delete dst (fs_nodes s))\<rparr>"

definition replace_path :: "fpath \<Rightarrow> fpath \<Rightarrow> unit io" where
  "replace_path src dst = (\<lambda>s.
     if src = [] \<or> dst = [] \<or> node_at s src = None \<or> node_at s (butlast dst) \<noteq> Some Dir
     then (raise (OSError ''cannot rename''), s)
     else if src = dst then (return (), s)
     else if is_prefix src dst then (raise (OSError ''invalid argument''), s)
     else (case (node_at s src, node_at s dst) of
        (Some (File c), Some Dir) \<Rightarrow> (raise (OSError ''is a directory''), s)
      | (Some Dir, Some (File c)) \<Rightarrow> (raise (OSError ''not a directory''), s)
      | (Some Dir, Some Dir) \<Rightarrow>
          if has_children s dst then (raise (OSError ''directory not empty''), s)
          else (return (), move_nodes src dst s)
      | _ \<Rightarrow> (return (), move_nodes src dst s)))"

definition rmtree :: "fpath \<Rightarrow> unit io" where
  "rmtree p = (\<lambda>s. if node_at s p \<noteq> Some Dir then (raise (OSError ''not a directory''), s)
     else (return (), s\<lparr>fs_nodes := filter (\<lambda>(q, n). \<not> is_prefix p q) (fs_nodes s)\<rparr>))"

text \<open>\<open>dir.rglob("*")\<close> and \<open>dir.rglob("*.strm")\<close>: every name below the directory.\<close>

definition rglob_all :: "fs \<Rightarrow> fpath \<Rightarrow> fpath list" where
  "rglob_all s p = filter (\<lambda>q. is_prefix p q \<and> q \<noteq> p) (od_keys (fs_nodes s))"

definition rglob_strm :: "fs \<Rightarrow> fpath \<Rightarrow> fpath list" where
  "rglob_strm s p = filter (\<lambda>q. endswith (last q) ''.strm'') (rglob_all s p)"

section \<open>Atomic writes (api/app/library/atomic_io.py)\<close>

definition atomic_write_bytes :: "fpath \<Rightarrow> string \<Rightarrow> unit io" where
  "atomic_write_bytes target content =
     eff_then (mkdir_parents True (butlast target))
       (\<lambda>s. let temporary = butlast target @ [temp_name s target]
            in eff_finally
                 (eff_then (eff_modify (put_file temporary content)) (replace_path temporary target))
                 (\<lambda>s'. snd (unlink True temporary s')) s)"

definition atomic_write_text :: "fpath \<Rightarrow> string \<Rightarrow> unit io" where
  "atomic_write_text target content = atomic_write_bytes target content"

section \<open>Well-formed stores\<close>

definition wf_fs :: "fs \<Rightarrow> bool" where
  "wf_fs s \<longleftrightarrow> od_ok (fs_nodes s) \<and> [] \<notin> fst ` set (fs_nodes s) \<and>
     (\<forall>p\<in>fst ` set (fs_nodes s). node_at s (butlast p) = Some Dir)"

definition writable :: "fs \<Rightarrow> fpath \<Rightarrow> bool" where
  "writable s p \<longleftrightarrow> p \<noteq> [] \<and> node_at s p \<noteq> Some Dir \<and> \<not> below_file s p"

lemma node_at_Nil [simp]: "node_at s [] = Some Dir"
  by (simp add: node_at_def)

lemma node_at_in: "wf_fs s \<Longrightarrow> (p, n) \<in> set (fs_nodes s) \<Longrightarrow> node_at s p = Some n \<and> p \<noteq> []"
  by (force simp: wf_fs_def node_at_def od_ok_def)

lemma node_at_Some: "node_at s p = Some n \<Longrightarrow> p \<noteq> [] \<Longrightarrow> (p, n) \<in> set (fs_nodes s)"
  by (simp add: node_at_def map_of_SomeD)

lemma node_parent: "wf_fs s \<Longrightarrow> node_at s p = Some n \<Longrightarrow> node_at s (butlast p) = Some Dir"
  using node_at_Some [of s p n] by (cases "p = []") (auto simp: wf_fs_def intro: rev_image_eqI)

lemma dirs_above:
  assumes "wf_fs s" "node_at s (q @ r) = Some n" "r \<noteq> []"
  shows "node_at s q = Some Dir"
  using assms(2,3)
proof (induction r arbitrary: n rule: rev_induct)
  case (snoc w r)
  have "node_at s (q @ r) = Some Dir"
    using node_parent [OF assms(1) snoc.prems(1)] by (simp add: butlast_append)
  then show ?case using snoc.IH by (cases "r = []") auto
qed simp

lemma dirs_prefix:
  "wf_fs s \<Longrightarrow> node_at s p = Some Dir \<Longrightarrow> is_prefix q p \<Longrightarrow> node_at s q = Some Dir"
  by (auto simp: is_prefix_iff) (metis append_Nil2 dirs_above)

lemma below_file_iff:
  "wf_fs s \<Longrightarrow> below_file s p \<longleftrightarrow> (\<exists>q c. node_at s q = Some (File c) \<and> is_prefix q p \<and> q \<noteq> p)"
proof
  assume wf: "wf_fs s" and "below_file s p"
  then obtain q n where "(q, n) \<in> set (fs_nodes s)" "n \<noteq> Dir" "is_prefix q p" "q \<noteq> p"
    by (auto simp: below_file_def list_ex_iff)
  with node_at_in [OF wf] show "\<exists>q c. node_at s q = Some (File c) \<and> is_prefix q p \<and> q \<noteq> p"
    by (cases n) blast+
next
  assume "\<exists>q c. node_at s q = Some (File c) \<and> is_prefix q p \<and> q \<noteq> p"
  then obtain q c where "node_at s q = Some (File c)" "is_prefix q p" "q \<noteq> p" by blast
  moreover from this have "(q, File c) \<in> set (fs_nodes s)" by (cases "q = []") (auto dest: node_at_Some)
  ultimately show "below_file s p" by (force simp: below_file_def list_ex_iff)
qed

section \<open>What the operations do\<close>

lemma wf_snoc_dir:
  assumes "wf_fs s" "node_at s up = Some Dir" "node_at s (up @ [w]) = None"
  shows "wf_fs (s\<lparr>fs_nodes := fs_nodes s @ [(up @ [w], Dir)]\<rparr>)" (is "wf_fs ?s")
    and "node_at (s\<lparr>fs_nodes := fs_nodes s @ [(up @ [w], Dir)]\<rparr>) q
         = (if q = up @ [w] then Some Dir else node_at s q)"
proof -
  have fresh: "map_of (fs_nodes s) (up @ [w]) = None" using assms(3) by (simp add: node_at_def)
  show at: "node_at ?s q = (if q = up @ [w] then Some Dir else node_at s q)" for q
    using fresh by (auto simp: node_at_def map_add_def split: option.splits)
  have "up @ [w] \<notin> fst ` set (fs_nodes s)" using fresh by (simp add: map_of_eq_None_iff)
  then have "od_ok (fs_nodes ?s)" "[] \<notin> fst ` set (fs_nodes ?s)"
    using assms(1) by (auto simp: wf_fs_def od_ok_def)
  moreover have "node_at ?s (butlast p) = Some Dir" if "p \<in> fst ` set (fs_nodes ?s)" for p
    using that assms(1,2) at by (auto simp: wf_fs_def)
  ultimately show "wf_fs ?s" unfolding wf_fs_def by blast
qed

lemma mkdirs_run:
  assumes "wf_fs s" "node_at s up = Some Dir"
    and "\<And>q c. is_prefix q (up @ ws) \<Longrightarrow> node_at s q \<noteq> Some (File c)"
  shows "\<exists>news. mkdirs up ws s = (return (), s\<lparr>fs_nodes := fs_nodes s @ news\<rparr>) \<and>
     wf_fs (s\<lparr>fs_nodes := fs_nodes s @ news\<rparr>) \<and>
     (\<forall>q. node_at (s\<lparr>fs_nodes := fs_nodes s @ news\<rparr>) q
        = (if is_prefix q (up @ ws) then Some Dir else node_at s q))"
  using assms
proof (induction ws arbitrary: up s)
  case Nil
  then have "\<forall>q. node_at s q = (if is_prefix q up then Some Dir else node_at s q)"
    using dirs_prefix [OF Nil.prems(1,2)] by simp
  with Nil show ?case by (auto intro!: exI [of _ "[]"])
next
  case (Cons w ws)
  let ?p = "up @ [w]"
  have notfile: "node_at s ?p \<noteq> Some (File c)" for c
    using Cons.prems(3) [of ?p c] by (simp add: is_prefix_def)
  show ?case
  proof (cases "node_at s ?p")
    case None
    let ?s = "s\<lparr>fs_nodes := fs_nodes s @ [(?p, Dir)]\<rparr>"
    note new = wf_snoc_dir [OF Cons.prems(1,2) None]
    have "\<exists>news. mkdirs ?p ws ?s = (return (), ?s\<lparr>fs_nodes := fs_nodes ?s @ news\<rparr>) \<and>
       wf_fs (?s\<lparr>fs_nodes := fs_nodes ?s @ news\<rparr>) \<and>
       (\<forall>q. node_at (?s\<lparr>fs_nodes := fs_nodes ?s @ news\<rparr>) q
          = (if is_prefix q (?p @ ws) then Some Dir else node_at ?s q))"
      using Cons.prems(3) new by (intro Cons.IH) auto
    then obtain news where n: "mkdirs ?p ws ?s = (return (), ?s\<lparr>fs_nodes := fs_nodes ?s @ news\<rparr>)"
      "wf_fs (?s\<lparr>fs_nodes := fs_nodes ?s @ news\<rparr>)"
      "\<forall>q. node_at (?s\<lparr>fs_nodes := fs_nodes ?s @ news\<rparr>) q
          = (if is_prefix q (?p @ ws) then Some Dir else node_at ?s q)" by blast
    have "is_prefix ?p (up @ w # ws)" by (simp add: is_prefix_def)
    then show ?thesis
      using n None new(2) by (intro exI [of _ "(?p, Dir) # news"]) auto
  next
    case (Some n)
    with notfile have d: "node_at s ?p = Some Dir" by (cases n) auto
    have "\<exists>news. mkdirs ?p ws s = (return (), s\<lparr>fs_nodes := fs_nodes s @ news\<rparr>) \<and>
       wf_fs (s\<lparr>fs_nodes := fs_nodes s @ news\<rparr>) \<and>
       (\<forall>q. node_at (s\<lparr>fs_nodes := fs_nodes s @ news\<rparr>) q
          = (if is_prefix q (?p @ ws) then Some Dir else node_at s q))"
      using Cons.prems d by (intro Cons.IH) auto
    with d show ?thesis by simp
  qed
qed

lemma temp_name_fresh: "node_at s (d @ [temp_name s t]) = None"
proof (rule ccontr)
  let ?p = "d @ [temp_name s t]"
  assume "node_at s ?p \<noteq> None"
  then obtain n where "(?p, n) \<in> set (fs_nodes s)" by (auto dest: node_at_Some)
  then have "length (concat ?p) \<in> set (map (\<lambda>(p, n). length (concat p)) (fs_nodes s))" by force
  then have "length (concat ?p) \<le> sum_list (map (\<lambda>(p, n). length (concat p)) (fs_nodes s))"
    by (rule member_le_sum_list) simp
  then show False by (simp add: temp_name_def)
qed

text \<open>A new file in an existing directory, moved over its target.\<close>

lemma move_new_file:
  assumes wf: "wf_fs s" and src: "node_at s src = None" "src \<noteq> []"
    and same: "butlast src = butlast dst" "src \<noteq> dst" "dst \<noteq> []"
    and dir: "node_at s (butlast dst) = Some Dir" and dst: "node_at s dst \<noteq> Some Dir"
  shows "replace_path src dst (put_file src c s)
     = (return (), s\<lparr>fs_nodes := AList.delete dst (fs_nodes s) @ [(dst, File c)]\<rparr>)"
proof -
  have fresh: "src \<notin> fst ` set (fs_nodes s)"
    using src by (auto simp: node_at_def map_of_eq_None_iff)
  then have put: "put_file src c s = s\<lparr>fs_nodes := fs_nodes s @ [(src, File c)]\<rparr>"
    by (simp add: put_file_def update_absent)
  then have nodes: "fs_nodes (put_file src c s) = fs_nodes s @ [(src, File c)]" by simp
  have upd: "put_file src c s\<lparr>fs_nodes := ns\<rparr> = s\<lparr>fs_nodes := ns\<rparr>" for ns by (simp add: put)
  have at: "node_at (put_file src c s) q = (if q = src then Some (File c) else node_at s q)" for q
    using src by (auto simp: put node_at_def map_add_def split: option.splits)
  have noprefix: "\<not> is_prefix src q" if "(q, n) \<in> set (fs_nodes s)" for q n
  proof
    assume "is_prefix src q"
    then obtain r where q: "q = src @ r" by (auto simp: is_prefix_iff)
    have "node_at s q = Some n" using node_at_in [OF wf that] by simp
    with q src(1) have "r \<noteq> []" by auto
    with dirs_above [OF wf _ this, of src n] \<open>node_at s q = Some n\<close> q src(1) show False by simp
  qed
  have "\<not> is_prefix src dst"
  proof
    assume "is_prefix src dst"
    moreover have "length src = length dst" using same(1,3) src(2) by (metis length_butlast One_nat_def
        Suc_pred length_greater_0_conv)
    ultimately show False using same(2) by (simp add: is_prefix_def)
  qed
  moreover have "src \<noteq> butlast dst" using src(1) dir by auto
  moreover have "map (\<lambda>(q, n). (if is_prefix src q then dst @ drop (length src) q else q, n))
      (AList.delete dst (fs_nodes s)) = AList.delete dst (fs_nodes s)"
    using noprefix by (intro map_idI) (auto simp: AList.delete_eq)
  moreover have "node_at s dst = None \<or> (\<exists>c'. node_at s dst = Some (File c'))"
    using dst by (cases "node_at s dst"; cases "the (node_at s dst)") auto
  ultimately show ?thesis
    using same src(2) dir
    by (auto simp: replace_path_def at move_nodes_def nodes has_children_def delete_append upd)
qed

lemma atomic_write_run:
  assumes wf: "wf_fs s" and w: "writable s p"
  shows "\<exists>s'. atomic_write_bytes p c s = (return (), s') \<and> wf_fs s' \<and> fs_cwd s' = fs_cwd s \<and>
     (\<forall>q. node_at s' q = (if q = p then Some (File c)
        else if is_prefix q (butlast p) then Some Dir else node_at s q))"
proof -
  have p: "p \<noteq> []" and notdir: "node_at s p \<noteq> Some Dir" and free: "\<not> below_file s p"
    using w by (simp_all add: writable_def)
  have up: "node_at s q \<noteq> Some (File d)" if "is_prefix q (butlast p)" for q d
  proof
    assume "node_at s q = Some (File d)"
    moreover have "is_prefix q p" "q \<noteq> p" using that p by (simp_all add: is_prefix_butlast_iff)
    ultimately show False using free by (auto simp: below_file_iff [OF wf])
  qed
  obtain news where n: "mkdirs [] (butlast p) s = (return (), s\<lparr>fs_nodes := fs_nodes s @ news\<rparr>)"
    "wf_fs (s\<lparr>fs_nodes := fs_nodes s @ news\<rparr>)"
    "\<forall>q. node_at (s\<lparr>fs_nodes := fs_nodes s @ news\<rparr>) q
       = (if is_prefix q (butlast p) then Some Dir else node_at s q)"
    using mkdirs_run [OF wf node_at_Nil, of "butlast p"] up by auto
  define s1 where "s1 = s\<lparr>fs_nodes := fs_nodes s @ news\<rparr>"
  define t where "t = butlast p @ [temp_name s1 p]"
  have tlen: "last p \<noteq> temp_name s1 p"
  proof
    assume e: "last p = temp_name s1 p"
    have "length (temp_name s1 p) > length (last p)" by (simp add: temp_name_def)
    with e show False by simp
  qed
  have "replace_path t p (put_file t c s1)
      = (return (), s1\<lparr>fs_nodes := AList.delete p (fs_nodes s1) @ [(p, File c)]\<rparr>)"
  proof (rule move_new_file)
    show "wf_fs s1" using n(2) by (simp add: s1_def)
    show "node_at s1 t = None" by (simp add: t_def temp_name_fresh)
    show "t \<noteq> p" using tlen by (metis t_def last_snoc)
    show "node_at s1 (butlast p) = Some Dir" using n(3) by (simp add: s1_def)
    have "\<not> is_prefix p (butlast p)" using p by (simp add: is_prefix_butlast_iff)
    then show "node_at s1 p \<noteq> Some Dir" using n(3) notdir by (simp add: s1_def)
  qed (use p in \<open>simp_all add: t_def\<close>)
  moreover define s2 where "s2 = s1\<lparr>fs_nodes := AList.delete p (fs_nodes s1) @ [(p, File c)]\<rparr>"
  moreover have at1: "node_at s1 q = (if is_prefix q (butlast p) then Some Dir else node_at s q)" for q
    using n(3) by (simp add: s1_def)
  have at2: "node_at s2 q = (if q = p then Some (File c) else node_at s1 q)" for q
    using p by (auto simp: s2_def node_at_def map_add_def delete_conv' split: option.splits)
  have "node_at s2 t = None"
    using at2 [of t] tlen temp_name_fresh [of s1 "butlast p" p] by (metis last_snoc t_def)
  then have "snd (unlink True t s2) = s2" by (auto simp: unlink_def)
  ultimately have run: "atomic_write_bytes p c s = (return (), s2)"
    by (simp add: atomic_write_bytes_def mkdir_parents_def n(1) s1_def [symmetric] eff_finally_def
        t_def [symmetric] Let_def)
  have "wf_fs s2"
  proof -
    have wf1: "wf_fs s1" using n(2) by (simp add: s1_def)
    have "node_at s2 (butlast q) = Some Dir" if q: "q \<in> fst ` set (fs_nodes s2)" for q
    proof (cases "q = p")
      case True
      have "\<not> is_prefix p (butlast p)" using p by (simp add: is_prefix_butlast_iff)
      then have "butlast p \<noteq> p" by auto
      with True at2 at1 show ?thesis by simp
    next
      case False
      with q have "q \<in> fst ` set (fs_nodes s1)" by (auto simp: s2_def)
      then have d: "node_at s1 (butlast q) = Some Dir" using wf1 by (auto simp: wf_fs_def)
      have "node_at s1 p \<noteq> Some Dir" using at1 notdir p by (simp add: is_prefix_butlast_iff)
      with d have "butlast q \<noteq> p" by auto
      with d show ?thesis by (simp add: at2)
    qed
    moreover have "od_ok (fs_nodes s2)" "[] \<notin> fst ` set (fs_nodes s2)"
      using wf1 p by (auto simp: wf_fs_def s2_def)
    ultimately show ?thesis unfolding wf_fs_def by blast
  qed
  with run at1 at2 show ?thesis by (auto simp: s2_def s1_def)
qed

lemma wf_delete:
  assumes "wf_fs s" "\<And>q. q \<in> fst ` set (fs_nodes s) \<Longrightarrow> q \<noteq> p \<Longrightarrow> butlast q \<noteq> p"
  shows "wf_fs (s\<lparr>fs_nodes := AList.delete p (fs_nodes s)\<rparr>)"
proof -
  have "node_at (s\<lparr>fs_nodes := AList.delete p (fs_nodes s)\<rparr>) (butlast q) = Some Dir"
    if "q \<in> fst ` set (fs_nodes s)" "q \<noteq> p" for q
    using assms that by (auto simp: wf_fs_def node_at_def delete_conv' dest!: bspec)
  then show ?thesis using assms(1) by (auto simp: wf_fs_def)
qed

lemma node_at_delete:
  "p \<noteq> [] \<Longrightarrow> node_at (s\<lparr>fs_nodes := AList.delete p (fs_nodes s)\<rparr>) q = (if q = p then None else node_at s q)"
  by (auto simp: node_at_def delete_conv')

lemma unlink_run:
  assumes "wf_fs s"
  shows "wf_fs (snd (unlink m p s)) \<and> fs_cwd (snd (unlink m p s)) = fs_cwd s \<and>
     (\<forall>q. node_at (snd (unlink m p s)) q =
        (if q = p \<and> file_content s p \<noteq> None then None else node_at s q))"
proof (cases "file_content s p")
  case None
  then have "snd (unlink m p s) = s"
    by (auto simp: unlink_def file_content_def split: option.splits node.splits)
  with assms None show ?thesis by auto
next
  case (Some c)
  then have p: "node_at s p = Some (File c)" by (auto simp: file_content_def split: option.splits node.splits)
  then have "p \<noteq> []" by auto
  have "butlast q \<noteq> p" if "q \<in> fst ` set (fs_nodes s)" for q
  proof
    assume "butlast q = p"
    with that assms have "node_at s p = Some Dir" by (auto simp: wf_fs_def)
    with p show False by simp
  qed
  with p \<open>p \<noteq> []\<close> show ?thesis
    using wf_delete [OF assms, of p] Some by (simp add: unlink_def node_at_delete)
qed

lemma unlink_missing_ok:
  "node_at s p \<noteq> Some Dir \<Longrightarrow> \<not> below_file s p \<Longrightarrow> fst (unlink True p s) = return ()"
  by (auto simp: unlink_def split: option.splits node.splits)

lemma no_children: "wf_fs s \<Longrightarrow> \<not> has_children s p \<Longrightarrow> q \<in> fst ` set (fs_nodes s) \<Longrightarrow> q \<noteq> p \<Longrightarrow> butlast q \<noteq> p"
proof
  assume wf: "wf_fs s" and nc: "\<not> has_children s p" and q: "q \<in> fst ` set (fs_nodes s)" "q \<noteq> p" "butlast q = p"
  have "q \<noteq> []" using wf q(1) unfolding wf_fs_def by blast
  then have "is_prefix p q" using q(3) by (metis append_butlast_last_id is_prefix_append)
  with nc q show False by (force simp: has_children_def list_ex_iff)
qed

lemma rmdir_run:
  assumes "wf_fs s"
  shows "wf_fs (snd (rmdir p s)) \<and> fs_cwd (snd (rmdir p s)) = fs_cwd s \<and>
     (\<forall>q. node_at (snd (rmdir p s)) q \<noteq> node_at s q \<longrightarrow>
        q = p \<and> node_at s q = Some Dir \<and> node_at (snd (rmdir p s)) q = None)"
proof (cases "p = [] \<or> node_at s p \<noteq> Some Dir \<or> has_children s p")
  case True
  then have "snd (rmdir p s) = s" by (auto simp: rmdir_def)
  with assms show ?thesis by simp
next
  case False
  have "wf_fs (s\<lparr>fs_nodes := AList.delete p (fs_nodes s)\<rparr>)"
    using False no_children [OF assms] by (intro wf_delete [OF assms]) auto
  with False show ?thesis by (simp add: rmdir_def node_at_delete)
qed

section \<open>File contents\<close>

lemma file_content_eq: "node_at s q = node_at s' q \<Longrightarrow> file_content s q = file_content s' q"
  by (simp add: file_content_def)

lemma content_atomic_write:
  assumes "wf_fs s" "writable s p"
  shows "\<exists>s'. atomic_write_bytes p c s = (return (), s') \<and> wf_fs s' \<and> fs_cwd s' = fs_cwd s \<and>
     file_content s' = (file_content s)(p := Some c) \<and>
     (\<forall>q. node_at s q = Some Dir \<longrightarrow> node_at s' q = Some Dir) \<and>
     (\<forall>q. node_at s' q = Some Dir \<longrightarrow> node_at s q = Some Dir \<or> is_prefix q p)"
proof -
  obtain s' where s': "atomic_write_bytes p c s = (return (), s')" "wf_fs s'" "fs_cwd s' = fs_cwd s"
    "\<forall>q. node_at s' q = (if q = p then Some (File c)
        else if is_prefix q (butlast p) then Some Dir else node_at s q)"
    using atomic_write_run [OF assms] by blast
  have p: "p \<noteq> []" "\<not> below_file s p" "node_at s p \<noteq> Some Dir" using assms(2) by (auto simp: writable_def)
  have "file_content s' q = ((file_content s)(p := Some c)) q" for q
  proof (cases "is_prefix q (butlast p) \<and> q \<noteq> p")
    case True
    then have "node_at s q \<noteq> Some (File d)" for d
      using p below_file_iff [OF assms(1)] by (auto simp: is_prefix_butlast_iff)
    with True s'(4) show ?thesis
      by (auto simp: file_content_def split: option.splits node.splits)
  next
    case False
    with s'(4) p show ?thesis by (auto simp: file_content_def)
  qed
  with s' p show ?thesis by (intro exI [of _ s']) (auto simp: is_prefix_butlast_iff)
qed

lemma content_unlink:
  "wf_fs s \<Longrightarrow> file_content (snd (unlink m p s)) = (file_content s)(p := None)"
  using unlink_run [of s m p] by (auto simp: fun_eq_iff file_content_def)

lemma content_rmdir: "wf_fs s \<Longrightarrow> file_content (snd (rmdir p s)) = file_content s"
proof
  fix q assume "wf_fs s"
  from rmdir_run [OF this, of p] show "file_content (snd (rmdir p s)) q = file_content s q"
    by (cases "node_at (snd (rmdir p s)) q = node_at s q") (auto simp: file_content_def)
qed

section \<open>Writes that fail\<close>

lemma mkdirs_any:
  "wf_fs s \<Longrightarrow> node_at s up = Some Dir \<Longrightarrow>
     wf_fs (snd (mkdirs up ws s)) \<and> fs_cwd (snd (mkdirs up ws s)) = fs_cwd s \<and>
     (\<forall>q. node_at s q \<noteq> None \<longrightarrow> node_at (snd (mkdirs up ws s)) q = node_at s q) \<and>
     (\<forall>q. node_at s q = None \<longrightarrow> node_at (snd (mkdirs up ws s)) q \<in> {None, Some Dir}) \<and>
     (fst (mkdirs up ws s) = return () \<longrightarrow> node_at (snd (mkdirs up ws s)) (up @ ws) = Some Dir)"
proof (induction ws arbitrary: up s)
  case (Cons w ws)
  show ?case
  proof (cases "node_at s (up @ [w])")
    case None
    let ?s = "s\<lparr>fs_nodes := fs_nodes s @ [(up @ [w], Dir)]\<rparr>"
    note new = wf_snoc_dir [OF Cons.prems None]
    have at: "node_at ?s (up @ [w]) = Some Dir" by (simp add: new(2))
    note IH = Cons.IH [OF new(1) at]
    have eq: "mkdirs up (w # ws) s = mkdirs (up @ [w]) ws ?s" using None by simp
    have keep: "node_at s q \<noteq> None \<longrightarrow> node_at ?s q = node_at s q" for q
      using None by (auto simp: new(2))
    have grow: "node_at s q = None \<longrightarrow> node_at ?s q \<in> {None, Some Dir}" for q
      by (simp add: new(2))
    have "node_at s q = None \<longrightarrow> node_at (snd (mkdirs (up @ [w]) ws ?s)) q \<in> {None, Some Dir}" for q
      using IH grow [of q] by (cases "node_at ?s q") auto
    moreover have "node_at s q \<noteq> None \<longrightarrow> node_at (snd (mkdirs (up @ [w]) ws ?s)) q = node_at s q" for q
      using IH keep [of q] by metis
    ultimately show ?thesis using IH unfolding eq by simp
  next
    case (Some n)
    show ?thesis
    proof (cases n)
      case Dir
      with Cons.IH [OF Cons.prems(1), of "up @ [w]"] Some show ?thesis by simp
    next
      case (File c)
      with Some Cons.prems show ?thesis by simp
    qed
  qed
qed simp

lemma content_mkdirs:
  assumes "wf_fs s" "node_at s up = Some Dir"
  shows "file_content (snd (mkdirs up ws s)) = file_content s"
proof
  fix q
  note m = mkdirs_any [OF assms, of ws]
  show "file_content (snd (mkdirs up ws s)) q = file_content s q"
  proof (cases "node_at s q")
    case None
    then have "node_at (snd (mkdirs up ws s)) q \<in> {None, Some Dir}" using m by blast
    with None show ?thesis by (auto simp: file_content_def)
  next
    case (Some n)
    then have "node_at (snd (mkdirs up ws s)) q = node_at s q" using m by blast
    then show ?thesis by (rule file_content_eq)
  qed
qed

lemma atomic_write_fails:
  assumes wf: "wf_fs s" and w: "\<not> writable s p"
  shows "\<not> returned (fst (atomic_write_bytes p c s)) \<and>
     wf_fs (snd (atomic_write_bytes p c s)) \<and> fs_cwd (snd (atomic_write_bytes p c s)) = fs_cwd s \<and>
     file_content (snd (atomic_write_bytes p c s)) = file_content s"
proof (cases "mkdirs [] (butlast p) s")
  case (Pair r s1)
  note m = mkdirs_any [OF wf node_at_Nil, of "butlast p"]
  have s1: "wf_fs s1" "fs_cwd s1 = fs_cwd s" "file_content s1 = file_content s"
    using m content_mkdirs [OF wf node_at_Nil, of "butlast p"] Pair by simp_all
  show ?thesis
  proof (cases r)
    case (Inl e)
    with Pair s1 show ?thesis by (simp add: atomic_write_bytes_def mkdir_parents_def)
  next
    case (Inr u)
    let ?t = "butlast p @ [temp_name s1 p]"
    have up: "node_at s1 (butlast p) = Some Dir" using m Pair Inr by simp
    have "node_at s1 p = Some Dir" if "p \<noteq> []"
    proof (rule ccontr)
      assume "node_at s1 p \<noteq> Some Dir"
      moreover have "node_at s p = Some Dir \<longrightarrow> node_at s1 p = Some Dir" using m Pair by simp
      ultimately have "below_file s p" using w that by (auto simp: writable_def)
      then obtain q c where q: "node_at s q = Some (File c)" "is_prefix q p" "q \<noteq> p"
        by (auto simp: below_file_iff [OF wf])
      then have "node_at s1 q = Some (File c)" using m Pair by simp
      moreover have "node_at s1 q = Some Dir"
        using dirs_prefix [OF s1(1) up] q that by (simp add: is_prefix_butlast_iff)
      ultimately show False by simp
    qed
    moreover have fresh: "map_of (fs_nodes s1) ?t = None"
      using temp_name_fresh [of s1 "butlast p" p] by (simp add: node_at_def)
    then have put: "put_file ?t c s1 = s1\<lparr>fs_nodes := fs_nodes s1 @ [(?t, File c)]\<rparr>"
      by (simp add: put_file_def update_absent map_of_eq_None_iff)
    have at: "node_at (put_file ?t c s1) q = (if q = ?t then Some (File c) else node_at s1 q)" for q
      using fresh by (auto simp: put node_at_def map_add_def split: option.splits)
    have "?t \<noteq> p"
    proof
      assume "?t = p"
      then have "length (last p) = length (temp_name s1 p)" by (metis last_snoc)
      then show False by (simp add: temp_name_def)
    qed
    moreover have "\<not> is_prefix ?t p" if "p \<noteq> []"
    proof
      assume "is_prefix ?t p"
      moreover have "length ?t = length p" using that by (cases p) simp_all
      ultimately show False using \<open>?t \<noteq> p\<close> by (simp add: is_prefix_def)
    qed
    ultimately have "\<exists>e. replace_path ?t p (put_file ?t c s1) = (Inl e, put_file ?t c s1)"
      using at [of ?t] at [of p] by (cases "p = []") (simp_all add: replace_path_def)
    then obtain e where "replace_path ?t p (put_file ?t c s1) = (Inl e, put_file ?t c s1)" ..
    moreover have "snd (unlink True ?t (put_file ?t c s1)) = s1"
      using fresh at by (simp add: unlink_def put delete_append delete_absent map_of_eq_None_iff)
    ultimately have "atomic_write_bytes p c s = (Inl e, s1)"
      using Pair Inr by (simp add: atomic_write_bytes_def mkdir_parents_def eff_finally_def Let_def)
    with s1 show ?thesis by simp
  qed
qed

text \<open>Whatever happens, an atomic write changes no other file.\<close>

lemma atomic_write_frame:
  assumes "wf_fs s"
  shows "wf_fs (snd (atomic_write_bytes p c s)) \<and> fs_cwd (snd (atomic_write_bytes p c s)) = fs_cwd s \<and>
     (\<forall>q. q \<noteq> p \<longrightarrow> file_content (snd (atomic_write_bytes p c s)) q = file_content s q)"
proof (cases "writable s p")
  case True
  with content_atomic_write [OF assms, of p c] show ?thesis by auto
next
  case False
  with atomic_write_fails [OF assms, of p c] show ?thesis by simp
qed

end
