(* ===== verification/Tables.thy ===== *)
theory Tables
  imports Json Effects TtlCache
begin

text \<open>
  The database of api/app/db/models.py as far as the modelled repositories use it: one record per
  table row, the database as the lists of the rows in the order of their insertion, and the few
  query forms of the repositories. The database engine itself is not under src/: a \<open>select\<close> is a
  filter, an update of a mapped object changes the row with its primary key, new primary keys come
  from one sequence that is never set back. The book-keeping columns \<open>created_at\<close> and \<open>updated_at\<close> that
  no modelled query reads are left out.
\<close>

section \<open>Rows\<close>

record application_settings =
  as_id :: int
  as_base_url :: "string option"
  as_movies_enabled :: bool
  as_shows_enabled :: bool
  as_anime_enabled :: bool
  as_playback_mode :: string
  as_sync_interval_minutes :: int
  as_debug_logging :: bool
  as_season_auto_complete_enabled :: bool
  as_season_auto_complete_interval_days :: int
  as_season_auto_complete_allow_uncached :: bool
  as_season_auto_complete_shows_per_minute :: int
  as_torbox_requests_per_minute :: int
  as_resolver_negative_cache_seconds :: int
  as_resolver_circuit_breaker_failures :: int
  as_resolver_circuit_breaker_window_seconds :: int
  as_resolver_circuit_breaker_cooldown_seconds :: int
  as_created_at :: time
  as_updated_at :: time

record torbox_item =
  ti_id :: int
  ti_kind :: string
  ti_external_id :: string
  ti_name :: string
  ti_raw_payload :: payload
  ti_fetched_at :: time

record torbox_stored_file =
  tsf_id :: int
  tsf_torbox_item_id :: int
  tsf_external_id :: string
  tsf_file_name :: string
  tsf_path :: string
  tsf_mime_type :: string
  tsf_size :: "int option"

record tmdb_cache_entry =
  tce_id :: int
  tce_cache_key :: string
  tce_endpoint :: string
  tce_request_params :: "(string \<times> string) list"
  tce_response_payload :: payload
  tce_fetched_at :: time
  tce_expires_at :: time

record anilist_cache_entry =
  ace_id :: int
  ace_cache_key :: string
  ace_operation_name :: string
  ace_query :: string
  ace_variables :: payload
  ace_response_payload :: payload
  ace_fetched_at :: time
  ace_expires_at :: time

record stream_selection =
  ssel_id :: int
  ssel_stream_key :: string
  ssel_media_type :: string
  ssel_media_id :: string
  ssel_tmdb_id :: "string option"
  ssel_media_title :: "string option"
  ssel_media_year :: "int option"
  ssel_media_poster_path :: "string option"
  ssel_identity_authority :: string
  ssel_title :: string
  ssel_source_name :: "string option"
  ssel_info_hash :: "string option"
  ssel_torbox_torrent_id :: "string option"
  ssel_status :: string

record library_exclusion =
  lx_id :: int
  lx_category :: string
  lx_title :: string
  lx_relative_prefix :: string

record classification_override_row =
  cor_id :: int
  cor_source_category :: string
  cor_source_prefix :: string
  cor_title :: string
  cor_target_category :: string

record media_item =
  mi_id :: int
  mi_content_kind :: string
  mi_library_category :: string
  mi_title :: string
  mi_year :: "int option"
  mi_poster_path :: "string option"

record media_external_identity =
  mxi_id :: int
  mxi_media_item_id :: int
  mxi_provider :: string
  mxi_provider_media_kind :: string
  mxi_external_id :: string
  mxi_authority :: string
  mxi_authoritative :: bool
  mxi_confidence :: "int option"
  mxi_resolver_version :: "string option"

record source_binding =
  sb_id :: int
  sb_media_item_id :: int
  sb_source_kind :: string
  sb_source_item_id :: "string option"
  sb_info_hash :: "string option"
  sb_authority :: string
  sb_authoritative :: bool
  sb_confidence :: "int option"
  sb_resolver_version :: "string option"

record media_alias =
  ma_id :: int
  ma_media_item_id :: int
  ma_content_kind :: string
  ma_alias :: string
  ma_normalized_alias :: string
  ma_source :: string

record library_entry_row =
  ler_id :: int
  ler_opaque_id :: string
  ler_media_item_id :: int
  ler_torbox_file_id :: "int option"
  ler_info_hash :: "string option"
  ler_source_kind :: "string option"
  ler_source_item_id :: "string option"
  ler_source_item_name :: "string option"
  ler_source_file_id :: "string option"
  ler_source_file_name :: "string option"
  ler_source_file_path :: "string option"
  ler_source_file_mime_type :: "string option"
  ler_source_file_size :: "int option"
  ler_category :: string
  ler_season_number :: "int option"
  ler_episode_number :: "int option"

record library_entry_health =
  leh_library_entry_id :: int
  leh_status :: string
  leh_info_hash :: "string option"
  leh_checked_at :: time

record generated_file =
  gf_id :: int
  gf_library_entry_id :: int
  gf_relative_path :: string
  gf_content_hash :: string
  gf_processing_fingerprint :: "string option"

record sync_run =
  srn_id :: int
  srn_status :: string
  srn_source :: string
  srn_started_at :: time
  srn_finished_at :: "time option"
  srn_scanned_count :: int
  srn_written_count :: int
  srn_skipped_count :: int

record sync_error =
  ser_id :: int
  ser_sync_run_id :: int
  ser_phase :: string
  ser_item_ref :: "string option"
  ser_message :: string
  ser_created_at :: time
  ser_dismissed_at :: "time option"

record resolver_token =
  rtk_id :: int
  rtk_label :: string
  rtk_token_hash :: string
  rtk_revoked_at :: "time option"

record playback_attempt =
  pa_id :: int
  pa_library_entry_id :: "int option"
  pa_entry_opaque_id :: string
  pa_status :: string
  pa_failure_reason :: "string option"

record watchlist_item =
  wi_id :: int
  wi_tmdb_id :: int
  wi_imdb_id :: "string option"
  wi_title :: string
  wi_year :: "string option"
  wi_overview :: string
  wi_poster_url :: "string option"
  wi_media_type :: string


section \<open>The database\<close>

record db =
  db_seq :: int
  db_torbox_items :: "torbox_item list"
  db_torbox_files :: "torbox_stored_file list"
  db_tmdb_cache :: "tmdb_cache_entry list"
  db_anilist_cache :: "anilist_cache_entry list"
  db_stream_selections :: "stream_selection list"
  db_library_exclusions :: "library_exclusion list"
  db_classification_overrides :: "classification_override_row list"
  db_media_items :: "media_item list"
  db_external_identities :: "media_external_identity list"
  db_library_entries :: "library_entry_row list"
  db_library_health :: "library_entry_health list"
  db_generated_files :: "generated_file list"
  db_sync_runs :: "sync_run list"
  db_sync_errors :: "sync_error list"
  db_resolver_tokens :: "resolver_token list"
  db_playback_attempts :: "playback_attempt list"
  db_watchlist_items :: "watchlist_item list"
  db_source_bindings :: "source_binding list"
  db_media_aliases :: "media_alias list"

type_synonym 'a dbm = "(db, 'a) eff"

definition empty_db :: db where
  "empty_db = \<lparr>db_seq = 1, db_torbox_items = [], db_torbox_files = [], db_tmdb_cache = [], db_anilist_cache = [], db_stream_selections = [], db_library_exclusions = [], db_classification_overrides = [], db_media_items = [], db_external_identities = [], db_library_entries = [], db_library_health = [], db_generated_files = [], db_sync_runs = [], db_sync_errors = [], db_resolver_tokens = [], db_playback_attempts = [], db_watchlist_items = [],
     db_source_bindings = [], db_media_aliases = []\<rparr>"

definition fresh_id :: "int dbm" where
  "fresh_id = (\<lambda>d. (return (db_seq d), d\<lparr>db_seq := db_seq d + 1\<rparr>))"

text \<open>\<open>result.scalar_one_or_none()\<close> raises on a second row.\<close>

fun scalar_one_or_none :: "'r list \<Rightarrow> 'r option result" where
  "scalar_one_or_none [] = return None"
| "scalar_one_or_none [r] = return (Some r)"
| "scalar_one_or_none (r # q # rs) =
     raise (RuntimeError ''Multiple rows were found when one or none was required'')"

text \<open>Changing the rows that satisfy a condition.\<close>

definition update_where :: "('r \<Rightarrow> bool) \<Rightarrow> ('r \<Rightarrow> 'r) \<Rightarrow> 'r list \<Rightarrow> 'r list" where
  "update_where P f rs = map (\<lambda>r. if P r then f r else r) rs"

text \<open>The SQL operator \<open>LIKE\<close> with an escape character.\<close>

fun like :: "char \<Rightarrow> string \<Rightarrow> string \<Rightarrow> bool" where
  "like esc [] s = (s = [])"
| "like esc (p # ps) s =
     (if p = esc then (case ps of
          [] \<Rightarrow> False
        | q # qs \<Rightarrow> (case s of [] \<Rightarrow> False | c # cs \<Rightarrow> c = q \<and> like esc qs cs))
      else if p = CHR ''%'' then like esc ps s \<or> (case s of [] \<Rightarrow> False | c # cs \<Rightarrow> like esc (p # ps) cs)
      else if p = CHR ''_'' then (case s of [] \<Rightarrow> False | c # cs \<Rightarrow> like esc ps cs)
      else (case s of [] \<Rightarrow> False | c # cs \<Rightarrow> c = p \<and> like esc ps cs))"

definition LIKE_ESCAPE :: char where "LIKE_ESCAPE = CHR 0x5C"

definition escape_like :: "string \<Rightarrow> string" where
  "escape_like v = replace_char (CHR ''_'') [LIKE_ESCAPE, CHR ''_'']
     (replace_char (CHR ''%'') [LIKE_ESCAPE, CHR ''%'']
       (replace_char LIKE_ESCAPE [LIKE_ESCAPE, LIKE_ESCAPE] v))"

definition path_within_prefix :: "string \<Rightarrow> string \<Rightarrow> bool" where
  "path_within_prefix relative_prefix path \<longleftrightarrow>
     path = relative_prefix \<or> like LIKE_ESCAPE (escape_like relative_prefix @ ''/%'') path"

section \<open>Lemmas\<close>

definition escape_char :: "char \<Rightarrow> string" where
  "escape_char c = (if c \<in> {LIKE_ESCAPE, CHR ''%'', CHR ''_''} then [LIKE_ESCAPE, c] else [c])"

lemma escape_like_chars: "escape_like v = concat (map escape_char v)"
proof (induction v)
  case (Cons c v)
  then show ?case
    by (auto simp: escape_like_def replace_char_def escape_char_def LIKE_ESCAPE_def)
qed (simp add: escape_like_def replace_char_def)

lemma like_escaped: "like LIKE_ESCAPE (escape_like v @ ps) s \<longleftrightarrow> (\<exists>t. s = v @ t \<and> like LIKE_ESCAPE ps t)"
proof (induction v arbitrary: s)
  case (Cons c v)
  show ?case
    using Cons by (cases s) (auto simp: escape_like_chars escape_char_def LIKE_ESCAPE_def)
qed (simp add: escape_like_chars)

lemma like_any: "like LIKE_ESCAPE ''%'' s"
  by (induction s) (auto simp: LIKE_ESCAPE_def)

text \<open>A LIKE on an escaped prefix is a comparison of prefixes: no character of the prefix acts as a
  wildcard.\<close>

lemma path_within_prefix_iff:
  "path_within_prefix prefix path \<longleftrightarrow> path = prefix \<or> startswith path (prefix @ ''/'')"
proof -
  have "like LIKE_ESCAPE (''/%'') t \<longleftrightarrow> (\<exists>u. t = CHR ''/'' # u)" for t
    using like_any by (cases t) (auto simp: LIKE_ESCAPE_def)
  then show ?thesis
    by (auto simp: path_within_prefix_def like_escaped startswith_iff)
qed

lemma scalar_one_or_none_distinct:
  assumes "distinct (map key rs)"
  shows "scalar_one_or_none (filter (\<lambda>r. key r = k) rs) = return (map_of (map (\<lambda>r. (key r, r)) rs) k)"
proof -
  have *: "filter (\<lambda>r. key r = k) rs = (case map_of (map (\<lambda>r. (key r, r)) rs) k of None \<Rightarrow> [] | Some r \<Rightarrow> [r])"
    using assms
  proof (induction rs)
    case (Cons r rs)
    then show ?case
      by (auto simp: filter_empty_conv map_of_eq_None_iff split: option.splits dest!: map_of_SomeD)
  qed simp
  show ?thesis unfolding * by (auto split: option.split)
qed

lemma map_update_where [simp]: "(\<And>r. P r \<Longrightarrow> g (f r) = g r) \<Longrightarrow> map g (update_where P f rs) = map g rs"
  by (simp add: update_where_def)

lemma filter_update_where:
  "(\<And>r. P r \<Longrightarrow> Q (f r) = Q r) \<Longrightarrow> filter Q (update_where P f rs) = update_where P f (filter Q rs)"
  by (induction rs) (auto simp: update_where_def)

section \<open>The contract of a keyed table\<close>

text \<open>The row of a key; a table refines this map.\<close>

definition row_of :: "('r \<Rightarrow> 'k) \<Rightarrow> 'r list \<Rightarrow> 'k \<Rightarrow> 'r option" where
  "row_of key rs k = find (\<lambda>r. key r = k) rs"

lemma row_of_Some: "row_of key rs k = Some r \<Longrightarrow> r \<in> set rs \<and> key r = k"
  by (auto simp: row_of_def find_Some_iff)

lemma row_of_None: "row_of key rs k = None \<longleftrightarrow> k \<notin> key ` set rs"
  by (auto simp: row_of_def find_None_iff)

lemma row_of_snoc: "row_of key (rs @ [r]) k = (case row_of key rs k of None \<Rightarrow> if key r = k then Some r else None | Some q \<Rightarrow> Some q)"
  by (induction rs) (auto simp: row_of_def)

lemma row_of_member: "distinct (map key rs) \<Longrightarrow> r \<in> set rs \<Longrightarrow> row_of key rs (key r) = Some r"
  by (induction rs) (auto simp: row_of_def)

lemma scalar_row_of:
  "distinct (map key rs) \<Longrightarrow> scalar_one_or_none (filter (\<lambda>r. key r = k) rs) = return (row_of key rs k)"
proof (induction rs)
  case (Cons r rs)
  then have "filter (\<lambda>q. key q = key r) rs = []" by (auto simp: filter_empty_conv image_iff)
  with Cons show ?case by (auto simp: row_of_def)
qed (simp add: row_of_def)

lemma row_of_update:
  assumes "distinct (map rid rs)" "r \<in> set rs" "key (f r) = key r" "distinct (map key rs)"
  shows "row_of key (update_where (\<lambda>x. rid x = rid r) f rs) = (row_of key rs)(key r := Some (f r))"
  using assms
proof (induction rs)
  case (Cons q rs)
  show ?case
  proof (cases "q = r")
    case True
    then have "update_where (\<lambda>x. rid x = rid r) f (q # rs) = f r # rs"
      using Cons.prems(1) by (auto simp: update_where_def image_iff intro!: map_idI)
    with True Cons.prems show ?thesis by (auto simp: row_of_def fun_eq_iff)
  next
    case False
    then have "r \<in> set rs" using Cons.prems by simp
    moreover have "rid q \<noteq> rid r" using Cons.prems(1) \<open>r \<in> set rs\<close> by auto
    moreover have "key q \<noteq> key r" using Cons.prems(4) \<open>r \<in> set rs\<close> by auto
    moreover have "row_of key (update_where (\<lambda>x. rid x = rid r) f rs) = (row_of key rs)(key r := Some (f r))"
      using Cons \<open>r \<in> set rs\<close> by (simp del: fun_upd_apply)
    ultimately show ?thesis by (auto simp: row_of_def update_where_def fun_eq_iff)
  qed
qed simp

definition table_ok :: "('r \<Rightarrow> 'k) \<Rightarrow> ('r \<Rightarrow> int) \<Rightarrow> int \<Rightarrow> 'r list \<Rightarrow> bool" where
  "table_ok key rid n rs \<longleftrightarrow> distinct (map key rs) \<and> distinct (map rid rs) \<and> list_all (\<lambda>r. rid r < n) rs"

lemma table_ok_mono: "table_ok key rid n rs \<Longrightarrow> n \<le> m \<Longrightarrow> table_ok key rid m rs"
  by (auto simp: table_ok_def list_all_iff)

lemma table_ok_filter: "table_ok key rid n rs \<Longrightarrow> table_ok key rid n (filter P rs)"
  by (auto simp: table_ok_def list_all_iff distinct_map_filter)

lemma table_ok_update:
  "table_ok key rid n rs \<Longrightarrow> (\<And>r. key (f r) = key r) \<Longrightarrow> (\<And>r. rid (f r) = rid r) \<Longrightarrow>
   table_ok key rid n (update_where P f rs)"
  by (simp add: table_ok_def list_all_iff) (auto simp: update_where_def)

text \<open>An operation that inserts the row of a new key and changes the row of a known one.\<close>

locale upsert_table =
  fixes rows :: "db \<Rightarrow> 'r list"
    and key :: "'r \<Rightarrow> 'k"
    and rid :: "'r \<Rightarrow> int"
    and upsert :: "'w \<Rightarrow> (db, 'a) eff"
    and wkey :: "'w \<Rightarrow> 'k"
    and make :: "int \<Rightarrow> 'w \<Rightarrow> 'r"
    and change :: "'w \<Rightarrow> 'r \<Rightarrow> 'r"
  assumes upsert_rows: "distinct (map key (rows d)) \<Longrightarrow>
      returned (fst (upsert w d)) \<and>
      rows (snd (upsert w d)) = (case row_of key (rows d) (wkey w) of
          None \<Rightarrow> rows d @ [make (db_seq d) w]
        | Some r \<Rightarrow> update_where (\<lambda>x. rid x = rid r) (change w) (rows d)) \<and>
      db_seq (snd (upsert w d)) = (if row_of key (rows d) (wkey w) = None then db_seq d + 1 else db_seq d)"
    and make_key: "key (make i w) = wkey w"
    and make_id: "rid (make i w) = i"
    and change_key: "key (change w r) = key r"
    and change_id: "rid (change w r) = rid r"
begin

definition table_wf :: "db \<Rightarrow> bool" where
  "table_wf d \<longleftrightarrow> table_ok key rid (db_seq d) (rows d)"

lemma upsert_returns: "table_wf d \<Longrightarrow> returned (fst (upsert w d))"
  using upsert_rows by (simp add: table_wf_def table_ok_def)

lemma upsert_wf:
  assumes "table_wf d"
  shows "table_wf (snd (upsert w d))"
proof -
  have d: "distinct (map key (rows d))" using assms by (simp add: table_wf_def table_ok_def)
  show ?thesis
  proof (cases "row_of key (rows d) (wkey w)")
    case None
    then have "wkey w \<notin> key ` set (rows d)" by (simp add: row_of_None)
    then show ?thesis
      using assms upsert_rows [OF d, of w] None
      by (auto simp: table_wf_def table_ok_def list_all_iff make_key make_id)
  next
    case (Some r)
    then show ?thesis
      using assms upsert_rows [OF d, of w] table_ok_update [of key rid _ "rows d" "change w"]
      by (simp add: table_wf_def change_key change_id)
  qed
qed

text \<open>The operation is an update of the map from keys to rows.\<close>

lemma upsert_refines:
  assumes "table_wf d"
  shows "row_of key (rows (snd (upsert w d))) = (row_of key (rows d))(wkey w :=
     Some (case row_of key (rows d) (wkey w) of None \<Rightarrow> make (db_seq d) w | Some r \<Rightarrow> change w r))"
proof -
  have d: "distinct (map key (rows d))" "distinct (map rid (rows d))"
    using assms by (simp_all add: table_wf_def table_ok_def)
  show ?thesis
  proof (cases "row_of key (rows d) (wkey w)")
    case None
    then show ?thesis
      using upsert_rows [OF d(1), of w] by (auto simp: fun_eq_iff row_of_snoc make_key split: option.splits)
  next
    case (Some r)
    then have "r \<in> set (rows d)" "key r = wkey w" using row_of_Some by fast+
    then show ?thesis
      using upsert_rows [OF d(1), of w] Some row_of_update [of rid "rows d" r key "change w", OF d(2) _ change_key d(1)]
      by simp
  qed
qed

end

end
