(* ===== verification/JsonText.thy ===== *)
theory JsonText
  imports Json
begin

text \<open>
  Python's \<open>json.loads\<close>, and the string literals of \<open>json.dumps\<close>. A character outside the
  modelled alphabet (an escape above \<open>\u00ff\<close>) is read modulo 256; a decoding error is a
  \<open>ValueError\<close>. Nesting is bounded by the length of the text.
\<close>

section \<open>Reading\<close>

definition json_space :: "char \<Rightarrow> bool" where
  "json_space c \<longleftrightarrow> c \<in> {CHR '' '', CHR 0x09, CHR 0x0A, CHR 0x0D}"

abbreviation skip_ws :: "string \<Rightarrow> string" where
  "skip_ws s \<equiv> dropWhile json_space s"

definition hex_val :: "char \<Rightarrow> nat option" where
  "hex_val c = (if is_digit c then Some (code c - 48)
     else if 97 \<le> code c \<and> code c \<le> 102 then Some (code c - 87)
     else if 65 \<le> code c \<and> code c \<le> 70 then Some (code c - 55) else None)"

definition hex4 :: "char \<Rightarrow> char \<Rightarrow> char \<Rightarrow> char \<Rightarrow> char option" where
  "hex4 a b c d = (case (hex_val a, hex_val b, hex_val c, hex_val d) of
     (Some w, Some x, Some y, Some z) \<Rightarrow> Some (char_of (4096 * w + 256 * x + 16 * y + z)) | _ \<Rightarrow> None)"

definition simple_escape :: "char \<Rightarrow> char option" where
  "simple_escape e = map_of [(CHR 0x22, CHR 0x22), (CHR 0x5C, CHR 0x5C), (CHR ''/'', CHR ''/''), (CHR ''b'', CHR 0x08),
     (CHR ''f'', CHR 0x0C), (CHR ''n'', CHR 0x0A), (CHR ''r'', CHR 0x0D), (CHR ''t'', CHR 0x09)] e"

definition cons_parsed :: "char \<Rightarrow> (string \<times> string) option \<Rightarrow> (string \<times> string) option" where
  "cons_parsed c r = map_option (\<lambda>(t, s). (c # t, s)) r"

text \<open>The characters up to the closing quote.\<close>

fun string_body :: "string \<Rightarrow> (string \<times> string) option" where
  "string_body [] = None"
| "string_body (c # s) =
     (if c = CHR 0x22 then Some ([], s)
      else if c = CHR 0x5C then (case s of
          [] \<Rightarrow> None
        | e # s' \<Rightarrow> if e = CHR ''u'' then (case s' of
              w # x # y # z # r \<Rightarrow> (case hex4 w x y z of None \<Rightarrow> None | Some v \<Rightarrow> cons_parsed v (string_body r))
            | _ \<Rightarrow> None)
          else (case simple_escape e of None \<Rightarrow> None | Some v \<Rightarrow> cons_parsed v (string_body s')))
      else if code c < 32 then None
      else cons_parsed c (string_body s))"

text \<open>\<open>-?(0|[1-9]\d*)(\.\d+)?([eE][-+]?\d+)?\<close>\<close>

definition digits_of :: "string \<Rightarrow> string" where "digits_of s = takeWhile is_digit s"

definition number_frac :: "string \<Rightarrow> string" where
  "number_frac s = (case s of c # r \<Rightarrow> if c = CHR ''.'' \<and> digits_of r \<noteq> [] then c # digits_of r else [] | [] \<Rightarrow> [])"

definition number_exp :: "string \<Rightarrow> string" where
  "number_exp s = (case s of
     e # r \<Rightarrow> if e \<in> set ''eE'' then (case r of
          g # q \<Rightarrow> if g \<in> set ''+-'' then (if digits_of q \<noteq> [] then e # g # digits_of q else [])
                   else if digits_of r \<noteq> [] then e # digits_of r else []
        | [] \<Rightarrow> []) else []
   | [] \<Rightarrow> [])"

definition json_number :: "string \<Rightarrow> (json \<times> string) option" where
  "json_number s =
     (let sign = (if startswith s ''-'' then ''-'' else []);
          s1 = drop (length sign) s;
          int_part = (if startswith s1 ''0'' then ''0'' else digits_of s1);
          s2 = drop (length int_part) s1;
          frac = number_frac s2;
          s3 = drop (length frac) s2;
          expo = number_exp s3;
          s4 = drop (length expo) s3
      in if int_part = [] then None
         else if frac = [] \<and> expo = []
         then Some (JInt (if sign = [] then int_of_decimal int_part else - int_of_decimal int_part), s4)
         else Some (JFloat (sign @ int_part @ frac @ expo), s4))"

definition json_word :: "string \<Rightarrow> (json \<times> string) option" where
  "json_word s = (case find (\<lambda>(w, v). startswith s w)
       [(''null'', JNull), (''true'', JBool True), (''false'', JBool False), (''NaN'', JFloat ''nan''),
        (''Infinity'', JFloat ''inf''), (''-Infinity'', JFloat ''-inf'')] of
     Some (w, v) \<Rightarrow> Some (v, drop (length w) s)
   | None \<Rightarrow> json_number s)"

fun json_value :: "nat \<Rightarrow> string \<Rightarrow> (json \<times> string) option"
and json_elements :: "nat \<Rightarrow> string \<Rightarrow> (json list \<times> string) option"
and json_members :: "nat \<Rightarrow> string \<Rightarrow> ((string \<times> json) list \<times> string) option" where
  "json_value 0 s = None"
| "json_value (Suc n) s = (case s of
     [] \<Rightarrow> None
   | c # r \<Rightarrow>
       if c = CHR 0x22 then map_option (\<lambda>(t, s'). (JStr t, s')) (string_body r)
       else if c = CHR ''{'' then
         (case skip_ws r of
            d # r' \<Rightarrow> if d = CHR ''}'' then Some (JObj [], r')
              else map_option (\<lambda>(ms, s'). (JObj (foldl (\<lambda>o1 (k, v). AList.update k v o1) [] ms), s'))
                     (json_members n (d # r'))
          | [] \<Rightarrow> None)
       else if c = CHR ''['' then
         (case skip_ws r of
            d # r' \<Rightarrow> if d = CHR '']'' then Some (JArr [], r')
              else map_option (\<lambda>(vs, s'). (JArr vs, s')) (json_elements n (d # r'))
          | [] \<Rightarrow> None)
       else json_word s)"
| "json_elements 0 s = None"
| "json_elements (Suc n) s = (case json_value n s of
     None \<Rightarrow> None
   | Some (v, s1) \<Rightarrow> (case skip_ws s1 of
        c # s2 \<Rightarrow> if c = CHR '','' then map_option (\<lambda>(vs, s'). (v # vs, s')) (json_elements n (skip_ws s2))
          else if c = CHR '']'' then Some ([v], s2) else None
      | [] \<Rightarrow> None))"
| "json_members 0 s = None"
| "json_members (Suc n) s = (case s of
     q # s0 \<Rightarrow> if q \<noteq> CHR 0x22 then None else (case string_body s0 of
         None \<Rightarrow> None
       | Some (k, s1) \<Rightarrow> (case skip_ws s1 of
            e # s2 \<Rightarrow> if e \<noteq> CHR '':'' then None else (case json_value n (skip_ws s2) of
                None \<Rightarrow> None
              | Some (v, s3) \<Rightarrow> (case skip_ws s3 of
                   c # s4 \<Rightarrow> if c = CHR '','' then map_option (\<lambda>(ms, s'). ((k, v) # ms, s')) (json_members n (skip_ws s4))
                     else if c = CHR ''}'' then Some ([(k, v)], s4) else None
                 | [] \<Rightarrow> None))
          | [] \<Rightarrow> None))
   | [] \<Rightarrow> None)"

definition json_loads :: "string \<Rightarrow> json result" where
  "json_loads s = (case json_value (Suc (length s)) (skip_ws s) of
     Some (v, r) \<Rightarrow> if skip_ws r = [] then return v else raise (ValueError ''Extra data'')
   | None \<Rightarrow> raise (ValueError ''Expecting value''))"

section \<open>Writing strings\<close>

definition lower_hex :: "nat \<Rightarrow> char" where
  "lower_hex n = ''0123456789abcdef'' ! n"

definition escape_json :: "char \<Rightarrow> string" where
  "escape_json c = (case map_of [(CHR 0x22, CHR 0x22), (CHR 0x5C, CHR 0x5C), (CHR 0x08, CHR ''b''), (CHR 0x0C, CHR ''f''),
       (CHR 0x0A, CHR ''n''), (CHR 0x0D, CHR ''r''), (CHR 0x09, CHR ''t'')] c of
     Some e \<Rightarrow> [CHR 0x5C, e]
   | None \<Rightarrow> if 32 \<le> code c \<and> code c \<le> 126 then [c]
       else [CHR 0x5C, CHR ''u'', CHR ''0'', CHR ''0'', lower_hex (code c div 16), lower_hex (code c mod 16)])"

definition json_str :: "string \<Rightarrow> string" where
  "json_str s = [CHR 0x22] @ concat (map escape_json s) @ [CHR 0x22]"

section \<open>A written string is read back\<close>

lemma hex_val_lower: "n < 16 \<Longrightarrow> hex_val (lower_hex n) = Some n"
proof -
  assume "n < 16"
  then have "n \<in> {0, 1, 2, 3, 4, 5, 6, 7, 8, 9, 10, 11, 12, 13, 14, 15}" by (simp add: insert_iff) arith
  then show ?thesis by (auto simp: lower_hex_def hex_val_def is_digit_def code_def)
qed

lemma hex4_lower: "n < 256 \<Longrightarrow> hex4 (CHR ''0'') (CHR ''0'') (lower_hex (n div 16)) (lower_hex (n mod 16)) = Some (char_of n)"
  by (simp add: hex4_def hex_val_lower) (simp add: hex_val_def is_digit_def code_def)

lemma code_less: "code c < 256"
  unfolding code_def by (metis of_char_of mod_less_divisor char_of_char zero_less_numeral nat_of_char_less_256)

lemma string_body_escape: "string_body (escape_json c @ s) = cons_parsed c (string_body s)"
proof (cases "c \<in> {CHR 0x22, CHR 0x5C, CHR 0x08, CHR 0x0C, CHR 0x0A, CHR 0x0D, CHR 0x09}")
  case True
  then show ?thesis by (auto simp: escape_json_def simple_escape_def)
next
  case False
  then have e: "escape_json c = (if 32 \<le> code c \<and> code c \<le> 126 then [c]
       else [CHR 0x5C, CHR ''u'', CHR ''0'', CHR ''0'', lower_hex (code c div 16), lower_hex (code c mod 16)])"
    by (auto simp: escape_json_def)
  have c: "char_of (code c) = c" by (simp add: code_def)
  show ?thesis unfolding e using False hex4_lower [OF code_less, of c] c by auto
qed

lemma string_body_written: "string_body (concat (map escape_json t) @ CHR 0x22 # s) = Some (t, s)"
  by (induction t) (simp_all add: string_body_escape cons_parsed_def del: string_body.simps(2), simp)

end
