(* ===== verification/ProviderMetadata.thy ===== *)
theory ProviderMetadata
  imports TorBoxClient Tables JsonText "HOL-Library.List_Lexorder" "HOL-Library.Char_ord"
begin

text \<open>
  Metadata of TMDB and AniList behind their database caches: the cache repositories
  (api/app/db/repositories/tmdb_cache.py, anilist_cache.py), the cache keys, the two clients and the
  services that join them (api/app/providers/tmdb, api/app/providers/anilist), with the title match
  that classifies anime. The HTTP transport, the clock and SHA-256 are parameters.
\<close>

section \<open>Compact JSON\<close>

text \<open>\<open>json.dumps(v, sort_keys=True, separators=(",", ":"))\<close>\<close>

definition braced :: "char \<Rightarrow> string list \<Rightarrow> char \<Rightarrow> string" where
  "braced l ws r = l # join '','' ws @ [r]"

primrec json_compact :: "json \<Rightarrow> string" where
  "json_compact JNull = ''null''"
| "json_compact (JBool b) = (if b then ''true'' else ''false'')"
| "json_compact (JInt i) = str_int i"
| "json_compact (JFloat t) = t"
| "json_compact (JStr s) = json_str s"
| "json_compact (JArr xs) = braced (CHR ''['') (map json_compact xs) (CHR '']'')"
| "json_compact (JObj d) = braced (CHR ''{'')
     (map (\<lambda>(k, t). json_str k @ '':'' @ t) (sort_key fst (map (map_prod (\<lambda>k. k) json_compact) d))) (CHR ''}'')"

section \<open>Cache keys\<close>

definition public_params :: "(string, string) odict \<Rightarrow> (string, string) odict" where
  "public_params ps = filter (\<lambda>(k, v). casefold k \<noteq> ''api_key'') ps"

definition normalize_endpoint :: "string \<Rightarrow> string" where
  "normalize_endpoint endpoint = ''/'' @ lstrip_by (\<lambda>c. c = CHR ''/'') endpoint"

definition tmdb_cache_key :: "string \<Rightarrow> (string, string) odict \<Rightarrow> string" where
  "tmdb_cache_key endpoint ps =
     ''tmdb:v1:GET:'' @ normalize_endpoint endpoint @ '':'' @
     json_compact (JObj (map (\<lambda>(k, v). (k, JStr v)) (public_params ps)))"

definition split_ws :: "string \<Rightarrow> string list" where
  "split_ws s = filter (\<lambda>w. w \<noteq> []) (foldr (\<lambda>c ws. if is_space c then [] # ws else (c # hd ws) # tl ws) s [[]])"

definition anilist_cache_key :: "(string \<Rightarrow> string) \<Rightarrow> string \<Rightarrow> string \<Rightarrow> payload \<Rightarrow> string" where
  "anilist_cache_key sha256_hex operation_name query variables =
     ''anilist:v1:POST:'' @ sha256_hex (json_compact (JObj [(''operationName'', JStr operation_name),
       (''query'', JStr (join '' '' (split_ws query))), (''variables'', JObj variables)]))"

section \<open>The cache repositories\<close>

record cache_record =
  cr_response_payload :: payload
  cr_fetched_at :: time
  cr_expires_at :: time

type_synonym tmdb_write = "string \<times> string \<times> (string, string) odict \<times> payload \<times> time \<times> time"

definition tmdb_get_fresh :: "string \<Rightarrow> time \<Rightarrow> cache_record option dbm" where
  "tmdb_get_fresh cache_key checked_at = (\<lambda>d.
     (bind_res (scalar_one_or_none (filter (\<lambda>e. tce_cache_key e = cache_key) (db_tmdb_cache d))) (\<lambda>found. case found of
        None \<Rightarrow> return None
      | Some e \<Rightarrow> if tce_expires_at e \<le> checked_at then return None
          else return (Some \<lparr>cr_response_payload = tce_response_payload e, cr_fetched_at = tce_fetched_at e,
                 cr_expires_at = tce_expires_at e\<rparr>)), d))"

text \<open>A write is the key, the endpoint, the parameters, the payload, the time to live and the time.\<close>

definition new_tmdb_entry :: "int \<Rightarrow> tmdb_write \<Rightarrow> tmdb_cache_entry" where
  "new_tmdb_entry i = (\<lambda>(cache_key, endpoint, request_params, response_payload, ttl, now).
     \<lparr>tce_id = i, tce_cache_key = cache_key, tce_endpoint = endpoint, tce_request_params = public_params request_params,
      tce_response_payload = response_payload, tce_fetched_at = now, tce_expires_at = now + ttl\<rparr>)"

definition rewritten_tmdb_entry :: "tmdb_write \<Rightarrow> tmdb_cache_entry \<Rightarrow> tmdb_cache_entry" where
  "rewritten_tmdb_entry = (\<lambda>(cache_key, endpoint, request_params, response_payload, ttl, now) e.
     e\<lparr>tce_endpoint := endpoint, tce_request_params := public_params request_params,
       tce_response_payload := response_payload, tce_fetched_at := now, tce_expires_at := now + ttl\<rparr>)"

definition tmdb_store :: "tmdb_write \<Rightarrow> unit dbm" where
  "tmdb_store w =
     eff_bind (\<lambda>d. (scalar_one_or_none (filter (\<lambda>e. tce_cache_key e = fst w) (db_tmdb_cache d)), d)) (\<lambda>found. case found of
        None \<Rightarrow> eff_bind fresh_id (\<lambda>i. eff_modify (\<lambda>d. d\<lparr>db_tmdb_cache := db_tmdb_cache d @ [new_tmdb_entry i w]\<rparr>))
      | Some e \<Rightarrow> eff_modify (\<lambda>d. d\<lparr>db_tmdb_cache := update_where (\<lambda>x. tce_id x = tce_id e) (rewritten_tmdb_entry w) (db_tmdb_cache d)\<rparr>))"

type_synonym anilist_write = "string \<times> string \<times> string \<times> payload \<times> payload \<times> time \<times> time"

definition anilist_get_fresh :: "string \<Rightarrow> time \<Rightarrow> cache_record option dbm" where
  "anilist_get_fresh cache_key checked_at = (\<lambda>d.
     (bind_res (scalar_one_or_none (filter (\<lambda>e. ace_cache_key e = cache_key) (db_anilist_cache d))) (\<lambda>found. case found of
        None \<Rightarrow> return None
      | Some e \<Rightarrow> if ace_expires_at e \<le> checked_at then return None
          else return (Some \<lparr>cr_response_payload = ace_response_payload e, cr_fetched_at = ace_fetched_at e,
                 cr_expires_at = ace_expires_at e\<rparr>)), d))"

text \<open>A write is the key, the operation name, the query, the variables, the payload, the time to live and the time.\<close>

definition new_anilist_entry :: "int \<Rightarrow> anilist_write \<Rightarrow> anilist_cache_entry" where
  "new_anilist_entry i = (\<lambda>(cache_key, operation_name, query, variables, response_payload, ttl, now).
     \<lparr>ace_id = i, ace_cache_key = cache_key, ace_operation_name = operation_name, ace_query = query,
      ace_variables = variables, ace_response_payload = response_payload, ace_fetched_at = now, ace_expires_at = now + ttl\<rparr>)"

definition rewritten_anilist_entry :: "anilist_write \<Rightarrow> anilist_cache_entry \<Rightarrow> anilist_cache_entry" where
  "rewritten_anilist_entry = (\<lambda>(cache_key, operation_name, query, variables, response_payload, ttl, now) e.
     e\<lparr>ace_operation_name := operation_name, ace_query := query, ace_variables := variables,
       ace_response_payload := response_payload, ace_fetched_at := now, ace_expires_at := now + ttl\<rparr>)"

definition anilist_store :: "anilist_write \<Rightarrow> unit dbm" where
  "anilist_store w =
     eff_bind (\<lambda>d. (scalar_one_or_none (filter (\<lambda>e. ace_cache_key e = fst w) (db_anilist_cache d)), d)) (\<lambda>found. case found of
        None \<Rightarrow> eff_bind fresh_id (\<lambda>i. eff_modify (\<lambda>d. d\<lparr>db_anilist_cache := db_anilist_cache d @ [new_anilist_entry i w]\<rparr>))
      | Some e \<Rightarrow> eff_modify (\<lambda>d. d\<lparr>db_anilist_cache := update_where (\<lambda>x. ace_id x = ace_id e) (rewritten_anilist_entry w) (db_anilist_cache d)\<rparr>))"

section \<open>The clients\<close>

record 'w metadata_env =
  me_get :: "string \<Rightarrow> string \<Rightarrow> (string \<times> string) list \<Rightarrow> (string, string) odict \<Rightarrow> 'w \<Rightarrow> http_response result \<times> 'w"
  me_post :: "string \<Rightarrow> payload \<Rightarrow> 'w \<Rightarrow> http_response result \<times> 'w"
  me_utc_now :: "'w \<Rightarrow> time"
  me_sha256 :: "string \<Rightarrow> string"

record 'w metadata_state =
  ms_world :: 'w
  ms_db :: db

type_synonym ('w, 'a) metadata = "('w metadata_state, 'a) eff"

record tmdb_client =
  tm_api_key :: string
  tm_base_url :: string

definition tmdb_client_init :: "string \<Rightarrow> string \<Rightarrow> tmdb_client" where
  "tmdb_client_init api_key base_url =
     \<lparr>tm_api_key = api_key, tm_base_url = rstrip_by (\<lambda>c. c = CHR ''/'') base_url\<rparr>"

definition uses_bearer_token :: "string \<Rightarrow> bool" where
  "uses_bearer_token value = startswith value ''eyJ''"

definition is_httpx :: "exn \<Rightarrow> bool" where
  "is_httpx e = (case e of HttpxError _ \<Rightarrow> True | _ \<Rightarrow> False)"

definition on_world :: "('w \<Rightarrow> 'a result \<times> 'w) \<Rightarrow> ('w, 'a) metadata" where
  "on_world f = (\<lambda>s. case f (ms_world s) of (r, w) \<Rightarrow> (r, s\<lparr>ms_world := w\<rparr>))"

definition on_db :: "'a dbm \<Rightarrow> ('w, 'a) metadata" where
  "on_db m = (\<lambda>s. case m (ms_db s) of (r, d) \<Rightarrow> (r, s\<lparr>ms_db := d\<rparr>))"

definition tmdb_safe_get :: "'w metadata_env \<Rightarrow> tmdb_client \<Rightarrow> string \<Rightarrow> (string \<times> string) list \<Rightarrow>
    (string, string) odict \<Rightarrow> ('w, http_response) metadata" where
  "tmdb_safe_get env c endpoint headers ps =
     eff_catch is_httpx (on_world (me_get env (tm_base_url c) endpoint headers ps))
       (\<lambda>_. eff_raise (TmdbClientError ''TMDB request failed.''))"

text \<open>\<open>{**params, "api_key": key}\<close>\<close>

definition with_api_key :: "tmdb_client \<Rightarrow> (string, string) odict \<Rightarrow> (string, string) odict" where
  "with_api_key c ps = AList.update ''api_key'' (tm_api_key c) ps"

definition HTTP_UNAUTHORIZED :: nat where "HTTP_UNAUTHORIZED = 401"

definition tmdb_payload :: "http_response \<Rightarrow> payload result" where
  "tmdb_payload r =
     (if is_error_status (rs_status r) then raise (TmdbClientError ''TMDB request failed.'')
      else case rs_json r of
        Inl (ValueError _) \<Rightarrow> raise (TmdbClientError ''TMDB response was not JSON.'')
      | Inl e \<Rightarrow> raise e
      | Inr v \<Rightarrow> (case jobj v of None \<Rightarrow> raise (TmdbClientError ''TMDB response was not an object.'') | Some p \<Rightarrow> return p))"

definition tmdb_get_json :: "'w metadata_env \<Rightarrow> tmdb_client \<Rightarrow> string \<Rightarrow> (string, string) odict \<Rightarrow> ('w, payload) metadata" where
  "tmdb_get_json env c endpoint ps =
     eff_bind (if uses_bearer_token (tm_api_key c)
               then tmdb_safe_get env c endpoint [(''Authorization'', ''Bearer '' @ tm_api_key c)] ps
               else tmdb_safe_get env c endpoint [] (with_api_key c ps)) (\<lambda>r.
     eff_bind (if rs_status r = HTTP_UNAUTHORIZED \<and> uses_bearer_token (tm_api_key c)
               then tmdb_safe_get env c endpoint [] (with_api_key c ps) else eff_return r) (\<lambda>r.
     eff_lift (tmdb_payload r)))"

definition anilist_payload :: "http_response \<Rightarrow> payload result" where
  "anilist_payload r =
     (if is_error_status (rs_status r) then raise (AniListClientError ''AniList request failed.'')
      else case rs_json r of
        Inl (ValueError _) \<Rightarrow> raise (AniListClientError ''AniList response was not JSON.'')
      | Inl e \<Rightarrow> raise e
      | Inr v \<Rightarrow> (case jobj v of
          None \<Rightarrow> raise (AniListClientError ''AniList response was not an object.'')
        | Some p \<Rightarrow> if truthy (jget p ''errors'') then raise (AniListClientError ''AniList returned GraphQL errors.'')
            else return p))"

definition anilist_execute :: "'w metadata_env \<Rightarrow> string \<Rightarrow> string \<Rightarrow> payload \<Rightarrow> string option \<Rightarrow> ('w, payload) metadata" where
  "anilist_execute env base_url query variables operation_name =
     eff_bind (eff_catch is_httpx
         (on_world (me_post env base_url [(''query'', JStr query), (''variables'', JObj variables),
            (''operationName'', case operation_name of None \<Rightarrow> JNull | Some n \<Rightarrow> JStr n)]))
         (\<lambda>_. eff_raise (AniListClientError ''AniList request failed.'')))
       (\<lambda>r. eff_lift (anilist_payload r))"

section \<open>The services\<close>

definition DAY :: time where "DAY = 86400"
definition DEFAULT_TMDB_CACHE_TTL :: time where "DEFAULT_TMDB_CACHE_TTL = 7 * DAY"
definition SEASON_COMPLETION_TMDB_CACHE_TTL :: time where "SEASON_COMPLETION_TMDB_CACHE_TTL = 365 * DAY"
definition DEFAULT_ANILIST_CACHE_TTL :: time where "DEFAULT_ANILIST_CACHE_TTL = 7 * DAY"

text \<open>A request answered from the cache, or sent and its answer stored; both services have this shape.\<close>

definition clock_now :: "'w metadata_env \<Rightarrow> ('w, time) metadata" where
  "clock_now env = eff_get (\<lambda>s. me_utc_now env (ms_world s))"

definition tmdb_cached :: "'w metadata_env \<Rightarrow> string \<Rightarrow> (string, string) odict \<Rightarrow> ('w, cache_record option) metadata" where
  "tmdb_cached env endpoint ps =
     eff_bind (clock_now env) (\<lambda>now. on_db (tmdb_get_fresh (tmdb_cache_key endpoint ps) now))"

definition tmdb_service_get_json :: "'w metadata_env \<Rightarrow> tmdb_client \<Rightarrow> string \<Rightarrow> (string, string) odict \<Rightarrow> time \<Rightarrow>
    ('w, payload) metadata" where
  "tmdb_service_get_json env c endpoint ps ttl =
     eff_bind (tmdb_cached env endpoint ps) (\<lambda>cached. case cached of
        Some e \<Rightarrow> eff_return (cr_response_payload e)
      | None \<Rightarrow> eff_bind (tmdb_get_json env c endpoint ps) (\<lambda>p.
          eff_bind (clock_now env) (\<lambda>now.
          eff_then (on_db (tmdb_store (tmdb_cache_key endpoint ps, endpoint, ps, p, ttl, now))) (eff_return p))))"

definition tmdb_get_cached_json :: "'w metadata_env \<Rightarrow> string \<Rightarrow> (string, string) odict \<Rightarrow> ('w, payload option) metadata" where
  "tmdb_get_cached_json env endpoint ps =
     eff_bind (tmdb_cached env endpoint ps) (\<lambda>cached. eff_return (map_option cr_response_payload cached))"

definition get_season_completion_json :: "'w metadata_env \<Rightarrow> tmdb_client \<Rightarrow> string \<Rightarrow> (string, string) odict \<Rightarrow> ('w, payload) metadata" where
  "get_season_completion_json env c endpoint ps =
     tmdb_service_get_json env c endpoint ps SEASON_COMPLETION_TMDB_CACHE_TTL"

definition ANILIST_ANIME_SEARCH_OPERATION :: string where
  "ANILIST_ANIME_SEARCH_OPERATION = ''SearchAnime''"

definition ANILIST_ANIME_SEARCH_QUERY :: string where
  "ANILIST_ANIME_SEARCH_QUERY =
     [] @ [CHR 0x0A] @
     ''query SearchAnime($search: String!, $seasonYear: Int, $page: Int!, $perPage: Int!) {'' @ [CHR 0x0A] @
     ''  Page(page: $page, perPage: $perPage) {'' @ [CHR 0x0A] @
     ''    media(search: $search, type: ANIME, seasonYear: $seasonYear, isAdult: false) {'' @ [CHR 0x0A] @
     ''      id'' @ [CHR 0x0A] @
     ''      title {'' @ [CHR 0x0A] @
     ''        romaji'' @ [CHR 0x0A] @
     ''        english'' @ [CHR 0x0A] @
     ''        native'' @ [CHR 0x0A] @
     ''      }'' @ [CHR 0x0A] @
     ''      synonyms'' @ [CHR 0x0A] @
     ''      format'' @ [CHR 0x0A] @
     ''      startDate {'' @ [CHR 0x0A] @
     ''        year'' @ [CHR 0x0A] @
     ''      }'' @ [CHR 0x0A] @
     ''      episodes'' @ [CHR 0x0A] @
     ''      status'' @ [CHR 0x0A] @
     ''      genres'' @ [CHR 0x0A] @
     ''      isAdult'' @ [CHR 0x0A] @
     ''    }'' @ [CHR 0x0A] @
     ''  }'' @ [CHR 0x0A] @
     ''}'' @ [CHR 0x0A] @
     []"

definition anime_variables :: "string \<Rightarrow> int option \<Rightarrow> int \<Rightarrow> payload" where
  "anime_variables title year limit =
     [(''search'', JStr title), (''page'', JInt 1), (''perPage'', JInt limit)] @
     (case year of None \<Rightarrow> [] | Some y \<Rightarrow> [(''seasonYear'', JInt y)])"

definition search_anime :: "'w metadata_env \<Rightarrow> string \<Rightarrow> string \<Rightarrow> int option \<Rightarrow> int \<Rightarrow> time \<Rightarrow> ('w, payload) metadata" where
  "search_anime env base_url title year limit ttl =
     (let variables = anime_variables title year limit;
          cache_key = anilist_cache_key (me_sha256 env) ANILIST_ANIME_SEARCH_OPERATION ANILIST_ANIME_SEARCH_QUERY variables
      in eff_bind (clock_now env) (\<lambda>now.
         eff_bind (on_db (anilist_get_fresh cache_key now)) (\<lambda>cached. case cached of
            Some e \<Rightarrow> eff_return (cr_response_payload e)
          | None \<Rightarrow> eff_bind (anilist_execute env base_url ANILIST_ANIME_SEARCH_QUERY variables (Some ANILIST_ANIME_SEARCH_OPERATION)) (\<lambda>p.
              eff_bind (clock_now env) (\<lambda>now.
              eff_then (on_db (anilist_store (cache_key, ANILIST_ANIME_SEARCH_OPERATION, ANILIST_ANIME_SEARCH_QUERY, variables, p, ttl, now)))
                (eff_return p))))))"

section \<open>The match of an anime title\<close>

definition anime_token :: regex where "anime_token = plus (Chr (\<lambda>c. is_lower c \<or> is_digit c))"

definition anime_normalized_title :: "string \<Rightarrow> string" where
  "anime_normalized_title title = sub (plus (Chr (\<lambda>c. \<not> (is_lower c \<or> is_digit c)))) [] (casefold title)"

definition anime_title_tokens :: "string \<Rightarrow> string list" where
  "anime_title_tokens title = findall anime_token (casefold title)"

definition SEASON_VARIANT_MARKERS :: "string set" where
  "SEASON_VARIANT_MARKERS = {''season'', ''part'', ''cour'', ''tv''}"

definition MIN_EXTENDED_VARIANT_TOKENS :: nat where "MIN_EXTENDED_VARIANT_TOKENS = 3"

definition is_title_variant :: "string \<Rightarrow> string list \<Rightarrow> bool \<Rightarrow> bool" where
  "is_title_variant candidate_title expected_tokens allow_extended_variant =
     (let candidate_tokens = anime_title_tokens candidate_title; n = length expected_tokens
      in if length candidate_tokens \<le> n then False
         else if take n candidate_tokens \<noteq> expected_tokens then False
         else if candidate_tokens ! n \<in> SEASON_VARIANT_MARKERS then True
         else allow_extended_variant \<and> MIN_EXTENDED_VARIANT_TOKENS \<le> n)"

definition candidate_titles :: "payload \<Rightarrow> string list" where
  "candidate_titles media_item =
     (case jobj (jget media_item ''title'') of None \<Rightarrow> [] | Some t \<Rightarrow> List.map_filter jstr (map snd t)) @
     (case jlist (jget media_item ''synonyms'') of None \<Rightarrow> [] | Some vs \<Rightarrow> List.map_filter jstr vs)"

definition anime_title_matches :: "payload \<Rightarrow> string \<Rightarrow> bool \<Rightarrow> bool" where
  "anime_title_matches media_item title allow_extended_variant =
     (let expected = anime_normalized_title title; expected_tokens = anime_title_tokens title
      in if expected = [] \<or> expected_tokens = [] then False
         else list_ex (\<lambda>candidate. anime_normalized_title candidate = expected \<or>
                is_title_variant candidate expected_tokens allow_extended_variant) (candidate_titles media_item))"

text \<open>\<open>v == n\<close> of Python for an integer \<open>n\<close>.\<close>

fun equals_int :: "json \<Rightarrow> int \<Rightarrow> bool" where
  "equals_int (JInt i) n = (i = n)"
| "equals_int (JBool b) n = ((if b then 1 else 0) = n)"
| "equals_int (JFloat t) n = (float_of_text t = Fin (of_int n))"
| "equals_int _ n = False"

definition media_item_matches :: "json \<Rightarrow> string \<Rightarrow> int option \<Rightarrow> bool" where
  "media_item_matches v title year = (case jobj v of
     None \<Rightarrow> False
   | Some item \<Rightarrow>
       if jget item ''isAdult'' = JBool True then False
       else if \<not> anime_title_matches item title (year \<noteq> None) then False
       else (case year of None \<Rightarrow> True
         | Some y \<Rightarrow> (case jobj (jget item ''startDate'') of None \<Rightarrow> False | Some sd \<Rightarrow> equals_int (jget sd ''year'') y)))"

definition media_items_from_payload :: "payload \<Rightarrow> json list" where
  "media_items_from_payload p = (case jobj (jget p ''data'') of
     None \<Rightarrow> []
   | Some data \<Rightarrow> (case jobj (jget data ''Page'') of
        None \<Rightarrow> []
      | Some page \<Rightarrow> (case jlist (jget page ''media'') of None \<Rightarrow> [] | Some vs \<Rightarrow> vs)))"

definition payload_has_anime_match :: "payload \<Rightarrow> string \<Rightarrow> int option \<Rightarrow> bool" where
  "payload_has_anime_match p title year = list_ex (\<lambda>v. media_item_matches v title year) (media_items_from_payload p)"

definition has_anime_match :: "'w metadata_env \<Rightarrow> string \<Rightarrow> string \<Rightarrow> int option \<Rightarrow> ('w, bool) metadata" where
  "has_anime_match env base_url title year =
     eff_bind (search_anime env base_url title year 5 DEFAULT_ANILIST_CACHE_TTL)
       (\<lambda>p. eff_return (payload_has_anime_match p title year))"

definition is_classifier_error :: "exn \<Rightarrow> bool" where
  "is_classifier_error e = (case e of AniListClientError _ \<Rightarrow> True | SQLAlchemyError _ \<Rightarrow> True | _ \<Rightarrow> False)"

definition safe_has_anime_match :: "'w metadata_env \<Rightarrow> string \<Rightarrow> string \<Rightarrow> int option \<Rightarrow> ('w, bool) metadata" where
  "safe_has_anime_match env base_url title year =
     eff_catch is_classifier_error (has_anime_match env base_url title year) (\<lambda>_. eff_return False)"

section \<open>The contract of a response cache\<close>

locale response_cache = upsert_table rows key rid store wkey make change
  for rows :: "db \<Rightarrow> 'r list" and key :: "'r \<Rightarrow> string" and rid :: "'r \<Rightarrow> int"
    and store :: "'x \<Rightarrow> unit dbm" and wkey :: "'x \<Rightarrow> string" and make :: "int \<Rightarrow> 'x \<Rightarrow> 'r"
    and change :: "'x \<Rightarrow> 'r \<Rightarrow> 'r" +
  fixes get_fresh :: "string \<Rightarrow> time \<Rightarrow> cache_record option dbm"
    and record_of :: "'r \<Rightarrow> cache_record"
    and stored :: "'x \<Rightarrow> cache_record"
  assumes get_fresh_row: "distinct (map key (rows d)) \<Longrightarrow> get_fresh k t d =
      (return (case row_of key (rows d) k of None \<Rightarrow> None
         | Some r \<Rightarrow> if cr_expires_at (record_of r) \<le> t then None else Some (record_of r)), d)"
    and record_make: "record_of (make i w) = stored w"
    and record_change: "key r = wkey w \<Longrightarrow> record_of (change w r) = stored w"
begin

text \<open>What was stored is found until it expires, and nothing else changes.\<close>

lemma stored_is_fresh:
  assumes "table_wf d"
  shows "get_fresh k t (snd (store w d)) =
    (if k = wkey w then return (if cr_expires_at (stored w) \<le> t then None else Some (stored w))
     else fst (get_fresh k t d), snd (store w d))"
proof -
  have d: "distinct (map key (rows d))" "distinct (map key (rows (snd (store w d))))"
    using assms upsert_wf [OF assms, of w] by (simp_all add: table_wf_def table_ok_def)
  have "row_of key (rows d) (wkey w) = Some r \<Longrightarrow> key r = wkey w" for r using row_of_Some by fast
  then show ?thesis
    unfolding get_fresh_row [OF d(1)] get_fresh_row [OF d(2)] upsert_refines [OF assms]
    by (auto simp: record_make record_change split: option.split)
qed

end

definition tmdb_record :: "tmdb_cache_entry \<Rightarrow> cache_record" where
  "tmdb_record e = \<lparr>cr_response_payload = tce_response_payload e, cr_fetched_at = tce_fetched_at e, cr_expires_at = tce_expires_at e\<rparr>"

definition tmdb_stored :: "tmdb_write \<Rightarrow> cache_record" where
  "tmdb_stored = (\<lambda>(_, _, _, p, ttl, now). \<lparr>cr_response_payload = p, cr_fetched_at = now, cr_expires_at = now + ttl\<rparr>)"

definition anilist_record :: "anilist_cache_entry \<Rightarrow> cache_record" where
  "anilist_record e = \<lparr>cr_response_payload = ace_response_payload e, cr_fetched_at = ace_fetched_at e, cr_expires_at = ace_expires_at e\<rparr>"

definition anilist_stored :: "anilist_write \<Rightarrow> cache_record" where
  "anilist_stored = (\<lambda>(_, _, _, _, p, ttl, now). \<lparr>cr_response_payload = p, cr_fetched_at = now, cr_expires_at = now + ttl\<rparr>)"

interpretation tmdb: response_cache db_tmdb_cache tce_cache_key tce_id tmdb_store fst new_tmdb_entry rewritten_tmdb_entry
  tmdb_get_fresh tmdb_record tmdb_stored
proof unfold_locales
  fix d :: db and w :: tmdb_write
  assume d: "distinct (map tce_cache_key (db_tmdb_cache d))"
  note found = scalar_row_of [OF d]
  show "returned (fst (tmdb_store w d)) \<and>
      db_tmdb_cache (snd (tmdb_store w d)) =
        (case row_of tce_cache_key (db_tmdb_cache d) (fst w) of
          None \<Rightarrow> db_tmdb_cache d @ [new_tmdb_entry (db_seq d) w]
        | Some r \<Rightarrow> update_where (\<lambda>x. tce_id x = tce_id r) (rewritten_tmdb_entry w) (db_tmdb_cache d)) \<and>
      db_seq (snd (tmdb_store w d)) =
        (if row_of tce_cache_key (db_tmdb_cache d) (fst w) = None then db_seq d + 1 else db_seq d)"
    by (cases "row_of tce_cache_key (db_tmdb_cache d) (fst w)")
      (simp_all add: tmdb_store_def found eff_bind_def fresh_id_def)
  fix k t
  show "tmdb_get_fresh k t d = (return (case row_of tce_cache_key (db_tmdb_cache d) k of None \<Rightarrow> None
         | Some r \<Rightarrow> if cr_expires_at (tmdb_record r) \<le> t then None else Some (tmdb_record r)), d)"
    by (simp add: tmdb_get_fresh_def found tmdb_record_def split: option.split)
qed (auto simp: new_tmdb_entry_def rewritten_tmdb_entry_def tmdb_record_def tmdb_stored_def)

interpretation anilist: response_cache db_anilist_cache ace_cache_key ace_id anilist_store fst new_anilist_entry rewritten_anilist_entry
  anilist_get_fresh anilist_record anilist_stored
proof unfold_locales
  fix d :: db and w :: anilist_write
  assume d: "distinct (map ace_cache_key (db_anilist_cache d))"
  note found = scalar_row_of [OF d]
  show "returned (fst (anilist_store w d)) \<and>
      db_anilist_cache (snd (anilist_store w d)) =
        (case row_of ace_cache_key (db_anilist_cache d) (fst w) of
          None \<Rightarrow> db_anilist_cache d @ [new_anilist_entry (db_seq d) w]
        | Some r \<Rightarrow> update_where (\<lambda>x. ace_id x = ace_id r) (rewritten_anilist_entry w) (db_anilist_cache d)) \<and>
      db_seq (snd (anilist_store w d)) =
        (if row_of ace_cache_key (db_anilist_cache d) (fst w) = None then db_seq d + 1 else db_seq d)"
    by (cases "row_of ace_cache_key (db_anilist_cache d) (fst w)")
      (simp_all add: anilist_store_def found eff_bind_def fresh_id_def)
  fix k t
  show "anilist_get_fresh k t d = (return (case row_of ace_cache_key (db_anilist_cache d) k of None \<Rightarrow> None
         | Some r \<Rightarrow> if cr_expires_at (anilist_record r) \<le> t then None else Some (anilist_record r)), d)"
    by (simp add: anilist_get_fresh_def found anilist_record_def split: option.split)
qed (auto simp: new_anilist_entry_def rewritten_anilist_entry_def anilist_record_def anilist_stored_def)

section \<open>Answers are requested once\<close>

definition cache_wf :: "db \<Rightarrow> bool" where
  "cache_wf d \<longleftrightarrow> table_ok tce_cache_key tce_id (db_seq d) (db_tmdb_cache d) \<and>
     table_ok ace_cache_key ace_id (db_seq d) (db_anilist_cache d)"

lemma on_db_run: "on_db m s = (fst (m (ms_db s)), s\<lparr>ms_db := snd (m (ms_db s))\<rparr>)"
  by (simp add: on_db_def case_prod_unfold)

lemma tmdb_get_json_keeps_db: "ms_db (snd (tmdb_get_json env c e ps s)) = ms_db s"
proof -
  have get: "ms_db (snd (tmdb_safe_get env c e hs qs s)) = ms_db s" for hs qs s
    by (auto simp: tmdb_safe_get_def eff_catch_def on_world_def split: prod.split sum.split)
  show ?thesis
    by (auto simp: tmdb_get_json_def eff_bind_def get split: prod.split sum.split)
      (metis get snd_conv)+
qed

text \<open>A miss sends the request once and stores its answer.\<close>

lemma tmdb_miss_run:
  assumes "fst (tmdb_cached env e ps s) = return None" "tmdb_service_get_json env c e ps ttl s = (return p, s')"
    and "snd (tmdb_cached env e ps s) = s"
  shows "ms_db s' = snd (tmdb_store (tmdb_cache_key e ps, e, ps, p, ttl, me_utc_now env (ms_world s')) (ms_db s))"
  using assms tmdb_get_json_keeps_db [of env c e ps s]
  by (auto simp: tmdb_service_get_json_def eff_bind_run eff_then_def clock_now_def on_db_run prod_eq_iff
      split: sum.splits)

lemma tmdb_cached_run:
  assumes "cache_wf (ms_db s)"
  shows "snd (tmdb_cached env e ps s) = s"
    "fst (tmdb_cached env e ps s) = fst (tmdb_get_fresh (tmdb_cache_key e ps) (me_utc_now env (ms_world s)) (ms_db s))"
  using assms
  by (simp_all add: tmdb_cached_def clock_now_def on_db_run tmdb.get_fresh_row cache_wf_def table_ok_def)

text \<open>C37. An answer of TMDB that had to be requested is given again, without another request, to every
  later question with the same cache key until its time to live has passed, whatever happened in between
  outside this table; the stored row holds neither the API key parameter nor a key that depends on it.\<close>

theorem tmdb_answer_cached:
  assumes "cache_wf (ms_db s)" "fst (tmdb_cached env e ps s) = return None"
    and "tmdb_service_get_json env c e ps ttl s = (return p, s')"
    and "db_tmdb_cache (ms_db t) = db_tmdb_cache (ms_db s')" "cache_wf (ms_db t)"
    and "me_utc_now env (ms_world t) < me_utc_now env (ms_world s') + ttl"
    and "tmdb_cache_key e' ps' = tmdb_cache_key e ps"
  shows "tmdb_service_get_json env c' e' ps' ttl' t = (return p, t) \<and>
    tmdb_cache_key e (AList.update ''api_key'' k ps) = tmdb_cache_key e ps \<and>
    (\<exists>r\<in>set (db_tmdb_cache (ms_db s')). tce_cache_key r = tmdb_cache_key e ps \<and>
       tce_response_payload r = p \<and> (\<forall>(name, v)\<in>set (tce_request_params r). casefold name \<noteq> ''api_key''))"
proof -
  let ?w = "(tmdb_cache_key e ps, e, ps, p, ttl, me_utc_now env (ms_world s'))"
  have db: "ms_db s' = snd (tmdb_store ?w (ms_db s))"
    using tmdb_miss_run [OF assms(2,3) tmdb_cached_run(1) [OF assms(1)]] .
  have wf: "tmdb.table_wf (ms_db s)" using assms(1) by (simp add: tmdb.table_wf_def cache_wf_def)
  obtain r where row: "row_of tce_cache_key (db_tmdb_cache (ms_db s')) (tmdb_cache_key e ps) = Some r"
    and r: "tmdb_record r = tmdb_stored ?w" "tce_request_params r = public_params ps" "tce_response_payload r = p"
    unfolding db tmdb.upsert_refines [OF wf]
    by (auto simp: tmdb_record_def tmdb_stored_def new_tmdb_entry_def rewritten_tmdb_entry_def split: option.split)
  have "tmdb_cached env e' ps' t = (return (Some (tmdb_stored ?w)), t)"
    using tmdb_cached_run [OF assms(5), of env e' ps'] assms(4-7) row r(1)
    by (simp add: prod_eq_iff tmdb.get_fresh_row cache_wf_def table_ok_def) (simp add: tmdb_stored_def)
  then have hit: "tmdb_service_get_json env c' e' ps' ttl' t = (return p, t)"
    by (simp add: tmdb_service_get_json_def eff_bind_def tmdb_stored_def)
  have "public_params (AList.update ''api_key'' k ps) = public_params ps"
    by (induction ps) (auto simp: public_params_def is_upper_def casefold_char_def code_def)
  then have key: "tmdb_cache_key e (AList.update ''api_key'' k ps) = tmdb_cache_key e ps"
    by (simp add: tmdb_cache_key_def)
  have "r \<in> set (db_tmdb_cache (ms_db s'))" "tce_cache_key r = tmdb_cache_key e ps"
    using row_of_Some [OF row] by auto
  moreover have "\<forall>(name, v)\<in>set (public_params ps). casefold name \<noteq> ''api_key''" by (auto simp: public_params_def)
  ultimately show ?thesis using hit key r(2,3) by (intro conjI bexI [of _ r]) simp_all
qed

definition demo_metadata_env :: "time metadata_env" where
  "demo_metadata_env = \<lparr>me_get = (\<lambda>_ _ _ _ w. (return \<lparr>rs_status = 200, rs_json = return (JObj [])\<rparr>, w + 1)),
     me_post = (\<lambda>_ _ w. (return \<lparr>rs_status = 200, rs_json = return (JObj [])\<rparr>, w + 1)),
     me_utc_now = (\<lambda>w. w), me_sha256 = (\<lambda>t. t)\<rparr>"

definition demo_metadata_state :: "time metadata_state" where
  "demo_metadata_state = \<lparr>ms_world = 0, ms_db = empty_db\<rparr>"

theorem tmdb_answer_cached_witness:
  "let c = \<lparr>tm_api_key = ''k'', tm_base_url = ''u''\<rparr>;
       t = snd (tmdb_service_get_json demo_metadata_env c ''/tv/1'' [] 10 demo_metadata_state)
   in tmdb_service_get_json demo_metadata_env c ''/tv/1'' [] 10 t = (return [], t)"
proof -
  let ?c = "\<lparr>tm_api_key = ''k'', tm_base_url = ''u''\<rparr>"
  let ?run = "tmdb_service_get_json demo_metadata_env ?c ''/tv/1'' [] 10 demo_metadata_state"
  have miss: "tmdb_cached demo_metadata_env ''/tv/1'' [] demo_metadata_state = (return None, demo_metadata_state)"
    by (simp add: tmdb_cached_def clock_now_def on_db_def demo_metadata_state_def tmdb_get_fresh_def empty_db_def)
  have get: "tmdb_get_json demo_metadata_env ?c ''/tv/1'' [] demo_metadata_state = (return [], \<lparr>ms_world = 1, ms_db = empty_db\<rparr>)"
    by (simp add: tmdb_get_json_def uses_bearer_token_def startswith_def tmdb_safe_get_def eff_catch_def on_world_def
        demo_metadata_env_def tmdb_payload_def is_error_status_def HTTP_UNAUTHORIZED_def demo_metadata_state_def eff_bind_def)
  have run: "?run = (return [], \<lparr>ms_world = 1, ms_db = empty_db\<lparr>db_seq := 2, db_tmdb_cache :=
      [new_tmdb_entry 1 (tmdb_cache_key ''/tv/1'' [], ''/tv/1'', [], [], 10, 1)]\<rparr>\<rparr>)"
    by (simp add: tmdb_service_get_json_def miss get clock_now_def)
      (simp add: on_db_def tmdb_store_def eff_bind_def eff_then_def fresh_id_def empty_db_def demo_metadata_env_def)
  have wf: "cache_wf (ms_db demo_metadata_state)" "cache_wf (ms_db (snd ?run))"
    unfolding run by (simp_all add: cache_wf_def table_ok_def demo_metadata_state_def empty_db_def new_tmdb_entry_def)
  have hyps: "fst (tmdb_cached demo_metadata_env ''/tv/1'' [] demo_metadata_state) = return None" "?run = (return [], snd ?run)"
    "me_utc_now demo_metadata_env (ms_world (snd ?run)) < me_utc_now demo_metadata_env (ms_world (snd ?run)) + 10"
    by (simp_all add: miss run)
  show ?thesis
    unfolding Let_def by (rule tmdb_answer_cached [OF wf(1) hyps(1,2) refl wf(2) hyps(3) refl, THEN conjunct1])
qed

end
