(* ===== verification/LibraryPaths.thy ===== *)
theory LibraryPaths
  imports PathLib Domain
begin

text \<open>
  Where a library entry lives: api/app/library/entries.py, api/app/library/paths.py,
  api/app/library/version_paths.py and api/app/library/classification_override.py.
\<close>

section \<open>Entries\<close>

record library_entry =
  le_category :: library_category
  le_title :: string
  le_resolver_url :: string
  le_year :: "int option"
  le_season_number :: "int option"
  le_episode_number :: "int option"

text \<open>The checks of \<open>__post_init__\<close>.\<close>

definition check_entry :: "library_entry \<Rightarrow> library_entry result" where
  "check_entry e =
     (if strip (le_title e) = [] then raise (ValueError ''Library entry title is required.'')
      else if strip (le_resolver_url e) = []
      then raise (ValueError ''Library entry resolver URL is required.'')
      else if le_category e = Movies then return e
      else if le_category e = Anime \<and> le_season_number e = None \<and> le_episode_number e = None
      then return e
      else (case (le_season_number e, le_episode_number e) of
        (Some s, Some n) \<Rightarrow>
          if s < 0 \<or> n < 0 then raise (ValueError ''Season and episode numbers cannot be negative.'')
          else return e
      | _ \<Rightarrow> raise (ValueError ''Series entries require season and episode numbers.'')))"

definition valid_entry :: "library_entry \<Rightarrow> bool" where
  "valid_entry e \<longleftrightarrow> check_entry e = return e"

section \<open>Path segments\<close>

definition invalid_segment_char :: "char \<Rightarrow> bool" where
  "invalid_segment_char c \<longleftrightarrow> c \<in> set [CHR ''/'', CHR 0x5C, CHR '':'', CHR ''*'', CHR ''?'',
     CHR 0x22, CHR ''<'', CHR ''>'', CHR ''|''] \<or> code c < 32"

definition INVALID_SEGMENT_CHARS :: regex where "INVALID_SEGMENT_CHARS = Chr invalid_segment_char"
definition WHITESPACE :: regex where "WHITESPACE = plus (Chr is_space)"

definition clean_path_segment :: "string option \<Rightarrow> string \<Rightarrow> string" where
  "clean_path_segment v fallback =
     (case v of None \<Rightarrow> fallback
      | Some s \<Rightarrow>
          let cleaned = sub INVALID_SEGMENT_CHARS '' '' s;
              cleaned = replace_all ''..'' '' '' cleaned;
              cleaned = sub WHITESPACE '' '' cleaned;
              cleaned = strip_by (\<lambda>c. c \<in> set '' .'') cleaned
          in if cleaned = [] then fallback else cleaned)"

abbreviation unknown_segment :: string where "unknown_segment \<equiv> ''Unknown''"

definition title_year :: "string \<Rightarrow> int option \<Rightarrow> string" where
  "title_year title year =
     (let clean_title = clean_path_segment (Some title) unknown_segment
      in case year of None \<Rightarrow> clean_title | Some y \<Rightarrow> clean_title @ '' ('' @ str_int y @ '')'')"

definition season_folder :: "int \<Rightarrow> string" where
  "season_folder season_number = ''Season '' @ pad2 season_number"

definition episode_suffix :: "int \<Rightarrow> int \<Rightarrow> string" where
  "episode_suffix season_number episode_number = ''S'' @ pad2 season_number @ ''E'' @ pad2 episode_number"

definition movie_like :: "library_entry \<Rightarrow> bool" where
  "movie_like e \<longleftrightarrow> le_category e = Movies \<or>
     (le_category e = Anime \<and> le_season_number e = None \<and> le_episode_number e = None)"

definition library_entry_relative_path :: "library_entry \<Rightarrow> path result" where
  "library_entry_relative_path e =
     (if movie_like e
      then (let root_folder = title_year (le_title e) (le_year e)
            in return (path_of [category_str (le_category e), root_folder, root_folder @ ''.strm'']))
      else (case (le_season_number e, le_episode_number e) of
        (Some s, Some n) \<Rightarrow>
          let clean_title = clean_path_segment (Some (le_title e)) unknown_segment
          in return (path_of [category_str (le_category e), clean_title, season_folder s,
                clean_title @ '' - '' @ episode_suffix s n @ ''.strm''])
      | _ \<Rightarrow> raise (ValueError ''Series entries require season and episode numbers.'')))"

section \<open>Other versions of the same media\<close>

definition ci :: "string \<Rightarrow> regex" where "ci = lit_ci"

definition version_sep :: regex where "version_sep = Star (one_of '' ._-'')"

definition version_word :: "regex \<Rightarrow> regex" where
  "version_word r = seqs [NotBehind is_word, r, NotAhead (Chr is_word)]"

definition blu_ray :: regex where "blu_ray = seqs [ci ''blu'', version_sep, ci ''ray'']"

definition VERSION_TOKENS :: "(regex \<times> string) list" where
  "VERSION_TOKENS =
    [(version_word (ci ''2160p''), ''2160p''),
     (version_word (ci ''1080p''), ''1080p''),
     (version_word (ci ''720p''), ''720p''),
     (version_word (Alt (seqs [ci ''uhd'', version_sep, blu_ray]) (ci ''uhd'')), ''UHD''),
     (version_word (ci ''remux''), ''Remux''),
     (version_word blu_ray, ''BluRay''),
     (version_word (seqs [ci ''web'', version_sep, ci ''dl'']), ''WEB-DL''),
     (version_word (seqs [ci ''web'', version_sep, ci ''rip'']), ''WEBRip''),
     (version_word (ci ''hdtv''), ''HDTV''),
     (version_word (alts [seqs [ci ''dolby'', version_sep, ci ''vision''], ci ''dovi'', ci ''dv'']), ''DV''),
     (Alt (seqs [NotBehind is_word, ci ''hdr10'', opt (chr (CHR ''+''))])
          (seqs [NotBehind is_word, ci ''hdr'', NotAhead (Chr is_word)]), ''HDR''),
     (version_word (alts [ci ''x265'', seqs [ci ''h'', version_sep, lit ''265''], ci ''hevc'']), ''HEVC''),
     (version_word (alts [ci ''x264'', seqs [ci ''h'', version_sep, lit ''264''], ci ''avc'']), ''H264''),
     (version_word (ci ''av1''), ''AV1'')]"

text \<open>\<open>dict.fromkeys\<close> keeps the first of equal labels, in order.\<close>

definition unique_in_order :: "'a list \<Rightarrow> 'a list" where
  "unique_in_order xs = rev (remdups (rev xs))"

definition version_label :: "string \<Rightarrow> string" where
  "version_label source_name =
     (let labels = map snd (filter (\<lambda>(r, l). search r source_name \<noteq> None) VERSION_TOKENS)
      in if labels = [] then ''Alternate''
         else clean_path_segment (Some (join '' '' (unique_in_order labels))) ''Alternate'')"

definition alternate_version_path :: "path \<Rightarrow> string \<Rightarrow> string option \<Rightarrow> path" where
  "alternate_version_path canonical_path source_name unique_suffix =
     (let label = version_label source_name;
          suffix = (case unique_suffix of None \<Rightarrow> [] | Some u \<Rightarrow> '' ['' @ u @ '']'')
      in with_name canonical_path
           (path_stem canonical_path @ '' - '' @ label @ suffix @ path_suffix canonical_path))"

section \<open>Classification overrides\<close>

definition PREFIX_PARTS :: nat where "PREFIX_PARTS = 2"

record classification_override =
  co_source_category :: library_category
  co_source_prefix :: string
  co_title :: string
  co_target_category :: library_category

definition target_prefix_for_override :: "classification_override \<Rightarrow> string" where
  "target_prefix_for_override ov =
     (let parts = path_parts (parse_path (co_source_prefix ov))
      in if PREFIX_PARTS \<le> length parts
         then as_posix (path_of (category_str (co_target_category ov) # drop 1 parts))
         else as_posix (path_of [category_str (co_target_category ov), co_title ov]))"

definition source_prefix_for_entry :: "library_entry \<Rightarrow> string result" where
  "source_prefix_for_entry e =
     bind_res (library_entry_relative_path e) (\<lambda>p.
       let parts = path_parts p
       in return (if PREFIX_PARTS \<le> length parts then as_posix (path_of [parts ! 0, parts ! 1])
                  else as_posix p))"

definition can_apply_target :: "library_entry \<Rightarrow> library_category \<Rightarrow> bool" where
  "can_apply_target e target_category =
     (let is_episode = le_season_number e \<noteq> None \<or> le_episode_number e \<noteq> None
      in if target_category = Movies then \<not> is_episode
         else if target_category = Shows then is_episode else True)"

definition apply_classification_override ::
  "library_entry \<Rightarrow> classification_override option \<Rightarrow> library_entry result" where
  "apply_classification_override e override =
     (case override of None \<Rightarrow> return e
      | Some ov \<Rightarrow>
          if co_source_category ov \<noteq> le_category e then return e
          else if co_target_category ov = le_category e then return e
          else if \<not> can_apply_target e (co_target_category ov) then return e
          else check_entry \<lparr>le_category = co_target_category ov, le_title = le_title e,
                 le_resolver_url = le_resolver_url e, le_year = le_year e,
                 le_season_number = le_season_number e, le_episode_number = le_episode_number e\<rparr>)"

section \<open>Cleaned segments\<close>

fun dotdot :: "string \<Rightarrow> bool" where
  "dotdot (x # y # xs) = ((x = CHR ''.'' \<and> y = CHR ''.'') \<or> dotdot (y # xs))"
| "dotdot xs = False"

definition safe_segment :: "string \<Rightarrow> bool" where
  "safe_segment w \<longleftrightarrow> w \<noteq> [] \<and> (\<forall>c\<in>set w. \<not> invalid_segment_char c) \<and> \<not> dotdot w \<and>
     hd w \<notin> set '' .'' \<and> last w \<notin> set '' .''"

lemma dotdot_Cons: "dotdot (x # xs) \<longleftrightarrow> (x = CHR ''.'' \<and> xs \<noteq> [] \<and> hd xs = CHR ''.'') \<or> dotdot xs"
  by (cases xs) auto

lemma dotdot_append: "dotdot (xs @ ys) \<longleftrightarrow> dotdot xs \<or> dotdot ys \<or>
     (xs \<noteq> [] \<and> ys \<noteq> [] \<and> last xs = CHR ''.'' \<and> hd ys = CHR ''.'')"
  by (induction xs) (auto simp: dotdot_Cons)

lemma dotdot_rstrip: "\<not> dotdot s \<Longrightarrow> \<not> dotdot (rstrip_by P s)"
  using rstrip_by_prefix [of s P] by (metis dotdot_append)

lemma dotdot_dropWhile: "\<not> dotdot s \<Longrightarrow> \<not> dotdot (dropWhile P s)"
  by (metis dotdot_append takeWhile_dropWhile_id)

lemma dotdot_strip: "\<not> dotdot s \<Longrightarrow> \<not> dotdot (strip_by P s)"
  by (simp add: strip_by_def lstrip_by_def dotdot_rstrip dotdot_dropWhile)

lemma hd_replace_dots:
  "replace_all ''..'' '' '' s \<noteq> [] \<Longrightarrow> hd (replace_all ''..'' '' '' s) = CHR ''.'' \<Longrightarrow>
     s \<noteq> [] \<and> hd s = CHR ''.'' \<and> (tl s \<noteq> [] \<longrightarrow> hd (tl s) \<noteq> CHR ''.'')"
  by (cases s; cases "tl s") (auto simp: startswith_def split: if_splits)

lemma replace_dots: "\<not> dotdot (replace_all ''..'' '' '' s)"
proof (induction s rule: length_induct)
  case (1 s)
  show ?case
  proof (cases s)
    case (Cons x xs)
    show ?thesis
    proof (cases "startswith s ''..''")
      case True
      then have "replace_all ''..'' '' '' s = CHR '' '' # replace_all ''..'' '' '' (drop 2 s)"
        using Cons by simp
      moreover have "\<not> dotdot (replace_all ''..'' '' '' (drop 2 s))" using 1 Cons by simp
      ultimately show ?thesis by (simp add: dotdot_Cons)
    next
      case False
      then have r: "replace_all ''..'' '' '' s = x # replace_all ''..'' '' '' xs" using Cons by simp
      have "\<not> dotdot (replace_all ''..'' '' '' xs)" using 1 Cons by simp
      moreover have "hd (replace_all ''..'' '' '' xs) \<noteq> CHR ''.''"
        if "x = CHR ''.''" "replace_all ''..'' '' '' xs \<noteq> []"
      proof
        assume "hd (replace_all ''..'' '' '' xs) = CHR ''.''"
        with that(2) have "xs \<noteq> []" "hd xs = CHR ''.''" using hd_replace_dots by blast+
        with that(1) False Cons show False by (cases xs) (auto simp: startswith_def)
      qed
      ultimately show ?thesis by (auto simp: r dotdot_Cons)
    qed
  qed simp
qed

lemma set_replace_all: "set (replace_all old new s) \<subseteq> set s \<union> set new"
proof (induction old new s rule: replace_all.induct)
  case (2 old new x xs)
  show ?case
  proof (cases "old \<noteq> [] \<and> startswith (x # xs) old")
    case True
    have "set (drop (length old) (x # xs)) \<subseteq> set (x # xs)" by (rule set_drop_subset)
    with 2(1) [OF True] have "set (replace_all old new (drop (length old) (x # xs))) \<subseteq> set (x # xs) \<union> set new"
      by blast
    with True show ?thesis by auto
  next
    case False
    with 2(2) [OF False] show ?thesis by auto
  qed
qed simp

lemma set_sub_runs: "set (sub_runs P new s) \<subseteq> set s \<union> set new"
proof (induction P new s rule: sub_runs.induct)
  case (2 P new x xs)
  then show ?case by (auto split: if_splits dest: set_dropWhileD)
qed simp

lemma hd_sub_runs:
  "\<not> P (CHR ''.'') \<Longrightarrow> sub_runs P '' '' s \<noteq> [] \<Longrightarrow> hd (sub_runs P '' '' s) = CHR ''.'' \<Longrightarrow>
     s \<noteq> [] \<and> hd s = CHR ''.''"
  by (cases s) (auto split: if_splits)

lemma sub_runs_dots:
  "\<not> P (CHR ''.'') \<Longrightarrow> \<not> dotdot s \<Longrightarrow> \<not> dotdot (sub_runs P '' '' s)"
proof (induction P "'' ''" s rule: sub_runs.induct)
  case (2 P x xs)
  show ?case
  proof (cases "P x")
    case True
    moreover have "\<not> dotdot (dropWhile P xs)"
      using "2.prems"(2) by (simp add: dotdot_Cons dotdot_dropWhile)
    ultimately show ?thesis using 2 by (simp add: dotdot_Cons)
  next
    case False
    with 2 hd_sub_runs [of P xs] show ?thesis by (auto simp: dotdot_Cons)
  qed
qed simp

lemma not_invalid_space [simp]: "\<not> invalid_segment_char (CHR '' '')"
  by (simp add: invalid_segment_char_def code_def)

lemma clean_path_segment_safe:
  assumes "safe_segment fallback"
  shows "safe_segment (clean_path_segment v fallback)"
proof (cases v)
  case None
  with assms show ?thesis by (simp add: clean_path_segment_def)
next
  case (Some s)
  let ?P = "\<lambda>c. c \<in> set '' .''"
  define a where "a = sub INVALID_SEGMENT_CHARS '' '' s"
  define b where "b = replace_all ''..'' '' '' a"
  define c where "c = sub WHITESPACE '' '' b"
  define d where "d = strip_by ?P c"
  have a: "\<forall>x\<in>set a. \<not> invalid_segment_char x"
    by (auto simp: a_def INVALID_SEGMENT_CHARS_def sub_chr sub_chars_def)
  then have b: "\<forall>x\<in>set b. \<not> invalid_segment_char x"
    using set_replace_all [of "''..''" "'' ''" a] by (auto simp: b_def)
  then have c: "\<forall>x\<in>set c. \<not> invalid_segment_char x"
    using set_sub_runs [of is_space "'' ''" b] by (auto simp: c_def WHITESPACE_def sub_plus)
  have "\<not> dotdot c"
    by (simp add: c_def WHITESPACE_def sub_plus sub_runs_dots b_def replace_dots is_space_def code_def)
  then have "\<not> dotdot d" by (simp add: d_def dotdot_strip)
  moreover have "\<forall>x\<in>set d. \<not> invalid_segment_char x"
    using c set_strip_by [of ?P c] by (auto simp: d_def)
  moreover have "d \<noteq> [] \<Longrightarrow> \<not> ?P (hd d) \<and> \<not> ?P (last d)"
    unfolding d_def using hd_strip_by [of ?P c] last_strip_by [of ?P c] by blast
  ultimately have "d \<noteq> [] \<Longrightarrow> safe_segment d" by (simp add: safe_segment_def)
  moreover have "clean_path_segment v fallback = (if d = [] then fallback else d)"
    by (simp add: clean_path_segment_def Some a_def b_def c_def d_def Let_def)
  ultimately show ?thesis using assms by simp
qed

lemma invalid_slash [simp]: "invalid_segment_char (CHR ''/'')"
  by (simp add: invalid_segment_char_def)

lemma safe_segment_plain:
  assumes "safe_segment w"
  shows "plain_seg w"
proof -
  have "CHR ''/'' \<notin> set w" using assms invalid_slash unfolding safe_segment_def by blast
  moreover have "w \<noteq> []" "hd w \<noteq> CHR ''.''" using assms by (simp_all add: safe_segment_def)
  ultimately show ?thesis by (auto simp: plain_seg_def)
qed

lemma safe_unknown [simp]: "safe_segment unknown_segment"
  by (simp add: safe_segment_def invalid_segment_char_def code_def)

lemma clean_nonempty [simp]: "safe_segment fb \<Longrightarrow> clean_path_segment v fb \<noteq> []"
  using clean_path_segment_safe [of fb v] by (simp add: safe_segment_def)

lemma safe_alternate [simp]: "safe_segment ''Alternate''"
  by (simp add: safe_segment_def invalid_segment_char_def code_def)

section \<open>The path of an entry\<close>

lemma no_slash_dec [simp]: "CHR ''/'' \<notin> set (dec n)"
  using dec_digits [of n] by (auto simp: list_all_iff is_digit_def code_def)

lemma no_slash_numbers [simp]:
  "CHR ''/'' \<notin> set (str_int i)" "CHR ''/'' \<notin> set (pad2 i)"
  by (simp_all add: str_int_def pad2_def)

lemma no_slash_clean [simp]: "CHR ''/'' \<notin> set (clean_path_segment v unknown_segment)"
  using safe_segment_plain [OF clean_path_segment_safe [of unknown_segment v]]
  by (simp add: plain_seg_def)

lemma no_slash_title_year [simp]: "CHR ''/'' \<notin> set (title_year t y)"
  by (auto simp: title_year_def Let_def split: option.splits)

lemma title_year_nonempty [simp]: "title_year t y \<noteq> []"
  by (cases y) (simp_all add: title_year_def Let_def)

lemma plain_title_year: "plain_seg (title_year t y)"
proof (cases y)
  case None
  then show ?thesis
    using safe_segment_plain [OF clean_path_segment_safe [of unknown_segment "Some t"]]
    by (simp add: title_year_def)
next
  case (Some v)
  then have "last (title_year t y) = CHR '')''" by (simp add: title_year_def)
  then show ?thesis by (auto simp: plain_seg_def)
qed

lemma plain_strm: "CHR ''/'' \<notin> set w \<Longrightarrow> plain_seg (w @ ''.strm'')"
  by (auto simp: plain_seg_def append_eq_Cons_conv)

lemma plain_category [simp]: "plain_seg (category_str c)"
  by (cases c) (simp_all add: plain_seg_def)

lemma plain_clean [simp]: "plain_seg (clean_path_segment v unknown_segment)"
  by (simp add: safe_segment_plain clean_path_segment_safe)

lemma plain_season [simp]: "plain_seg (season_folder s)"
  by (simp add: season_folder_def plain_seg_def)

lemma entry_numbers:
  "valid_entry e \<Longrightarrow> \<not> movie_like e \<Longrightarrow> \<exists>s n. le_season_number e = Some s \<and> le_episode_number e = Some n \<and> 0 \<le> s \<and> 0 \<le> n"
  by (auto simp: valid_entry_def check_entry_def movie_like_def split: if_splits option.splits)

text \<open>The segments of an entry's path: the code builds them with \<open>Path(...)\<close>, and none is split.\<close>

definition entry_segments :: "library_entry \<Rightarrow> string list" where
  "entry_segments e =
     (if movie_like e
      then [category_str (le_category e), title_year (le_title e) (le_year e),
            title_year (le_title e) (le_year e) @ ''.strm'']
      else [category_str (le_category e), clean_path_segment (Some (le_title e)) unknown_segment,
            season_folder (the (le_season_number e)),
            clean_path_segment (Some (le_title e)) unknown_segment @ '' - '' @
              episode_suffix (the (le_season_number e)) (the (le_episode_number e)) @ ''.strm''])"

lemma plain_episode_file:
  "plain_seg (clean_path_segment v unknown_segment @ '' - '' @ episode_suffix s n @ ''.strm'')"
  using plain_strm [of "clean_path_segment v unknown_segment @ '' - '' @ episode_suffix s n"]
  by (simp add: episode_suffix_def)

lemma entry_segments_plain: "\<forall>w\<in>set (entry_segments e). plain_seg w"
  using plain_episode_file by (auto simp: entry_segments_def plain_title_year plain_strm)

lemma relative_path_segments:
  assumes "valid_entry e"
  shows "library_entry_relative_path e = return (Rel (entry_segments e))"
proof (cases "movie_like e")
  case True
  then show ?thesis
    by (simp add: library_entry_relative_path_def entry_segments_def Let_def path_of_plain
        plain_title_year plain_strm del: path_of.simps)
next
  case False
  with entry_numbers [OF assms] obtain s n where
    "le_season_number e = Some s" "le_episode_number e = Some n" by blast
  with False plain_episode_file show ?thesis
    by (simp add: library_entry_relative_path_def entry_segments_def Let_def path_of_plain
        del: path_of.simps)
qed

lemma contains_dotdot: "contains ''..'' s \<longleftrightarrow> dotdot s"
  by (induction s rule: dotdot.induct) (auto simp: startswith_def)

text \<open>
  Overrides only change the category, and only where the numbers allow it. A movie has no episode
  numbers: the constructor does not check this, the callers build movies without them.
\<close>

definition numbers_ok :: "library_entry \<Rightarrow> bool" where
  "numbers_ok e \<longleftrightarrow>
     (le_category e = Movies \<longrightarrow> le_season_number e = None \<and> le_episode_number e = None)"

lemma override_cases:
  assumes "valid_entry e" "numbers_ok e"
  shows "apply_classification_override e ov = return e \<or>
    (\<exists>o'. ov = Some o' \<and> co_source_category o' = le_category e \<and> co_target_category o' \<noteq> le_category e \<and>
       can_apply_target e (co_target_category o') \<and> valid_entry (e\<lparr>le_category := co_target_category o'\<rparr>) \<and>
       movie_like (e\<lparr>le_category := co_target_category o'\<rparr>) = movie_like e \<and>
       apply_classification_override e ov = return (e\<lparr>le_category := co_target_category o'\<rparr>))"
proof (cases ov)
  case (Some o')
  let ?e = "e\<lparr>le_category := co_target_category o'\<rparr>"
  have e: "\<lparr>le_category = co_target_category o', le_title = le_title e,
     le_resolver_url = le_resolver_url e, le_year = le_year e,
     le_season_number = le_season_number e, le_episode_number = le_episode_number e\<rparr> = ?e"
    by (cases e) simp
  show ?thesis
  proof (cases "co_source_category o' = le_category e \<and> co_target_category o' \<noteq> le_category e \<and>
      can_apply_target e (co_target_category o')")
    case False
    then show ?thesis using Some by (auto simp: apply_classification_override_def)
  next
    case True
    have ok: "strip (le_title e) \<noteq> []" "strip (le_resolver_url e) \<noteq> []"
      using assms(1) by (auto simp: valid_entry_def check_entry_def split: if_splits)
    have "valid_entry ?e"
      using True assms ok
      by (cases "le_season_number e"; cases "le_episode_number e"; cases "co_target_category o'";
          cases "le_category e")
        (auto simp: valid_entry_def check_entry_def numbers_ok_def can_apply_target_def Let_def
          split: if_splits)
    moreover have "movie_like ?e = movie_like e"
      using True assms
      by (cases "le_season_number e"; cases "le_episode_number e"; cases "co_target_category o'";
          cases "le_category e")
        (auto simp: valid_entry_def check_entry_def movie_like_def numbers_ok_def can_apply_target_def
          Let_def split: if_splits)
    moreover have "apply_classification_override e ov = check_entry ?e"
      using True Some unfolding e [symmetric] by (simp add: apply_classification_override_def)
    ultimately show ?thesis using True Some by (simp add: valid_entry_def)
  qed
qed (simp add: apply_classification_override_def)

lemma source_prefix_segments:
  assumes "valid_entry e"
  shows "source_prefix_for_entry e = return (as_posix (Rel [category_str (le_category e), entry_segments e ! 1]))"
proof -
  have "plain_seg (category_str (le_category e))" "plain_seg (entry_segments e ! 1)"
    by (auto simp: entry_segments_def plain_title_year)
  moreover have "entry_segments e ! 0 = category_str (le_category e)" "2 \<le> length (entry_segments e)"
    by (auto simp: entry_segments_def)
  ultimately show ?thesis
    by (simp add: source_prefix_for_entry_def relative_path_segments [OF assms] Let_def
        PREFIX_PARTS_def path_of_plain del: path_of.simps as_posix.simps)
qed

section \<open>Properties\<close>

text \<open>Whatever a title, a release name or a hash-free provider answer contains, the path segment
  made of it is one harmless name: not empty, without separators and reserved or control
  characters, without two dots in a row, and neither starting nor ending with a space or a dot.\<close>

theorem cleaned_segment:
  "clean_path_segment v ''Unknown'' \<noteq> [] \<and>
   list_all (\<lambda>c. \<not> invalid_segment_char c) (clean_path_segment v ''Unknown'') \<and>
   \<not> contains ''..'' (clean_path_segment v ''Unknown'') \<and>
   hd (clean_path_segment v ''Unknown'') \<notin> {CHR '' '', CHR ''.''} \<and>
   last (clean_path_segment v ''Unknown'') \<notin> {CHR '' '', CHR ''.''}"
  using clean_path_segment_safe [OF safe_unknown, of v]
  unfolding safe_segment_def contains_dotdot list_all_iff by (simp del: clean_nonempty)

text \<open>C3. Every entry the constructor accepts has a library path, and it is a path of exactly three
  names (movies and anime films) or four (episodes) below its category's directory: no title can
  add, remove or climb a level.\<close>

theorem entry_path_shape:
  assumes "check_entry e = return e"
  shows "\<exists>ws. library_entry_relative_path e = return (Rel ws) \<and> list_all plain_seg ws \<and>
     hd ws = category_str (le_category e) \<and> endswith (last ws) ''.strm'' \<and>
     length ws = (if movie_like e then 3 else 4)"
proof -
  have "endswith (last (entry_segments e)) ''.strm''"
    by (auto simp: entry_segments_def endswith_iff)
  with relative_path_segments [of e] entry_segments_plain [of e] assms show ?thesis
    by (auto simp: valid_entry_def entry_segments_def list_all_iff)
qed

theorem entry_path_shape_witness:
  "\<exists>ws. library_entry_relative_path \<lparr>le_category = Shows, le_title = ''../../etc: x'',
      le_resolver_url = ''u'', le_year = None, le_season_number = Some 1, le_episode_number = Some 12\<rparr>
    = return (Rel ws) \<and> list_all plain_seg ws \<and> length ws = 4"
proof -
  let ?e = "\<lparr>le_category = Shows, le_title = ''../../etc: x'', le_resolver_url = ''u'', le_year = None,
    le_season_number = Some 1, le_episode_number = Some 12\<rparr>"
  have "check_entry ?e = return ?e"
    by (simp add: check_entry_def strip_def strip_by_def rstrip_by_def lstrip_by_def is_space_def code_def)
  from entry_path_shape [OF this] show ?thesis by (auto simp: movie_like_def)
qed

text \<open>A classification override never raises for a stored entry and only moves it: the entry
  keeps its title, numbers and URL, and its new folder is the target prefix that the override
  announces for the folder it was in.\<close>

theorem override_moves_folder:
  assumes "check_entry e = return e" "numbers_ok e"
    and "source_prefix_for_entry e = return (co_source_prefix ov)"
  shows "\<exists>e'. apply_classification_override e (Some ov) = return e' \<and> check_entry e' = return e' \<and>
     e' = e\<lparr>le_category := le_category e'\<rparr> \<and>
     (le_category e' \<noteq> le_category e \<longrightarrow>
        le_category e' = co_target_category ov \<and>
        source_prefix_for_entry e' = return (target_prefix_for_override ov))"
proof -
  have v: "valid_entry e" using assms(1) by (simp add: valid_entry_def)
  from override_cases [OF v assms(2), of "Some ov"] consider
      (same) "apply_classification_override e (Some ov) = return e"
    | (moved) "valid_entry (e\<lparr>le_category := co_target_category ov\<rparr>)"
        "movie_like (e\<lparr>le_category := co_target_category ov\<rparr>) = movie_like e"
        "apply_classification_override e (Some ov) = return (e\<lparr>le_category := co_target_category ov\<rparr>)"
    by auto
  then show ?thesis
  proof cases
    case same
    with assms(1) show ?thesis by auto
  next
    case moved
    let ?e = "e\<lparr>le_category := co_target_category ov\<rparr>"
    let ?w = "entry_segments e ! 1"
    have w: "entry_segments ?e ! 1 = ?w"
      using moved(2) by (simp add: entry_segments_def)
    have plain: "plain_seg ?w" by (auto simp: entry_segments_def plain_title_year)
    have "co_source_prefix ov = as_posix (Rel [category_str (le_category e), ?w])"
      using assms(3) source_prefix_segments [OF v] by simp
    then have "parse_path (co_source_prefix ov) = Rel [category_str (le_category e), ?w]"
      using plain parse_as_posix [of "[category_str (le_category e), ?w]"] by simp
    then have "target_prefix_for_override ov
        = as_posix (Rel [category_str (co_target_category ov), ?w])"
      using plain by (simp add: target_prefix_for_override_def PREFIX_PARTS_def Let_def path_of_plain
          del: path_of.simps as_posix.simps)
    moreover have "source_prefix_for_entry ?e
        = return (as_posix (Rel [category_str (co_target_category ov), ?w]))"
      using source_prefix_segments [OF moved(1)] w by simp
    ultimately show ?thesis using moved by (auto simp: valid_entry_def)
  qed
qed

theorem override_moves_folder_witness:
  "\<exists>e'. apply_classification_override
     \<lparr>le_category = Movies, le_title = ''Akira'', le_resolver_url = ''u'', le_year = Some 1988,
      le_season_number = None, le_episode_number = None\<rparr>
     (Some \<lparr>co_source_category = Movies, co_source_prefix = ''movies/Akira (1988)'', co_title = ''Akira'',
      co_target_category = Anime\<rparr>) = return e' \<and>
     source_prefix_for_entry e' = return ''anime/Akira (1988)''"
proof -
  let ?e = "\<lparr>le_category = Movies, le_title = ''Akira'', le_resolver_url = ''u'', le_year = Some 1988,
      le_season_number = None, le_episode_number = None\<rparr>"
  let ?ov = "\<lparr>co_source_category = Movies, co_source_prefix = ''movies/Akira (1988)'', co_title = ''Akira'',
      co_target_category = Anime\<rparr>"
  have c: "check_entry ?e = return ?e" "numbers_ok ?e"
    by (simp_all add: check_entry_def numbers_ok_def strip_def strip_by_def rstrip_by_def
        lstrip_by_def is_space_def code_def)
  have p: "source_prefix_for_entry ?e = return (co_source_prefix ?ov)"
    by code_simp
  have t: "target_prefix_for_override ?ov = ''anime/Akira (1988)''" by code_simp
  obtain e' where e': "apply_classification_override ?e (Some ?ov) = return e'"
     "le_category e' \<noteq> le_category ?e \<longrightarrow> source_prefix_for_entry e' = return (target_prefix_for_override ?ov)"
    using override_moves_folder [OF c p] by blast
  have "le_category e' = Anime"
    using e'(1) by (auto simp: apply_classification_override_def can_apply_target_def Let_def
        check_entry_def split: if_splits)
  with e' t show ?thesis by simp
qed

end
