(* ===== verification/LibraryFiles.thy ===== *)
theory LibraryFiles
  imports FileStore LibraryPaths
begin

text \<open>
  The generated files of the library: path confinement (api/app/library/paths.py), the STRM writer
  (strm_writer.py), the mutation journal (mutation_journal.py), the synchronisation snapshot
  (sync_snapshot.py), the removal of stale files (stale_cleanup.py) and of prefixes (removal.py).
  A resolved path is the list of its segments. Where the code iterates over a set, the set is
  given as a list: the theorems hold for every order.
\<close>

section \<open>Confinement\<close>

definition ensure_within_root :: "fs \<Rightarrow> path \<Rightarrow> path \<Rightarrow> fpath result" where
  "ensure_within_root s base target =
     (let resolved_root = resolve s base; resolved_target = resolve s target
      in if is_prefix resolved_root resolved_target then return resolved_target
         else raise (ValueError (''Target path is outside library root: '' @ as_posix target)))"

text \<open>\<open>_remove_empty_parents\<close>, which four modules define with the same body.\<close>

function remove_up :: "fpath \<Rightarrow> fpath \<Rightarrow> fs \<Rightarrow> fs" where
  "remove_up base current s =
     (if current \<noteq> base \<and> path_exists s current
      then (case rmdir current s of
          (Inl e, s') \<Rightarrow> s'
        | (Inr u, s') \<Rightarrow> remove_up base (butlast current) s')
      else s)"
  by pat_completeness auto
termination
  by (relation "measure (\<lambda>(base, current, s). length current)") (auto simp: rmdir_def split: if_splits)

declare remove_up.simps [simp del]

definition remove_empty_parents :: "fpath \<Rightarrow> fpath \<Rightarrow> unit io" where
  "remove_empty_parents base start = (\<lambda>s.
     eff_bind (eff_lift (ensure_within_root s (Abs base) (Abs start)))
       (\<lambda>current. eff_modify (remove_up base current)) s)"

section \<open>STRM files\<close>

definition strm_file_path :: "fs \<Rightarrow> path \<Rightarrow> library_entry \<Rightarrow> fpath result" where
  "strm_file_path s library_root e =
     bind_res (library_entry_relative_path e)
       (\<lambda>relative_path. ensure_within_root s library_root (join_path library_root relative_path))"

definition write_strm_file :: "path \<Rightarrow> library_entry \<Rightarrow> path option \<Rightarrow> fpath io" where
  "write_strm_file library_root e target_path = (\<lambda>s.
     eff_bind
       (eff_lift (case target_path of
          None \<Rightarrow> strm_file_path s library_root e
        | Some p \<Rightarrow> ensure_within_root s library_root p))
       (\<lambda>target s.
          let content = le_resolver_url e @ [CHR 0x0A];
              write = eff_then (atomic_write_text target content) (eff_return target)
          in if path_exists s target
             then eff_bind (read_file target) (\<lambda>c. if c = content then eff_return target else write) s
             else write s) s)"

section \<open>The mutation journal\<close>

record journal =
  j_root :: fpath
  j_originals :: "(fpath, string option) odict"

definition journal_create :: "fs \<Rightarrow> path \<Rightarrow> journal" where
  "journal_create s library_root = \<lparr>j_root = resolve s library_root, j_originals = []\<rparr>"

definition journal_track :: "fs \<Rightarrow> path \<Rightarrow> journal \<Rightarrow> journal result" where
  "journal_track s p j =
     bind_res (ensure_within_root s (Abs (j_root j)) p) (\<lambda>safe_path.
       let relative_path = drop (length (j_root j)) safe_path
       in if relative_path \<in> set (od_keys (j_originals j)) then return j
          else return (j\<lparr>j_originals := AList.update relative_path (file_content s safe_path) (j_originals j)\<rparr>))"

definition restore_original :: "fpath \<Rightarrow> fpath \<times> string option \<Rightarrow> unit io" where
  "restore_original base = (\<lambda>(relative_path, content) s.
     eff_bind (eff_lift (ensure_within_root s (Abs base) (Abs (base @ relative_path))))
       (\<lambda>p. case content of
          None \<Rightarrow> eff_then (unlink True p) (remove_empty_parents base (butlast p))
        | Some c \<Rightarrow> atomic_write_bytes p c) s)"

definition journal_restore :: "journal \<Rightarrow> unit io" where
  "journal_restore j = eff_for (j_originals j) (restore_original (j_root j))"

section \<open>The synchronisation snapshot\<close>

definition MANIFEST_RELATIVE_PATH :: fpath where
  "MANIFEST_RELATIVE_PATH = [''.strmline'', ''resolver_manifest.json'']"

record sync_snapshot =
  ss_root :: fpath
  ss_files :: "(fpath, string) odict"

definition generated_paths :: "fs \<Rightarrow> fpath \<Rightarrow> fpath list" where
  "generated_paths s base =
     (if path_exists s base then rglob_strm s base else []) @
     (if is_file s (base @ MANIFEST_RELATIVE_PATH) then [base @ MANIFEST_RELATIVE_PATH] else [])"

definition snapshot_capture :: "fs \<Rightarrow> path \<Rightarrow> sync_snapshot" where
  "snapshot_capture s library_root =
     (let base = resolve s library_root
      in \<lparr>ss_root = base,
          ss_files = map (\<lambda>p. (drop (length base) p, the (file_content s p)))
            (filter (is_file s) (generated_paths s base))\<rparr>)"

definition snapshot_restore :: "sync_snapshot \<Rightarrow> unit io" where
  "snapshot_restore snap = (\<lambda>s.
     let base = ss_root snap;
         current = generated_paths s base;
         expected = map (\<lambda>(p, c). base @ p) (ss_files snap)
     in eff_then
          (eff_for (filter (\<lambda>p. p \<notin> set expected) current)
            (\<lambda>p. eff_then (unlink True p) (remove_empty_parents base (butlast p))))
          (eff_for (ss_files snap)
            (\<lambda>(relative_path, content) s'.
               eff_bind (eff_lift (ensure_within_root s' (Abs base) (Abs (base @ relative_path))))
                 (\<lambda>p. atomic_write_bytes p content) s')) s)"

section \<open>Stale files\<close>

definition GENERATED_CATEGORY_DIRS :: "string list" where
  "GENERATED_CATEGORY_DIRS = [''movies'', ''shows'', ''anime'']"

text \<open>The \<open>try: rmdir except OSError: continue\<close> of each directory, deepest first.\<close>

definition remove_empty_dirs :: "fpath \<Rightarrow> fpath \<Rightarrow> unit io" where
  "remove_empty_dirs category_root safe_root = (\<lambda>s.
     eff_for (sort_key (\<lambda>p. - int (length p)) (rglob_all s category_root))
       (\<lambda>p s'. eff_bind (eff_lift (ensure_within_root s' (Abs safe_root) (Abs p)))
          (\<lambda>safe_path s''. if is_dir s'' safe_path then (return (), snd (rmdir safe_path s'')) else (return (), s'')) s') s)"

definition clean_category :: "fpath \<Rightarrow> fpath list \<Rightarrow> string \<Rightarrow> unit io" where
  "clean_category safe_root current_resolved category = (\<lambda>s.
     eff_bind (eff_lift (ensure_within_root s (Abs safe_root) (Abs (safe_root @ [category]))))
       (\<lambda>category_root s1.
          if \<not> path_exists s1 category_root then (return (), s1)
          else eff_then
            (eff_for (rglob_strm s1 category_root)
              (\<lambda>p s2. eff_bind (eff_lift (ensure_within_root s2 (Abs safe_root) (Abs p)))
                 (\<lambda>safe_path. if safe_path \<in> set current_resolved then eff_return ()
                              else unlink False safe_path) s2))
            (remove_empty_dirs category_root safe_root) s1) s)"

definition remove_stale_strm_files :: "path \<Rightarrow> path list \<Rightarrow> unit io" where
  "remove_stale_strm_files library_root current_paths = (\<lambda>s.
     let safe_root = resolve s library_root; current_resolved = map (resolve s) current_paths
     in eff_for GENERATED_CATEGORY_DIRS (clean_category safe_root current_resolved) s)"

definition remove_stale_strm_paths :: "path \<Rightarrow> path list \<Rightarrow> unit io" where
  "remove_stale_strm_paths library_root stale_paths = (\<lambda>s.
     let safe_root = resolve s library_root
     in eff_bind
          (eff_fold (\<lambda>touched p s'.
             eff_bind (eff_lift (ensure_within_root s' (Abs safe_root) p))
               (\<lambda>safe_path.
                  if casefold (name_suffix (last safe_path)) \<noteq> ''.strm'' then eff_return touched
                  else eff_then (unlink True safe_path)
                         (eff_return (if butlast safe_path \<in> set touched then touched
                                      else touched @ [butlast safe_path]))) s') [] stale_paths)
          (\<lambda>touched. eff_for (sort_key (\<lambda>p. - int (length p)) touched)
             (\<lambda>directory. remove_empty_parents safe_root directory)) s)"

section \<open>Removal of a prefix\<close>

record staged_removal =
  sr_root :: fpath
  sr_target :: fpath
  sr_quarantine :: "fpath option"
  sr_removed_files :: nat

text \<open>\<open>operation_id\<close> is the value of \<open>uuid4().hex\<close>.\<close>

definition stage_library_prefix_removal :: "string \<Rightarrow> path \<Rightarrow> string \<Rightarrow> staged_removal io" where
  "stage_library_prefix_removal operation_id library_root relative_prefix = (\<lambda>s.
     let base = resolve s library_root
     in eff_bind (eff_lift (ensure_within_root s (Abs base) (join_path (Abs base) (parse_path relative_prefix))))
       (\<lambda>target s1.
          if \<not> path_exists s1 target \<or> (is_file s1 target \<and> name_suffix (last target) \<noteq> ''.strm'')
          then (return \<lparr>sr_root = base, sr_target = target, sr_quarantine = None, sr_removed_files = 0\<rparr>, s1)
          else
            let removed_files = (if is_file s1 target then 1 else length (rglob_strm s1 target))
            in eff_bind (eff_lift (ensure_within_root s1 (Abs base)
                  (Abs (base @ [''.strmline'', ''removal_quarantine'', operation_id]))))
               (\<lambda>operation_root.
                  let quarantine = operation_root @ [''payload'']
                  in eff_then (mkdir_parents False (butlast quarantine))
                    (eff_then (replace_path target quarantine)
                      (eff_then (remove_empty_parents base (butlast target))
                        (eff_return \<lparr>sr_root = base, sr_target = target,
                           sr_quarantine = Some quarantine, sr_removed_files = removed_files\<rparr>)))) s1) s)"

definition removal_restore :: "staged_removal \<Rightarrow> unit io" where
  "removal_restore st = (\<lambda>s.
     case sr_quarantine st of
       None \<Rightarrow> (return (), s)
     | Some quarantine \<Rightarrow>
         if \<not> path_exists s quarantine then (return (), s)
         else eff_then (mkdir_parents True (butlast (sr_target st)))
           (\<lambda>s1. if path_exists s1 (sr_target st)
             then (raise (OSError (''Cannot restore library removal because '' @
                     as_posix (Abs (sr_target st)) @ '' already exists.'')), s1)
             else eff_then (replace_path quarantine (sr_target st))
                    (remove_empty_parents (sr_root st) (butlast quarantine)) s1) s)"

definition removal_finalize :: "staged_removal \<Rightarrow> nat io" where
  "removal_finalize st = (\<lambda>s.
     eff_then
       (case sr_quarantine st of
          None \<Rightarrow> eff_return ()
        | Some quarantine \<Rightarrow>
            let operation_root = butlast quarantine
            in eff_then (\<lambda>s1. if path_exists s1 operation_root then rmtree operation_root s1 else (return (), s1))
                 (remove_empty_parents (sr_root st) (butlast operation_root)))
       (eff_return (sr_removed_files st)) s)"

definition remove_library_prefix :: "string \<Rightarrow> path \<Rightarrow> string \<Rightarrow> nat io" where
  "remove_library_prefix operation_id library_root relative_prefix =
     eff_bind (stage_library_prefix_removal operation_id library_root relative_prefix) removal_finalize"

section \<open>Confinement lemmas\<close>

lemma resolve_no_dots: "''..'' \<notin> set (resolve s p)"
  by (simp add: resolve_def norm_segs_no_dots)

lemma resolve_abs: "''..'' \<notin> set ps \<Longrightarrow> resolve s (Abs ps) = ps"
  by (simp add: resolve_def norm_segs_plain)

lemma resolve_resolved [simp]: "resolve s (Abs (resolve s' p)) = resolve s' p"
  by (simp add: resolve_abs resolve_no_dots)

lemma resolve_join:
  "''..'' \<notin> set ws \<Longrightarrow> resolve s (join_path p (Rel ws)) = resolve s p @ ws"
  by (cases p) (simp_all add: resolve_def norm_segs_append norm_segs_plain flip: append_assoc)

lemma ensure_within: "ensure_within_root s r t = return p \<Longrightarrow>
     p = resolve s t \<and> is_prefix (resolve s r) p \<and> ''..'' \<notin> set p"
  by (auto simp: ensure_within_root_def Let_def resolve_no_dots split: if_splits)

lemma ensure_within_ok:
  "''..'' \<notin> set base \<Longrightarrow> ''..'' \<notin> set ws \<Longrightarrow> ensure_within_root s (Abs base) (Abs (base @ ws)) = return (base @ ws)"
  by (simp add: ensure_within_root_def Let_def resolve_abs)

lemma ensure_within_abs:
  "''..'' \<notin> set base \<Longrightarrow> ''..'' \<notin> set p \<Longrightarrow> is_prefix base p \<Longrightarrow>
     ensure_within_root s (Abs base) (Abs p) = return p"
  by (auto simp: is_prefix_iff ensure_within_ok)

lemma strm_path_run:
  assumes "valid_entry e"
  shows "strm_file_path s base e = return (resolve s base @ entry_segments e)"
proof -
  have "''..'' \<notin> set (entry_segments e)"
    using entry_segments_plain [of e] by (auto simp: plain_seg_def)
  then show ?thesis
    by (simp add: strm_file_path_def relative_path_segments [OF assms] ensure_within_root_def
        Let_def resolve_join)
qed

lemma remove_up_keeps:
  "wf_fs s \<Longrightarrow> wf_fs (remove_up base p s) \<and> fs_cwd (remove_up base p s) = fs_cwd s \<and>
     (\<forall>q. node_at (remove_up base p s) q \<noteq> node_at s q \<longrightarrow>
        is_prefix q p \<and> node_at s q = Some Dir \<and> node_at (remove_up base p s) q = None)"
proof (induction base p s rule: remove_up.induct)
  case (1 base p s)
  show ?case
  proof (cases "p \<noteq> base \<and> path_exists s p")
    case False
    then show ?thesis using 1 by (subst remove_up.simps) (auto simp: remove_up.simps [of base p s])
  next
    case True
    obtain r s' where r: "rmdir p s = (r, s')" by fastforce
    note rm = rmdir_run [OF "1.prems", of p, unfolded r snd_conv]
    show ?thesis
    proof (cases r)
      case (Inl e)
      then have "remove_up base p s = s'" using True r by (simp add: remove_up.simps [of base p s])
      moreover have "s' = s" using r Inl by (auto simp: rmdir_def split: if_splits)
      ultimately show ?thesis using "1.prems" by simp
    next
      case (Inr u)
      then have eq: "remove_up base p s = remove_up base (butlast p) s'"
        using True r by (simp add: remove_up.simps [of base p s])
      have p: "p \<noteq> []" using r Inr by (auto simp: rmdir_def)
      have IH: "wf_fs (remove_up base (butlast p) s') \<and> fs_cwd (remove_up base (butlast p) s') = fs_cwd s' \<and>
        (\<forall>q. node_at (remove_up base (butlast p) s') q \<noteq> node_at s' q \<longrightarrow>
        is_prefix q (butlast p) \<and> node_at s' q = Some Dir \<and> node_at (remove_up base (butlast p) s') q = None)"
        by (rule "1.IH" [OF True r [symmetric] Inr]) (use rm in simp)
      show ?thesis unfolding eq
      proof (intro conjI allI impI)
        fix q assume neq: "node_at (remove_up base (butlast p) s') q \<noteq> node_at s q"
        show "is_prefix q p" "node_at s q = Some Dir" "node_at (remove_up base (butlast p) s') q = None"
          using neq IH rm p by (cases "node_at s' q = node_at s q"; metis is_prefix_butlast_iff is_prefix_refl)+
      qed (use IH rm in auto)
    qed
  qed
qed

lemma remove_up_content:
  assumes "wf_fs s"
  shows "file_content (remove_up base p s) = file_content s"
proof
  fix q
  from remove_up_keeps [OF assms, of base p] show "file_content (remove_up base p s) q = file_content s q"
    by (cases "node_at (remove_up base p s) q = node_at s q") (auto simp: file_content_def)
qed

lemma remove_empty_parents_run:
  "wf_fs s \<Longrightarrow> wf_fs (snd (remove_empty_parents base p s)) \<and>
     fs_cwd (snd (remove_empty_parents base p s)) = fs_cwd s \<and>
     file_content (snd (remove_empty_parents base p s)) = file_content s \<and>
     (\<forall>q. node_at s q = None \<longrightarrow> node_at (snd (remove_empty_parents base p s)) q = None)"
proof (cases "ensure_within_root s (Abs base) (Abs p)")
  case (Inr q)
  assume "wf_fs s"
  with Inr remove_up_keeps [of s base q] remove_up_content [of s base q] show ?thesis
    by (simp add: remove_empty_parents_def) (metis option.distinct(1))
qed (simp add: remove_empty_parents_def)

section \<open>Properties of the writer\<close>

text \<open>Writing the STRM file of an accepted entry puts exactly its URL and a newline into the
  file at the entry's path below the library root, returns that path, and leaves every other file
  as it was: whether the file is new, changed or already there.\<close>

theorem strm_file_written:
  assumes "wf_fs s" "check_entry e = return e"
    and "writable s (resolve s library_root @ entry_segments e)"
  shows "fst (write_strm_file library_root e None s) = return (resolve s library_root @ entry_segments e) \<and>
     file_content (snd (write_strm_file library_root e None s)) =
       (file_content s)(resolve s library_root @ entry_segments e := Some (le_resolver_url e @ [CHR 0x0A]))"
proof -
  let ?p = "resolve s library_root @ entry_segments e"
  let ?c = "le_resolver_url e @ [CHR 0x0A]"
  have path: "strm_file_path s library_root e = return ?p"
    using assms(2) by (intro strm_path_run) (simp add: valid_entry_def)
  obtain s' where s': "atomic_write_bytes ?p ?c s = (return (), s')"
    "file_content s' = (file_content s)(?p := Some ?c)"
    using content_atomic_write [OF assms(1,3), of ?c] by blast
  show ?thesis
  proof (cases "file_content s ?p")
    case None
    then have "\<not> path_exists s ?p"
      using assms(3) by (auto simp: path_exists_def writable_def file_content_def split: option.splits node.splits)
    with s' path show ?thesis
      by (simp add: write_strm_file_def Let_def atomic_write_text_def)
  next
    case (Some c)
    then have "path_exists s ?p" by (auto simp: path_exists_def file_content_def split: option.splits)
    with s' path Some show ?thesis
      by (cases "c = ?c") (auto simp: write_strm_file_def Let_def atomic_write_text_def read_file_def
          eff_bind_def eff_lift_def eff_then_def eff_return_def fun_eq_iff)
  qed
qed

theorem strm_file_written_witness:
  "file_content (snd (write_strm_file (Abs [''library''])
      \<lparr>le_category = Movies, le_title = ''Up'', le_resolver_url = ''http://x'', le_year = None,
       le_season_number = None, le_episode_number = None\<rparr> None \<lparr>fs_cwd = [], fs_nodes = []\<rparr>))
    [''library'', ''movies'', ''Up'', ''Up.strm''] = Some (''http://x'' @ [CHR 0x0A])"
proof -
  let ?s = "\<lparr>fs_cwd = [], fs_nodes = []\<rparr>"
  let ?e = "\<lparr>le_category = Movies, le_title = ''Up'', le_resolver_url = ''http://x'', le_year = None,
       le_season_number = None, le_episode_number = None\<rparr>"
  have e: "check_entry ?e = return ?e" by code_simp
  have seg: "entry_segments ?e = [''movies'', ''Up'', ''Up.strm'']" by code_simp
  have r: "resolve ?s (Abs [''library'']) = [''library'']" by (simp add: resolve_def)
  have "writable ?s (resolve ?s (Abs [''library'']) @ entry_segments ?e)"
    by (simp add: r seg writable_def node_at_def below_file_def)
  moreover have "wf_fs ?s" by (simp add: wf_fs_def)
  ultimately show ?thesis using strm_file_written [of ?s ?e "Abs [''library'']"] e r seg by simp
qed

text \<open>C23. No call of the writer, whatever target it is given and whether or not it succeeds, changes
  a file outside the library root.\<close>

theorem writer_confined:
  assumes "wf_fs s" "\<not> is_prefix (resolve s library_root) q"
  shows "file_content (snd (write_strm_file library_root e target_path s)) q = file_content s q"
proof -
  define t where "t = (case target_path of None \<Rightarrow> strm_file_path s library_root e
      | Some p \<Rightarrow> ensure_within_root s library_root p)"
  show ?thesis
  proof (cases t)
    case (Inl x)
    then show ?thesis by (simp add: write_strm_file_def flip: t_def)
  next
    case (Inr p)
    have "\<exists>x. ensure_within_root s library_root x = return p"
      using Inr by (cases target_path) (auto simp: t_def strm_file_path_def bind_res_Inr_iff)
    then have "is_prefix (resolve s library_root) p" using ensure_within by blast
    then have "p \<noteq> q" using assms(2) by auto
    then have w: "file_content (snd (atomic_write_bytes p c s)) q = file_content s q" for c
      using atomic_write_frame [OF assms(1), of p c] by simp
    have w2: "file_content (snd (eff_then (atomic_write_bytes p c) (eff_return p) s)) q = file_content s q" for c
    proof (cases "atomic_write_bytes p c s")
      case (Pair r s1)
      with w [of c] show ?thesis by (cases r) simp_all
    qed
    have "write_strm_file library_root e target_path s =
        (if path_exists s p
         then eff_bind (read_file p) (\<lambda>c. if c = le_resolver_url e @ [CHR 0x0A] then eff_return p
           else eff_then (atomic_write_bytes p (le_resolver_url e @ [CHR 0x0A])) (eff_return p)) s
         else eff_then (atomic_write_bytes p (le_resolver_url e @ [CHR 0x0A])) (eff_return p) s)"
      using Inr by (simp add: write_strm_file_def Let_def atomic_write_text_def flip: t_def)
    with w2 show ?thesis
      by (cases "file_content s p") (simp_all add: read_file_def eff_bind_def)
  qed
qed

theorem writer_confined_witness:
  "file_content (snd (write_strm_file (Abs [''library''])
      \<lparr>le_category = Movies, le_title = ''Up'', le_resolver_url = ''http://x'', le_year = None,
       le_season_number = None, le_episode_number = None\<rparr> (Some (Abs [''library'', ''..'', ''secret'']))
      \<lparr>fs_cwd = [], fs_nodes = [([''secret''], File ''s'')]\<rparr>)) [''secret''] = Some ''s''"
proof -
  let ?s = "\<lparr>fs_cwd = [], fs_nodes = [([''secret''], File ''s'')]\<rparr>"
  have "wf_fs ?s" "\<not> is_prefix (resolve ?s (Abs [''library''])) [''secret'']"
    by (simp_all add: wf_fs_def od_ok_def resolve_def is_prefix_def)
  from writer_confined [OF this] show ?thesis
    by (simp add: file_content_def node_at_def)
qed

section \<open>Restoring\<close>

lemma writable_shrink:
  assumes "wf_fs t" "wf_fs t'" "\<And>q n. node_at t' q = Some n \<Longrightarrow> node_at t q = Some n" "writable t p"
  shows "writable t' p"
proof -
  have "\<not> below_file t' p"
    using assms by (auto simp: writable_def below_file_iff)
  moreover have "node_at t' p \<noteq> Some Dir" using assms(3,4) by (auto simp: writable_def)
  ultimately show ?thesis using assms(4) by (simp add: writable_def)
qed

lemma writable_other_write:
  assumes "wf_fs t" "writable t p" "writable t q" "\<not> is_prefix p q" "\<not> is_prefix q p"
  shows "writable (snd (atomic_write_bytes p c t)) q"
proof -
  obtain t' where t': "atomic_write_bytes p c t = (return (), t')" "wf_fs t'"
    "\<forall>q. node_at t' q = (if q = p then Some (File c)
        else if is_prefix q (butlast p) then Some Dir else node_at t q)"
    using atomic_write_run [OF assms(1,2)] by blast
  have p: "p \<noteq> []" using assms(2) by (simp add: writable_def)
  have "node_at t' q = node_at t q"
    using t'(3) assms(4,5) p by (auto simp: is_prefix_butlast_iff)
  moreover have "\<not> below_file t' q"
    using assms t' p by (auto simp: below_file_iff writable_def is_prefix_butlast_iff split: if_splits)
  ultimately show ?thesis using assms(3) t'(1) by (simp add: writable_def)
qed

lemma unlink_writable:
  assumes "wf_fs t" "writable t p"
  shows "fst (unlink True p t) = return ()"
  using assms by (intro unlink_missing_ok) (auto simp: writable_def)

lemma remove_node:
  assumes "wf_fs t" "writable t p" "is_prefix base p" "p \<noteq> base" "''..'' \<notin> set p"
  defines "t' \<equiv> snd (eff_then (unlink True p) (remove_empty_parents base (butlast p)) t)"
  shows "fst (eff_then (unlink True p) (remove_empty_parents base (butlast p)) t) = return ()"
    and "wf_fs t'" "fs_cwd t' = fs_cwd t" "file_content t' = (file_content t)(p := None)"
    and "\<And>q n. node_at t' q = Some n \<Longrightarrow> node_at t q = Some n"
proof -
  obtain t1 where t1: "unlink True p t = (return (), t1)"
    using unlink_writable [OF assms(1,2)] by (metis prod.collapse)
  have run1: "wf_fs t1" "fs_cwd t1 = fs_cwd t" "file_content t1 = (file_content t)(p := None)"
    "\<forall>q. node_at t1 q = (if q = p \<and> file_content t p \<noteq> None then None else node_at t q)"
    using unlink_run [OF assms(1), of True p] content_unlink [OF assms(1), of True p] t1 by auto
  have p: "p \<noteq> []" using assms(2) by (simp add: writable_def)
  have pre: "is_prefix base (butlast p)" using assms(3,4) p by (simp add: is_prefix_butlast_iff)
  have dots: "''..'' \<notin> set base" "''..'' \<notin> set (butlast p)"
    using assms(3,5) by (auto simp: is_prefix_iff dest: in_set_butlastD)
  have ok: "ensure_within_root t1 (Abs base) (Abs (butlast p)) = return (butlast p)"
    using ensure_within_abs [OF dots pre] by simp
  then have eq: "eff_then (unlink True p) (remove_empty_parents base (butlast p)) t
      = (return (), remove_up base (butlast p) t1)"
    using t1 by (simp add: remove_empty_parents_def)
  note ru = remove_up_keeps [OF run1(1), of base "butlast p"]
  show "fst (eff_then (unlink True p) (remove_empty_parents base (butlast p)) t) = return ()"
    by (simp add: eq)
  show "wf_fs t'" "fs_cwd t' = fs_cwd t" using ru run1 by (simp_all add: t'_def eq)
  show "file_content t' = (file_content t)(p := None)"
    using remove_up_content [OF run1(1)] run1(3) by (simp add: t'_def eq)
  show "node_at t q = Some n" if "node_at t' q = Some n" for q n
  proof -
    have "node_at t1 q = Some n" using that ru by (metis eq option.distinct(1) snd_conv t'_def)
    with run1(4) show ?thesis by (auto split: if_splits)
  qed
qed

lemma restore_one:
  fixes c :: "string option"
  assumes "wf_fs t" "writable t (base @ rel)" "rel \<noteq> []" "''..'' \<notin> set (base @ rel)"
    and t': "t' = snd (restore_original base (rel, c) t)"
  shows "fst (restore_original base (rel, c) t) = return ()"
    and "wf_fs t'" "fs_cwd t' = fs_cwd t" "file_content t' = (file_content t)(base @ rel := c)"
    and "\<And>q. writable t q \<Longrightarrow> \<not> is_prefix (base @ rel) q \<Longrightarrow> \<not> is_prefix q (base @ rel) \<Longrightarrow> writable t' q"
proof -
  let ?p = "base @ rel"
  have ok: "ensure_within_root t (Abs base) (Abs ?p) = return ?p"
    using assms(4) by (intro ensure_within_ok) auto
  have "fst (restore_original base (rel, c) t) = return () \<and> wf_fs t' \<and> fs_cwd t' = fs_cwd t \<and>
    file_content t' = (file_content t)(?p := c) \<and>
    (\<forall>q. writable t q \<longrightarrow> \<not> is_prefix ?p q \<longrightarrow> \<not> is_prefix q ?p \<longrightarrow> writable t' q)"
  proof (cases c)
    case None
    then have eq: "restore_original base (rel, c) t
        = eff_then (unlink True ?p) (remove_empty_parents base (butlast ?p)) t"
      using ok by (simp add: restore_original_def)
    have pre: "is_prefix base ?p" "?p \<noteq> base" using assms(3) by simp_all
    note rn = remove_node [OF assms(1,2) pre assms(4), folded eq, folded t']
    with None show ?thesis using writable_shrink [OF assms(1) rn(2) rn(5)] by simp
  next
    case (Some d)
    then have eq: "restore_original base (rel, c) t = atomic_write_bytes ?p d t"
      using ok by (simp add: restore_original_def)
    obtain t1 where t1: "atomic_write_bytes ?p d t = (return (), t1)" "wf_fs t1" "fs_cwd t1 = fs_cwd t"
      "file_content t1 = (file_content t)(?p := Some d)"
      using content_atomic_write [OF assms(1,2), of d] by blast
    have "writable t1 q" if "writable t q" "\<not> is_prefix ?p q" "\<not> is_prefix q ?p" for q
      using writable_other_write [OF assms(1,2) that, of d] t1(1) by simp
    with t1 show ?thesis by (simp add: t' Some eq [unfolded Some])
  qed
  then show "fst (restore_original base (rel, c) t) = return ()"
    "wf_fs t'" "fs_cwd t' = fs_cwd t" "file_content t' = (file_content t)(?p := c)"
    "\<And>q. writable t q \<Longrightarrow> \<not> is_prefix ?p q \<Longrightarrow> \<not> is_prefix q ?p \<Longrightarrow> writable t' q"
    by blast+
qed

text \<open>Names that can be restored side by side: below the base, none above another, all writable.\<close>

definition restorable :: "fs \<Rightarrow> fpath \<Rightarrow> fpath list \<Rightarrow> bool" where
  "restorable s base rels \<longleftrightarrow> ''..'' \<notin> set base \<and> distinct rels \<and>
     (\<forall>r\<in>set rels. r \<noteq> [] \<and> ''..'' \<notin> set r \<and> writable s (base @ r) \<and>
        (\<forall>r'\<in>set rels. is_prefix r r' \<longrightarrow> r = r'))"

lemma is_prefix_same [simp]: "is_prefix (xs @ ys) (xs @ zs) = is_prefix ys zs"
  by (auto simp: is_prefix_iff)

lemma restorable_step:
  assumes "restorable t base (r # rels)" "wf_fs t"
  shows "restorable (snd (restore_original base (r, c) t)) base rels"
proof -
  have r: "writable t (base @ r)" "r \<noteq> []" "''..'' \<notin> set (base @ r)" and d: "r \<notin> set rels"
    using assms(1) by (auto simp: restorable_def)
  have "writable (snd (restore_original base (r, c) t)) (base @ r')" if "r' \<in> set rels" for r'
  proof (rule restore_one(5) [OF assms(2) r refl])
    show "writable t (base @ r')" using assms(1) that by (auto simp: restorable_def)
    have "\<not> is_prefix r r'" "\<not> is_prefix r' r" using assms(1) that d by (auto simp: restorable_def)
    then show "\<not> is_prefix (base @ r) (base @ r')" "\<not> is_prefix (base @ r') (base @ r)" by simp_all
  qed
  with assms(1) show ?thesis by (auto simp: restorable_def)
qed

lemma restore_all:
  assumes "restorable t base (od_keys os)" "wf_fs t"
  shows "fst (eff_for os (restore_original base) t) = return () \<and>
    wf_fs (snd (eff_for os (restore_original base) t)) \<and>
    fs_cwd (snd (eff_for os (restore_original base) t)) = fs_cwd t \<and>
    (\<forall>q. file_content (snd (eff_for os (restore_original base) t)) q =
       (if \<exists>r\<in>set (od_keys os). q = base @ r
        then the (map_of os (drop (length base) q)) else file_content t q))"
  using assms
proof (induction os arbitrary: t)
  case (Cons p os)
  obtain r c where p: "p = (r, c)" by (cases p)
  have r: "writable t (base @ r)" "r \<noteq> []" "''..'' \<notin> set (base @ r)"
    using Cons.prems(1) p by (auto simp: restorable_def)
  define t1 where "t1 = snd (restore_original base (r, c) t)"
  note one = restore_one [OF Cons.prems(2) r t1_def]
  have eq: "eff_for (p # os) (restore_original base) t = eff_for os (restore_original base) t1"
    using one(1) by (simp add: p t1_def) (metis eff_then_Inr prod.collapse)
  have "restorable t1 base (od_keys os)"
    using restorable_step [of t base r "od_keys os" c] Cons.prems p by (simp add: t1_def)
  note IH = Cons.IH [OF this one(2)]
  have d: "r \<notin> set (od_keys os)" using Cons.prems(1) p by (simp add: restorable_def)
  have "file_content (snd (eff_for os (restore_original base) t1)) q =
       (if \<exists>r'\<in>set (od_keys (p # os)). q = base @ r'
        then the (map_of (p # os) (drop (length base) q)) else file_content t q)" for q
  proof (cases "q = base @ r")
    case True
    with d have "\<not> (\<exists>r'\<in>set (od_keys os). q = base @ r')" by auto
    with IH have "file_content (snd (eff_for os (restore_original base) t1)) q = file_content t1 q" by simp
    with one(4) True show ?thesis by (auto simp: p)
  next
    case False
    with IH one(4) show ?thesis by (auto simp: p)
  qed
  with IH one show ?case unfolding eq by simp
qed simp

section \<open>A synchronisation under the journal\<close>

definition tracked :: "journal \<Rightarrow> fpath \<Rightarrow> bool" where
  "tracked j p \<longleftrightarrow> is_prefix (j_root j) p \<and> drop (length (j_root j)) p \<in> set (od_keys (j_originals j))"

text \<open>
  What a synchronisation does while the journal is on: it tracks a path before it writes or
  removes the file, and it may remove empty directories.
\<close>

inductive journal_session :: "fs \<Rightarrow> path \<Rightarrow> journal \<Rightarrow> fs \<Rightarrow> bool" for s0 library_root where
  start: "journal_session s0 library_root (journal_create s0 library_root) s0"
| track: "journal_session s0 library_root j s \<Longrightarrow> journal_track s p j = return j' \<Longrightarrow>
    journal_session s0 library_root j' s"
| store: "journal_session s0 library_root j s \<Longrightarrow> tracked j p \<Longrightarrow>
    journal_session s0 library_root j (snd (atomic_write_bytes p c s))"
| remove: "journal_session s0 library_root j s \<Longrightarrow> tracked j p \<Longrightarrow>
    journal_session s0 library_root j (snd (unlink m p s))"
| tidy: "journal_session s0 library_root j s \<Longrightarrow>
    journal_session s0 library_root j (snd (rmdir p s))"

inductive_cases journal_sessionE: "journal_session s0 library_root j s"

definition journal_inv :: "fs \<Rightarrow> path \<Rightarrow> journal \<Rightarrow> fs \<Rightarrow> bool" where
  "journal_inv s0 library_root j s \<longleftrightarrow> wf_fs s \<and> fs_cwd s = fs_cwd s0 \<and>
     j_root j = resolve s0 library_root \<and> od_ok (j_originals j) \<and>
     (\<forall>r c. map_of (j_originals j) r = Some c \<longrightarrow> c = file_content s0 (j_root j @ r)) \<and>
     (\<forall>p. \<not> tracked j p \<longrightarrow> file_content s p = file_content s0 p)"

lemma journal_track_inv:
  assumes "journal_inv s0 library_root j s" "journal_track s p j = return j'"
  shows "journal_inv s0 library_root j' s"
proof -
  let ?base = "j_root j"
  obtain q where q: "ensure_within_root s (Abs ?base) p = return q"
    using assms(2) by (auto simp: journal_track_def bind_res_Inr_iff)
  have base: "resolve s (Abs ?base) = ?base" using assms(1) by (simp add: journal_inv_def)
  have pre: "is_prefix ?base q" using ensure_within [OF q] base by metis
  then have split: "q = ?base @ drop (length ?base) q" by (auto simp: is_prefix_iff)
  show ?thesis
  proof (cases "drop (length ?base) q \<in> set (od_keys (j_originals j))")
    case True
    then have "j' = j" using assms(2) q by (simp add: journal_track_def)
    with assms(1) show ?thesis by simp
  next
    case False
    then have j': "j' = j\<lparr>j_originals := AList.update (drop (length ?base) q) (file_content s q) (j_originals j)\<rparr>"
      using assms(2) q by (simp add: journal_track_def Let_def)
    have "\<not> tracked j q" using False by (simp add: tracked_def)
    then have c: "file_content s q = file_content s0 q" using assms(1) by (simp add: journal_inv_def)
    have "tracked j x \<Longrightarrow> tracked j' x" for x by (simp add: tracked_def j')
    with assms(1) c split show ?thesis
      by (auto simp: journal_inv_def j' update_conv')
  qed
qed

lemma journal_session_inv:
  assumes wf0: "wf_fs s0" and "journal_session s0 library_root j s"
  shows "journal_inv s0 library_root j s"
  using assms(2)
proof (induction rule: journal_session.induct)
  case start
  with wf0 show ?case by (simp add: journal_inv_def journal_create_def)
next
  case (track j s p j')
  then show ?case using journal_track_inv by blast
next
  case (store j s p c)
  then have "wf_fs s" by (simp add: journal_inv_def)
  from atomic_write_frame [OF this, of p c] store show ?case by (auto simp: journal_inv_def)
next
  case (remove j s p m)
  then have "wf_fs s" by (simp add: journal_inv_def)
  from unlink_run [OF this, of m p] content_unlink [OF this, of m p] remove show ?case
    by (auto simp: journal_inv_def)
next
  case (tidy j s p)
  then have "wf_fs s" by (simp add: journal_inv_def)
  from rmdir_run [OF this, of p] content_rmdir [OF this, of p] tidy show ?case
    by (auto simp: journal_inv_def)
qed

lemma journal_restored:
  assumes "wf_fs s0" "journal_session s0 library_root j s"
    and "restorable s (j_root j) (od_keys (j_originals j))"
  shows "fst (journal_restore j s) = return () \<and>
     file_content (snd (journal_restore j s)) = file_content s0"
proof -
  have inv: "journal_inv s0 library_root j s" by (rule journal_session_inv [OF assms(1,2)])
  then have wf: "wf_fs s" by (simp add: journal_inv_def)
  note all = restore_all [OF assms(3) wf, folded journal_restore_def]
  have "file_content (snd (journal_restore j s)) q = file_content s0 q" for q
  proof (cases "\<exists>r\<in>set (od_keys (j_originals j)). q = j_root j @ r")
    case True
    then obtain r where r: "r \<in> set (od_keys (j_originals j))" "q = j_root j @ r" by blast
    then obtain c where c: "map_of (j_originals j) r = Some c"
      by (metis list.set_map map_of_eq_None_iff not_None_eq)
    have "file_content (snd (journal_restore j s)) q = the (map_of (j_originals j) (drop (length (j_root j)) q))"
      using all True by presburger
    also have "\<dots> = c" by (simp add: r(2) c)
    also have "c = file_content s0 q"
    proof -
      have "\<forall>r c. map_of (j_originals j) r = Some c \<longrightarrow> c = file_content s0 (j_root j @ r)"
        using inv unfolding journal_inv_def by (elim conjE)
      with c r(2) show ?thesis by simp
    qed
    finally show ?thesis .
  next
    case False
    then have "\<not> tracked j q" by (auto simp: tracked_def is_prefix_iff)
    moreover have "file_content (snd (journal_restore j s)) q = file_content s q"
      using all False by presburger
    ultimately show ?thesis using inv by (simp add: journal_inv_def)
  qed
  with all show ?thesis by auto
qed

text \<open>C21. A failed synchronisation can be undone: after any run in which every written or removed
  file was tracked first, restoring the journal returns and gives every file, below the library
  root and elsewhere, the content it had before the run (files that did not exist are gone).\<close>

theorem journal_restores:
  assumes "wf_fs s0" "journal_session s0 library_root j s"
    and "restorable s (j_root j) (od_keys (j_originals j))"
  shows "fst (journal_restore j s) = return () \<and>
     file_content (snd (journal_restore j s)) = file_content s0"
  by (rule journal_restored [OF assms])

theorem journal_restores_witness:
  "\<exists>j. journal_track \<lparr>fs_cwd = [], fs_nodes = [([''l''], Dir), ([''l'', ''a''], File ''x'')]\<rparr> (Abs [''l'', ''a''])
        (journal_create \<lparr>fs_cwd = [], fs_nodes = [([''l''], Dir), ([''l'', ''a''], File ''x'')]\<rparr> (Abs [''l'']))
        = return j \<and>
     file_content (snd (journal_restore j (snd (atomic_write_bytes [''l'', ''a''] ''y''
        \<lparr>fs_cwd = [], fs_nodes = [([''l''], Dir), ([''l'', ''a''], File ''x'')]\<rparr>)))) [''l'', ''a''] = Some ''x''"
proof -
  define s0 where "s0 = \<lparr>fs_cwd = [], fs_nodes = [([''l''], Dir), ([''l'', ''a''], File ''x'')]\<rparr>"
  define j where "j = \<lparr>j_root = [''l''], j_originals = [([''a''], Some ''x'')]\<rparr>"
  define s where "s = snd (atomic_write_bytes [''l'', ''a''] ''y'' s0)"
  have wf: "wf_fs s0" by (simp add: s0_def wf_fs_def od_ok_def node_at_def)
  have j: "journal_track s0 (Abs [''l'', ''a'']) (journal_create s0 (Abs [''l''])) = return j"
    unfolding s0_def j_def by code_simp
  have "writable s0 [''l'', ''a'']"
    by (simp add: writable_def s0_def node_at_def below_file_def is_prefix_def)
  from content_atomic_write [OF wf this, of "''y''"]
  have s: "wf_fs s" "file_content s [''l'', ''a''] = Some ''y''" by (auto simp: s_def)
  have "node_at s [''l'', ''a''] = Some (File ''y'')"
    using s(2) by (simp add: file_content_def split: option.splits node.splits)
  moreover from this have "\<not> below_file s [''l'', ''a'']"
    using dirs_above [OF s(1)] by (fastforce simp: below_file_iff [OF s(1)] is_prefix_iff)
  ultimately have "restorable s (j_root j) (od_keys (j_originals j))"
    by (simp add: restorable_def j_def writable_def)
  moreover have "journal_session s0 (Abs [''l'']) j s"
    unfolding s_def
    by (rule journal_session.store, rule journal_session.track [OF journal_session.start j])
      (simp add: tracked_def j_def is_prefix_def)
  ultimately have "file_content (snd (journal_restore j s)) = file_content s0"
    using journal_restores [OF wf] by blast
  moreover have "file_content s0 [''l'', ''a''] = Some ''x''" by (simp add: file_content_def node_at_def s0_def)
  ultimately show ?thesis using j unfolding s0_def [symmetric] s_def [symmetric] by auto
qed

section \<open>Removing lists of files\<close>

definition shrinks :: "fs \<Rightarrow> fs \<Rightarrow> bool" where
  "shrinks s t \<longleftrightarrow> fs_cwd t = fs_cwd s \<and> (\<forall>q n. node_at t q = Some n \<longrightarrow> node_at s q = Some n)"

definition plain_names :: "fs \<Rightarrow> bool" where
  "plain_names s \<longleftrightarrow> (\<forall>p. node_at s p \<noteq> None \<longrightarrow> ''..'' \<notin> set p)"

lemma shrinks_refl [simp]: "shrinks s s"
  by (simp add: shrinks_def)

lemma shrinks_trans: "shrinks s t \<Longrightarrow> shrinks t u \<Longrightarrow> shrinks s u"
  by (auto simp: shrinks_def)

lemma shrinks_plain: "shrinks s t \<Longrightarrow> plain_names s \<Longrightarrow> plain_names t"
  by (auto simp: shrinks_def plain_names_def)

lemma shrinks_unlink: "wf_fs s \<Longrightarrow> shrinks s (snd (unlink m p s))"
  using unlink_run [of s m p] by (auto simp: shrinks_def split: if_splits)

lemma shrinks_rmdir: "wf_fs s \<Longrightarrow> shrinks s (snd (rmdir p s))"
  using rmdir_run [of s p] unfolding shrinks_def by (metis option.distinct(1))

lemma file_writable: "wf_fs s \<Longrightarrow> file_content s p \<noteq> None \<Longrightarrow> writable s p"
proof -
  assume wf: "wf_fs s" and "file_content s p \<noteq> None"
  then obtain c where c: "node_at s p = Some (File c)"
    by (auto simp: file_content_def split: option.splits node.splits)
  have "\<not> below_file s p"
  proof
    assume "below_file s p"
    then obtain q d where q: "node_at s q = Some (File d)" "is_prefix q p" "q \<noteq> p"
      by (auto simp: below_file_iff [OF wf])
    then obtain r where "p = q @ r" "r \<noteq> []" by (auto simp: is_prefix_iff)
    with dirs_above [OF wf, of q r] c q(1) show False by simp
  qed
  moreover have "p \<noteq> []" using c by auto
  ultimately show ?thesis using c by (simp add: writable_def)
qed

lemma remove_list:
  assumes "wf_fs t"
    and "\<And>p. p \<in> set ps \<Longrightarrow> writable t p \<and> is_prefix base p \<and> p \<noteq> base \<and> ''..'' \<notin> set p"
  shows "fst (eff_for ps (\<lambda>p. eff_then (unlink True p) (remove_empty_parents base (butlast p))) t) = return () \<and>
    wf_fs (snd (eff_for ps (\<lambda>p. eff_then (unlink True p) (remove_empty_parents base (butlast p))) t)) \<and>
    shrinks t (snd (eff_for ps (\<lambda>p. eff_then (unlink True p) (remove_empty_parents base (butlast p))) t)) \<and>
    file_content (snd (eff_for ps (\<lambda>p. eff_then (unlink True p) (remove_empty_parents base (butlast p))) t))
      = (\<lambda>q. if q \<in> set ps then None else file_content t q)"
  using assms
proof (induction ps arbitrary: t)
  case (Cons p ps)
  let ?m = "\<lambda>p. eff_then (unlink True p) (remove_empty_parents base (butlast p))"
  define t1 where "t1 = snd (?m p t)"
  have p: "writable t p" "is_prefix base p" "p \<noteq> base" "''..'' \<notin> set p" using Cons.prems(2) by auto
  note rn = remove_node [OF Cons.prems(1) p, folded t1_def]
  have run: "?m p t = (return (), t1)" using rn(1) by (simp add: t1_def prod_eq_iff)
  then have eq: "eff_for (p # ps) ?m t = eff_for ps ?m t1" by simp
  have sh: "shrinks t t1" using rn(3,5) by (auto simp: shrinks_def)
  have "writable t1 q" if "q \<in> set ps" for q
    using writable_shrink [OF Cons.prems(1) rn(2) rn(5)] Cons.prems(2) that by simp
  with Cons.prems(2) have "\<And>q. q \<in> set ps \<Longrightarrow> writable t1 q \<and> is_prefix base q \<and> q \<noteq> base \<and> ''..'' \<notin> set q"
    by simp
  note IH = Cons.IH [OF rn(2) this]
  show ?case unfolding eq using IH rn(4) shrinks_trans [OF sh] by auto
qed simp

lemma unlink_list:
  assumes "wf_fs t" "distinct ps" "\<And>p. p \<in> set ps \<Longrightarrow> file_content t p \<noteq> None \<and> ''..'' \<notin> set p \<and> is_prefix base p"
    and body_def: "body = (\<lambda>p s2. eff_bind (eff_lift (ensure_within_root s2 (Abs base) (Abs p)))
                 (\<lambda>safe_path. if safe_path \<in> set keep then eff_return () else unlink False safe_path) s2)"
  shows "fst (eff_for ps body t) = return () \<and> wf_fs (snd (eff_for ps body t)) \<and>
    shrinks t (snd (eff_for ps body t)) \<and>
    file_content (snd (eff_for ps body t)) = (\<lambda>q. if q \<in> set ps \<and> q \<notin> set keep then None else file_content t q)"
  using assms(1-3)
proof (induction ps arbitrary: t)
  case (Cons p ps)
  have p: "file_content t p \<noteq> None" "''..'' \<notin> set p" "is_prefix base p" using Cons.prems(3) by auto
  then have "''..'' \<notin> set base" by (auto simp: is_prefix_iff)
  from ensure_within_abs [OF this p(2,3)]
  have body: "body p t = (if p \<in> set keep then (return (), t) else unlink False p t)"
    by (simp add: body_def)
  define t1 where "t1 = snd (body p t)"
  have run: "body p t = (return (), t1)"
    using p(1) by (auto simp: t1_def body unlink_def file_content_def split: option.splits node.splits)
  have t1: "wf_fs t1" "shrinks t t1"
    "file_content t1 = (\<lambda>q. if q = p \<and> q \<notin> set keep then None else file_content t q)"
    using unlink_run [OF Cons.prems(1), of False p] content_unlink [OF Cons.prems(1), of False p]
      shrinks_unlink [OF Cons.prems(1), of False p] Cons.prems(1)
    by (auto simp: t1_def body)
  have "\<And>q. q \<in> set ps \<Longrightarrow> file_content t1 q \<noteq> None \<and> ''..'' \<notin> set q \<and> is_prefix base q"
    using Cons.prems(2,3) t1(3) by auto
  note IH = Cons.IH [OF t1(1) _ this]
  have eq: "eff_for (p # ps) body t = eff_for ps body t1" using run by simp
  have d: "distinct ps" using Cons.prems(2) by simp
  show ?case unfolding eq using IH [OF d] t1 shrinks_trans [OF t1(2)] by auto
qed simp

section \<open>The snapshot\<close>

definition generated_name :: "fpath \<Rightarrow> fpath \<Rightarrow> bool" where
  "generated_name base p \<longleftrightarrow>
     (is_prefix base p \<and> p \<noteq> base \<and> endswith (last p) ''.strm'') \<or> p = base @ MANIFEST_RELATIVE_PATH"

lemma manifest_not_strm [simp]: "\<not> endswith ''resolver_manifest.json'' ''.strm''"
  by (simp add: endswith_def)

lemma in_generated_paths:
  assumes "wf_fs s" "file_content s p \<noteq> None"
  shows "p \<in> set (generated_paths s base) \<longleftrightarrow> generated_name base p"
proof -
  have "node_at s p \<noteq> None" "p \<noteq> []" using assms(2) by (auto simp: file_content_def split: option.splits)
  then have key: "p \<in> fst ` set (fs_nodes s)" by (auto dest!: node_at_Some intro: rev_image_eqI)
  have "path_exists s base" if "is_prefix base p" "p \<noteq> base"
  proof -
    from that obtain r where r: "p = base @ r" "r \<noteq> []" by (auto simp: is_prefix_iff)
    obtain n where "node_at s (base @ r) = Some n" using \<open>node_at s p \<noteq> None\<close> r by auto
    from dirs_above [OF assms(1) this r(2)] show ?thesis by (simp add: path_exists_def)
  qed
  with key assms(2) show ?thesis
    by (auto simp: generated_paths_def generated_name_def rglob_strm_def rglob_all_def is_file_def)
qed

lemma generated_paths_name: "p \<in> set (generated_paths s base) \<Longrightarrow> generated_name base p"
  by (auto simp: generated_paths_def generated_name_def rglob_strm_def rglob_all_def split: if_splits)

lemma generated_paths_exist:
  "p \<in> set (generated_paths s base) \<Longrightarrow> wf_fs s \<Longrightarrow> node_at s p \<noteq> None"
  by (auto simp: generated_paths_def rglob_strm_def rglob_all_def is_file_def file_content_def
      dest: node_at_in split: if_splits option.splits)

lemma generated_name_below: "generated_name base p \<Longrightarrow> is_prefix base p \<and> p \<noteq> base"
  by (auto simp: generated_name_def MANIFEST_RELATIVE_PATH_def)

lemma restore_files_eq:
  "eff_for fs (\<lambda>(relative_path, content) s'.
      eff_bind (eff_lift (ensure_within_root s' (Abs base) (Abs (base @ relative_path))))
        (\<lambda>p. atomic_write_bytes p content) s')
   = eff_for (map (\<lambda>(r, c). (r, Some c)) fs) (restore_original base)"
  unfolding eff_for_map
  by (rule arg_cong [where f = "eff_for fs"]) (auto simp: restore_original_def fun_eq_iff simp del: eff_run)

text \<open>No directory of the library is called like an STRM file.\<close>

definition no_strm_dirs :: "fs \<Rightarrow> bool" where
  "no_strm_dirs s \<longleftrightarrow> (\<forall>p. node_at s p = Some Dir \<longrightarrow> p = [] \<or> \<not> endswith (last p) ''.strm'')"

text \<open>C22. Restoring a snapshot undoes a synchronisation pass: every STRM file below the root and the
  resolver manifest get back exactly the content they had when the snapshot was taken, those that
  did not exist then are removed, and no other file changes.\<close>

theorem snapshot_restores:
  assumes "wf_fs s0" "wf_fs s" "plain_names s" "no_strm_dirs s"
    and "node_at s (resolve s0 library_root @ MANIFEST_RELATIVE_PATH) \<noteq> Some Dir"
    and "restorable s (resolve s0 library_root) (od_keys (ss_files (snapshot_capture s0 library_root)))"
  shows "fst (snapshot_restore (snapshot_capture s0 library_root) s) = return () \<and>
     file_content (snd (snapshot_restore (snapshot_capture s0 library_root) s)) p =
       (if generated_name (resolve s0 library_root) p then file_content s0 p else file_content s p)"
proof -
  define base where "base = resolve s0 library_root"
  define snap where "snap = snapshot_capture s0 library_root"
  define files where "files = ss_files snap"
  define os where "os = map (\<lambda>(r, c). (r, Some c)) files"
  define ps where "ps = filter (\<lambda>p. p \<notin> set (map (\<lambda>(p, c). base @ p) files)) (generated_paths s base)"
  let ?rm = "\<lambda>p. eff_then (unlink True p) (remove_empty_parents base (butlast p))"
  have root: "ss_root snap = base" by (simp add: snap_def base_def snapshot_capture_def Let_def)
  have fs: "files = map (\<lambda>p. (drop (length base) p, the (file_content s0 p)))
      (filter (is_file s0) (generated_paths s0 base))"
    by (simp add: files_def snap_def snapshot_capture_def Let_def base_def)
  have keys: "od_keys os = od_keys files" by (auto simp: os_def)
  have stored: "file_content s p \<noteq> None" if "p \<in> set (generated_paths s base)" for p
  proof -
    have n: "node_at s p \<noteq> None" "generated_name base p"
      using generated_paths_exist [OF that assms(2)] generated_paths_name [OF that] by auto
    have "p \<noteq> []" using generated_name_below [OF n(2)] by (cases p) (auto simp: is_prefix_def)
    then have "node_at s p \<noteq> Some Dir"
      using n(2) assms(4,5) by (auto simp: generated_name_def no_strm_dirs_def base_def)
    with n(1) show ?thesis by (auto simp: file_content_def split: option.splits node.splits)
  qed
  have rmable: "writable s p \<and> is_prefix base p \<and> p \<noteq> base \<and> ''..'' \<notin> set p" if "p \<in> set ps" for p
  proof -
    have g: "p \<in> set (generated_paths s base)" using that by (simp add: ps_def)
    show ?thesis
      using file_writable [OF assms(2) stored [OF g]] generated_name_below [OF generated_paths_name [OF g]]
        generated_paths_exist [OF g assms(2)] assms(3) unfolding plain_names_def by blast
  qed
  define s1 where "s1 = snd (eff_for ps ?rm s)"
  note rl = remove_list [where ps = ps, OF assms(2) rmable, folded s1_def]
  then have run1: "eff_for ps ?rm s = (return (), s1)" by (simp add: s1_def prod_eq_iff)
  have "restorable s1 base (od_keys os)"
  proof -
    have "writable s1 q" if "writable s q" for q
      using rl that by (intro writable_shrink [OF assms(2), of s1]) (auto simp: shrinks_def)
    with assms(6) show ?thesis
      unfolding keys files_def snap_def base_def by (auto simp: restorable_def)
  qed
  then have ra: "fst (eff_for os (restore_original base) s1) = return () \<and>
    (\<forall>q. file_content (snd (eff_for os (restore_original base) s1)) q =
       (if \<exists>r\<in>set (od_keys os). q = base @ r
        then the (map_of os (drop (length base) q)) else file_content s1 q))"
    using restore_all [of s1 base os] rl by simp
  have eq: "snapshot_restore snap s = eff_for os (restore_original base) s1"
    using run1 by (simp add: snapshot_restore_def Let_def root restore_files_eq os_def ps_def
        files_def [symmetric])
  have captured: "(\<exists>r\<in>set (od_keys os). q = base @ r) \<longleftrightarrow> generated_name base q \<and> file_content s0 q \<noteq> None" for q
  proof -
    have "(\<exists>r\<in>set (od_keys os). q = base @ r) \<longleftrightarrow>
        (\<exists>p\<in>set (generated_paths s0 base). file_content s0 p \<noteq> None \<and> q = base @ drop (length base) p)"
      unfolding keys by (auto simp: fs is_file_def)
    also have "\<dots> \<longleftrightarrow> (\<exists>p\<in>set (generated_paths s0 base). file_content s0 p \<noteq> None \<and> q = p)"
    proof -
      have "base @ drop (length base) p = p" if "p \<in> set (generated_paths s0 base)" for p
        using generated_name_below [OF generated_paths_name [OF that]] by (auto simp: is_prefix_iff)
      then show ?thesis by metis
    qed
    also have "\<dots> \<longleftrightarrow> generated_name base q \<and> file_content s0 q \<noteq> None"
      using in_generated_paths [OF assms(1)] generated_paths_name by blast
    finally show ?thesis .
  qed
  have "file_content (snd (snapshot_restore snap s)) q =
     (if generated_name base q then file_content s0 q else file_content s q)" for q
  proof (cases "\<exists>r\<in>set (od_keys os). q = base @ r")
    case True
    then obtain r where r: "r \<in> set (od_keys os)" "q = base @ r" by blast
    have val: "c = file_content s0 (base @ r')" if "(r', c) \<in> set os" for r' c
    proof -
      from that obtain p where p: "p \<in> set (generated_paths s0 base)" "is_file s0 p"
        "r' = drop (length base) p" "c = Some (the (file_content s0 p))"
        by (auto simp: os_def fs)
      have "base @ drop (length base) p = p"
        using generated_name_below [OF generated_paths_name [OF p(1)]] by (auto simp: is_prefix_iff)
      with p show ?thesis by (auto simp: is_file_def)
    qed
    obtain c where "map_of os r = Some c" using r(1) by (metis list.set_map map_of_eq_None_iff not_None_eq)
    then have "the (map_of os r) = file_content s0 q" using val map_of_SomeD r(2) by fastforce
    moreover have "file_content (snd (snapshot_restore snap s)) q = the (map_of os (drop (length base) q))"
      using ra True by (simp only: eq if_True)
    ultimately show ?thesis using True captured [of q] r(2) by simp
  next
    case False
    then have "file_content (snd (snapshot_restore snap s)) q = file_content s1 q"
      using ra by (simp add: eq)
    also have "\<dots> = (if q \<in> set ps then None else file_content s q)" using rl by simp
    also have "\<dots> = (if generated_name base q then file_content s0 q else file_content s q)"
    proof -
      have "q \<notin> set (map (\<lambda>(p, c). base @ p) files)"
        using False unfolding keys by force
      then have "q \<in> set ps \<longleftrightarrow> q \<in> set (generated_paths s base)" by (auto simp: ps_def)
      with False captured [of q] in_generated_paths [OF assms(2), of q base] generated_paths_name [of q s base]
      show ?thesis by (cases "file_content s q") auto
    qed
    finally show ?thesis .
  qed
  with ra eq show ?thesis unfolding snap_def base_def by simp
qed

theorem snapshot_restores_witness:
  "file_content (snd (snapshot_restore
       (snapshot_capture \<lparr>fs_cwd = [], fs_nodes = [([''l''], Dir), ([''l'', ''a.strm''], File ''x'')]\<rparr> (Abs [''l'']))
       \<lparr>fs_cwd = [], fs_nodes = [([''l''], Dir), ([''l'', ''b.strm''], File ''y'')]\<rparr>)) [''l'', ''b.strm''] = None"
proof -
  let ?before = "\<lparr>fs_cwd = [], fs_nodes = [([''l''], Dir), ([''l'', ''a.strm''], File ''x'')]\<rparr>"
  let ?after = "\<lparr>fs_cwd = [], fs_nodes = [([''l''], Dir), ([''l'', ''b.strm''], File ''y'')]\<rparr>"
  have r: "resolve ?before (Abs [''l'']) = [''l'']" by (simp add: resolve_def)
  have 1: "wf_fs ?before" "wf_fs ?after" by (auto simp: wf_fs_def od_ok_def node_at_def)
  have 2: "plain_names ?after" "no_strm_dirs ?after" by (auto simp: plain_names_def no_strm_dirs_def node_at_def endswith_def split: if_splits)
  have 3: "node_at ?after (resolve ?before (Abs [''l'']) @ MANIFEST_RELATIVE_PATH) \<noteq> Some Dir"
    by (simp add: r node_at_def MANIFEST_RELATIVE_PATH_def)
  have k: "od_keys (ss_files (snapshot_capture ?before (Abs [''l'']))) = [[''a.strm'']]"
    by (simp add: snapshot_capture_def Let_def r generated_paths_def rglob_strm_def rglob_all_def
        is_file_def file_content_def node_at_def path_exists_def is_prefix_def endswith_def
        MANIFEST_RELATIVE_PATH_def)
  have 4: "restorable ?after (resolve ?before (Abs [''l''])) (od_keys (ss_files (snapshot_capture ?before (Abs [''l'']))))"
    by (simp add: k r restorable_def writable_def node_at_def below_file_def is_prefix_def)
  show ?thesis
    using snapshot_restores [OF 1 2 3 4, of "[''l'', ''b.strm'']"] r
    by (simp add: generated_name_def is_prefix_def endswith_def file_content_def node_at_def)
qed

section \<open>Stale files\<close>

lemma keys_exist: "wf_fs s \<Longrightarrow> p \<in> set (od_keys (fs_nodes s)) \<Longrightarrow> node_at s p \<noteq> None \<and> p \<noteq> []"
  using node_at_in by (fastforce simp: image_iff)

lemma remove_dirs_keep:
  assumes "wf_fs s" "plain_names s" "is_prefix base category_root"
  shows "fst (remove_empty_dirs category_root base s) = return () \<and>
    wf_fs (snd (remove_empty_dirs category_root base s)) \<and>
    shrinks s (snd (remove_empty_dirs category_root base s)) \<and>
    file_content (snd (remove_empty_dirs category_root base s)) = file_content s"
proof -
  let ?body = "\<lambda>p s'. eff_bind (eff_lift (ensure_within_root s' (Abs base) (Abs p)))
          (\<lambda>safe_path s''. if is_dir s'' safe_path then (return (), snd (rmdir safe_path s'')) else (return (), s'')) s'"
  have body: "?body p t = (return (), if is_dir t p then snd (rmdir p t) else t)"
    if "p \<in> set (rglob_all s category_root)" for p t
  proof -
    have "''..'' \<notin> set p"
      using that keys_exist [OF assms(1), of p] assms(2) by (simp add: rglob_all_def plain_names_def)
    moreover have "is_prefix base p"
      using that assms(3) is_prefix_trans by (auto simp: rglob_all_def)
    moreover from calculation have "''..'' \<notin> set base" by (auto simp: is_prefix_iff)
    ultimately have "ensure_within_root t (Abs base) (Abs p) = return p" by (intro ensure_within_abs)
    then show ?thesis by simp
  qed
  have "fst (eff_for xs ?body s) = return () \<and>
     (wf_fs (snd (eff_for xs ?body s)) \<and> shrinks s (snd (eff_for xs ?body s)) \<and>
      file_content (snd (eff_for xs ?body s)) = file_content s)"
    if "set xs \<subseteq> set (rglob_all s category_root)" for xs
  proof (rule eff_for_returns)
    fix p t
    assume p: "p \<in> set xs" and t: "wf_fs t \<and> shrinks s t \<and> file_content t = file_content s"
    have "p \<in> set (rglob_all s category_root)" using p that by blast
    from body [OF this, of t]
    show "fst (?body p t) = return () \<and> (wf_fs (snd (?body p t)) \<and> shrinks s (snd (?body p t)) \<and>
        file_content (snd (?body p t)) = file_content s)"
      using t rmdir_run [of t p] content_rmdir [of t p] shrinks_rmdir [of t p] shrinks_trans [of s t]
      by simp
  qed (use assms in simp)
  from this [of "sort_key (\<lambda>p. - int (length p)) (rglob_all s category_root)"]
  show ?thesis by (simp add: remove_empty_dirs_def)
qed

definition strm_below :: "fpath \<Rightarrow> fpath \<Rightarrow> bool" where
  "strm_below d p \<longleftrightarrow> is_prefix d p \<and> p \<noteq> d \<and> endswith (last p) ''.strm''"

lemma clean_category_run:
  assumes "wf_fs s" "plain_names s" "no_strm_dirs s" "''..'' \<notin> set base" "category \<noteq> ''..''"
  shows "fst (clean_category base keep category s) = return () \<and>
    (wf_fs (snd (clean_category base keep category s)) \<and>
     shrinks s (snd (clean_category base keep category s)) \<and>
     file_content (snd (clean_category base keep category s)) =
      (\<lambda>q. if strm_below (base @ [category]) q \<and> q \<notin> set keep then None else file_content s q))"
proof -
  let ?d = "base @ [category]"
  have d: "ensure_within_root s (Abs base) (Abs ?d) = return ?d"
    using assms(4,5) by (intro ensure_within_ok) auto
  show ?thesis
  proof (cases "path_exists s ?d")
    case False
    have "file_content s q = None" if "strm_below ?d q" for q
    proof (rule ccontr)
      assume "file_content s q \<noteq> None"
      then obtain n where "node_at s q = Some n" by (auto simp: file_content_def split: option.splits)
      moreover from that obtain r where "q = ?d @ r" "r \<noteq> []" by (auto simp: strm_below_def is_prefix_iff)
      ultimately have "node_at s ?d = Some Dir" using dirs_above [OF assms(1), of ?d r n] by simp
      with False show False by (simp add: path_exists_def)
    qed
    with False d assms(1) show ?thesis by (auto simp: clean_category_def fun_eq_iff)
  next
    case True
    let ?ps = "rglob_strm s ?d"
    define body where "body = (\<lambda>p s2. eff_bind (eff_lift (ensure_within_root s2 (Abs base) (Abs p)))
                 (\<lambda>safe_path. if safe_path \<in> set keep then eff_return () else unlink False safe_path) s2)"
    have ps: "distinct ?ps" using assms(1) by (simp add: rglob_strm_def rglob_all_def wf_fs_def od_ok_def)
    have each: "file_content s p \<noteq> None \<and> ''..'' \<notin> set p \<and> is_prefix base p" if "p \<in> set ?ps" for p
    proof -
      have k: "p \<in> set (od_keys (fs_nodes s))" "is_prefix ?d p" "endswith (last p) ''.strm''"
        using that by (auto simp: rglob_strm_def rglob_all_def)
      note ex = keys_exist [OF assms(1) k(1)]
      have "node_at s p \<noteq> Some Dir" using ex k(3) assms(3) by (auto simp: no_strm_dirs_def)
      then have "file_content s p \<noteq> None" using ex by (auto simp: file_content_def split: option.splits node.splits)
      moreover have "is_prefix base p" using k(2) by (auto simp: is_prefix_iff)
      ultimately show ?thesis using ex assms(2) by (simp add: plain_names_def)
    qed
    define s1 where "s1 = snd (eff_for ?ps body s)"
    note ul = unlink_list [OF assms(1) ps each body_def, folded s1_def]
    then have run1: "eff_for ?ps body s = (return (), s1)" by (simp add: s1_def prod_eq_iff)
    have eq: "clean_category base keep category s = remove_empty_dirs ?d base s1"
      using True d run1 by (simp add: clean_category_def body_def)
    have pn: "plain_names s1" using ul shrinks_plain assms(2) by blast
    have wf1: "wf_fs s1" using ul by blast
    note rd = remove_dirs_keep [OF wf1 pn, of base ?d]
    have "file_content s1 = (\<lambda>q. if strm_below ?d q \<and> q \<notin> set keep then None else file_content s q)"
    proof
      fix q
      have "q \<in> set ?ps \<longleftrightarrow> strm_below ?d q" if "file_content s q \<noteq> None"
      proof -
        have "node_at s q \<noteq> None" using that by (auto simp: file_content_def split: option.splits)
        moreover have "strm_below ?d q \<Longrightarrow> q \<noteq> []" by (auto simp: strm_below_def is_prefix_def)
        ultimately show ?thesis
          by (auto simp: rglob_strm_def rglob_all_def strm_below_def dest!: node_at_Some intro: rev_image_eqI)
      qed
      then show "file_content s1 q = (if strm_below ?d q \<and> q \<notin> set keep then None else file_content s q)"
        using ul by (cases "file_content s q") auto
    qed
    with rd ul shrinks_trans [of s s1] show ?thesis unfolding eq by auto
  qed
qed

text \<open>C24. The full cleanup removes exactly the stale STRM files: below the three category directories
  every STRM file that the synchronisation did not produce is gone, and every other file, there
  and elsewhere, is untouched.\<close>

theorem stale_files_removed:
  assumes "wf_fs s" "plain_names s" "no_strm_dirs s"
  shows "fst (remove_stale_strm_files library_root current_paths s) = return () \<and>
     file_content (snd (remove_stale_strm_files library_root current_paths s)) p =
       (if list_ex (\<lambda>c. strm_below (resolve s library_root @ [c]) p) [''movies'', ''shows'', ''anime''] \<and>
           p \<notin> set (map (resolve s) current_paths)
        then None else file_content s p)"
proof -
  define base where "base = resolve s library_root"
  define keep where "keep = map (resolve s) current_paths"
  have base: "''..'' \<notin> set base" by (simp add: base_def resolve_no_dots)
  have all: "fst (eff_for cs (clean_category base keep) t) = return () \<and>
     file_content (snd (eff_for cs (clean_category base keep) t)) =
       (\<lambda>q. if list_ex (\<lambda>c. strm_below (base @ [c]) q) cs \<and> q \<notin> set keep then None else file_content t q)"
    if "wf_fs t" "plain_names t" "no_strm_dirs t" "''..'' \<notin> set cs" for cs t
    using that
  proof (induction cs arbitrary: t)
    case (Cons c cs)
    define t1 where "t1 = snd (clean_category base keep c t)"
    note cc = clean_category_run [OF Cons.prems(1-3) base, of c keep, folded t1_def]
    have c: "c \<noteq> ''..''" using Cons.prems(4) by auto
    have run: "clean_category base keep c t = (return (), t1)" using cc [OF c] by (simp add: t1_def prod_eq_iff)
    have t1: "wf_fs t1" "shrinks t t1" using cc [OF c] by simp_all
    then have "plain_names t1" "no_strm_dirs t1"
      using Cons.prems(2,3) by (auto simp: shrinks_plain) (auto simp: no_strm_dirs_def shrinks_def)
    note IH = Cons.IH [OF t1(1) this]
    have eq: "eff_for (c # cs) (clean_category base keep) t = eff_for cs (clean_category base keep) t1"
      using run by simp
    have "''..'' \<notin> set cs" using Cons.prems(4) by simp
    from IH [OF this] cc [OF c] show ?case unfolding eq by (auto simp: fun_eq_iff)
  qed simp
  have "remove_stale_strm_files library_root current_paths s =
      eff_for [''movies'', ''shows'', ''anime''] (clean_category base keep) s"
    by (simp add: remove_stale_strm_files_def base_def keep_def GENERATED_CATEGORY_DIRS_def Let_def
        del: eff_for.simps)
  then show ?thesis
    using all [OF assms, of "[''movies'', ''shows'', ''anime'']"]
    by (simp add: base_def [symmetric] keep_def [symmetric] del: eff_for.simps list.set_map)
qed

theorem stale_files_removed_witness:
  "file_content (snd (remove_stale_strm_files (Abs [''l'']) [Abs [''l'', ''movies'', ''a.strm'']]
      \<lparr>fs_cwd = [], fs_nodes = [([''l''], Dir), ([''l'', ''movies''], Dir),
         ([''l'', ''movies'', ''a.strm''], File ''x''), ([''l'', ''movies'', ''b.strm''], File ''y'')]\<rparr>))
     [''l'', ''movies'', ''b.strm''] = None"
proof -
  let ?s = "\<lparr>fs_cwd = [], fs_nodes = [([''l''], Dir), ([''l'', ''movies''], Dir),
         ([''l'', ''movies'', ''a.strm''], File ''x''), ([''l'', ''movies'', ''b.strm''], File ''y'')]\<rparr>"
  have "wf_fs ?s" "plain_names ?s" "no_strm_dirs ?s"
    by (auto simp: wf_fs_def od_ok_def node_at_def plain_names_def no_strm_dirs_def endswith_def split: if_splits)
  from stale_files_removed [OF this, of "Abs [''l'']" "[Abs [''l'', ''movies'', ''a.strm'']]" "[''l'', ''movies'', ''b.strm'']"]
  show ?thesis by (simp add: resolve_def strm_below_def is_prefix_def endswith_def)
qed

end
