(* ===== verification/LibraryReport.thy ===== *)
theory LibraryReport
  imports LibraryFiles Grouping "HOL-Library.Multiset"
begin

text \<open>
  The library summary (api/app/library/summary.py) and its validation
  (api/app/library/validation.py) over the file store.
\<close>

definition LIBRARY_CATEGORIES :: "string list" where
  "LIBRARY_CATEGORIES = [''movies'', ''shows'', ''anime'']"

definition MIN_TITLE_PARTS :: nat where "MIN_TITLE_PARTS = 2"

definition title_separator :: "char \<Rightarrow> char" where
  "title_separator c = (if c \<in> set ''._()'' then CHR '' '' else c)"

definition SUMMARY_EPISODE_SUFFIX :: regex where
  "SUMMARY_EPISODE_SUFFIX = seqs [WordB, lit_ci ''s'', rep 1 2 digit, lit_ci ''e'', rep 1 3 digit, WordB]"

section \<open>The summary\<close>

record library_file =
  lf_category :: string
  lf_title :: string
  lf_relative_path :: string
  lf_duplicate_key :: string

record duplicate_group =
  dg_key :: string
  dg_files :: "library_file list"

record entry_summary =
  es_key :: string
  es_category :: string
  es_title :: string
  es_relative_path :: string
  es_file_count :: nat

record library_summary =
  sm_root :: fpath
  sm_exists :: bool
  sm_total_files :: nat
  sm_category_counts :: "(string, nat) odict"
  sm_files :: "library_file list"
  sm_entries :: "entry_summary list"
  sm_duplicate_groups :: "duplicate_group list"

text \<open>\<open>value.split()\<close> without an argument: the runs of characters that are not white space.\<close>

definition split_words :: "string \<Rightarrow> string list" where
  "split_words = runs (\<lambda>c. \<not> is_space c)"

definition normalized_title :: "string \<Rightarrow> string" where
  "normalized_title v = join '' '' (split_words (map title_separator (casefold v)))"

definition title_from_path :: "fpath \<Rightarrow> fpath \<Rightarrow> string \<Rightarrow> string" where
  "title_from_path base p category =
     (let parts = drop (length base) p
      in if category = ''movies'' \<and> MIN_TITLE_PARTS \<le> length parts then parts ! 1
         else if category \<in> {''shows'', ''anime''} \<and> MIN_TITLE_PARTS \<le> length parts then parts ! 1
         else name_stem (last p))"

definition duplicate_key :: "string \<Rightarrow> string \<Rightarrow> fpath \<Rightarrow> string" where
  "duplicate_key category title p =
     (let title_key = normalized_title title; stem = name_stem (last p)
      in if category = ''movies'' then category @ '':'' @ title_key
         else (case search SUMMARY_EPISODE_SUFFIX stem of
             None \<Rightarrow> category @ '':'' @ title_key @ '':'' @ normalized_title stem
           | Some m \<Rightarrow> category @ '':'' @ title_key @ '':'' @ casefold (slice stem (m_start m) (m_end m))))"

definition library_file_of :: "fpath \<Rightarrow> fpath \<Rightarrow> string \<Rightarrow> library_file" where
  "library_file_of base p category =
     (let relative_path = as_posix (Rel (drop (length base) p)); title = title_from_path base p category
      in \<lparr>lf_category = category, lf_title = title, lf_relative_path = relative_path,
          lf_duplicate_key = duplicate_key category title p\<rparr>)"

definition category_files :: "fs \<Rightarrow> fpath \<Rightarrow> string \<Rightarrow> library_file list result" where
  "category_files s base category =
     bind_res (ensure_within_root s (Abs base) (Abs (base @ [category]))) (\<lambda>category_root.
       if \<not> path_exists s category_root then return []
       else mapM (\<lambda>p. bind_res (ensure_within_root s (Abs base) (Abs p))
              (\<lambda>safe_path. return (library_file_of base safe_path category)))
            (sort (rglob_strm s category_root)))"

definition iter_library_files :: "fs \<Rightarrow> fpath \<Rightarrow> library_file list result" where
  "iter_library_files s base =
     bind_res (mapM (category_files s base) LIBRARY_CATEGORIES) (\<lambda>fss. return (concat fss))"

definition entry_key :: "library_file \<Rightarrow> string" where
  "entry_key f =
     (let parts = path_parts (parse_path (lf_relative_path f))
      in if MIN_TITLE_PARTS \<le> length parts then join ''/'' (take MIN_TITLE_PARTS parts)
         else lf_relative_path f)"

text \<open>\<open>counts[k] += 1\<close> on a dictionary that has the key.\<close>

definition bump :: "string \<Rightarrow> (string, nat) odict \<Rightarrow> (string, nat) odict" where
  "bump k d = AList.update k (Suc (case map_of d k of None \<Rightarrow> 0 | Some n \<Rightarrow> n)) d"

definition category_counts :: "library_file list \<Rightarrow> (string, nat) odict" where
  "category_counts files = fst (fold (\<lambda>f (counts, seen).
       if entry_key f \<in> set seen then (counts, seen)
       else (bump (lf_category f) counts, entry_key f # seen))
     files (map (\<lambda>c. (c, 0)) LIBRARY_CATEGORIES, []))"

definition entry_summary_of :: "string \<Rightarrow> library_file list \<Rightarrow> entry_summary" where
  "entry_summary_of key files =
     \<lparr>es_key = key, es_category = lf_category (hd files), es_title = lf_title (hd files),
      es_relative_path = key, es_file_count = length files\<rparr>"

definition summary_entries :: "library_file list \<Rightarrow> entry_summary list" where
  "summary_entries files =
     map (\<lambda>(key, group). entry_summary_of key group) (sort_key fst (group_by entry_key files))"

definition duplicate_groups :: "library_file list \<Rightarrow> duplicate_group list" where
  "duplicate_groups files =
     map (\<lambda>(key, group). \<lparr>dg_key = key, dg_files = group\<rparr>)
       (filter (\<lambda>(key, group). 1 < length group) (sort_key fst (group_by lf_duplicate_key files)))"

definition empty_summary :: "fpath \<Rightarrow> bool \<Rightarrow> library_summary" where
  "empty_summary base ex =
     \<lparr>sm_root = base, sm_exists = ex, sm_total_files = 0,
      sm_category_counts = map (\<lambda>c. (c, 0)) LIBRARY_CATEGORIES, sm_files = [], sm_entries = [],
      sm_duplicate_groups = []\<rparr>"

definition summarize_library :: "fs \<Rightarrow> path \<Rightarrow> library_summary result" where
  "summarize_library s p =
     (let safe_root = resolve s p
      in if \<not> path_exists s safe_root then return (empty_summary safe_root False)
         else bind_res (iter_library_files s safe_root) (\<lambda>files.
           return \<lparr>sm_root = safe_root, sm_exists = True, sm_total_files = length files,
             sm_category_counts = category_counts files, sm_files = files,
             sm_entries = summary_entries files, sm_duplicate_groups = duplicate_groups files\<rparr>))"

section \<open>Validation\<close>

definition HTTP_URL :: regex where "HTTP_URL = seqs [Bol, lit_ci ''http'', opt (lit_ci ''s''), lit ''://'']"
definition SEASON_FOLDER :: regex where "SEASON_FOLDER = seqs [Bol, lit ''Season '', exactly 2 digit, Eol]"

definition EPISODE_SUFFIX :: regex where
  "EPISODE_SUFFIX = seqs [WordB, lit_ci ''S'', exactly 2 digit, lit_ci ''E'', rep 2 3 digit, WordB]"

definition MOVIE_PATH_PARTS :: nat where "MOVIE_PATH_PARTS = 3"
definition SERIES_PATH_PARTS :: nat where "SERIES_PATH_PARTS = 4"

record validation_issue =
  vi_code :: string
  vi_message :: string
  vi_relative_path :: "string option"

record validation_report =
  vr_summary :: library_summary
  vr_warnings :: "validation_issue list"
  vr_errors :: "validation_issue list"

definition report_ok :: "validation_report \<Rightarrow> bool" where
  "report_ok r \<longleftrightarrow> vr_errors r = []"

definition issue :: "string \<Rightarrow> string \<Rightarrow> string option \<Rightarrow> validation_issue" where
  "issue c m p = \<lparr>vi_code = c, vi_message = m, vi_relative_path = p\<rparr>"

definition add_category_warnings :: "library_summary \<Rightarrow> validation_issue list" where
  "add_category_warnings sm =
     (if sm_total_files sm = 0
      then [issue ''library_empty''
        ''No STRM files were found. Run a sync before adding libraries in Jellyfin.'' None]
      else [])"

definition strm_files_outside_categories :: "fs \<Rightarrow> fpath \<Rightarrow> validation_issue list" where
  "strm_files_outside_categories s base =
     concat (map (\<lambda>p. let relative = drop (length base) p
       in if relative \<noteq> [] \<and> hd relative \<in> set LIBRARY_CATEGORIES then []
          else [issue ''strm_outside_category'' ''STRM file is outside movies, shows, or anime.''
                  (Some (as_posix (Rel relative)))])
       (sort (rglob_strm s base)))"

definition validate_series_shape :: "fpath \<Rightarrow> string \<Rightarrow> string \<Rightarrow> validation_issue option" where
  "validate_series_shape parts relative_path category_name =
     (if length parts \<noteq> SERIES_PATH_PARTS
      then Some (issue ''series_path_shape''
        (category_name @ '' STRM files should be under category/Title/Season XX/Title - SXXEYY.strm.'')
        (Some relative_path))
      else if \<not> fullmatch SEASON_FOLDER (parts ! 2)
      then Some (issue ''season_folder_shape'' ''Season folder should use the format Season 01.''
        (Some relative_path))
      else if search EPISODE_SUFFIX (name_stem (parts ! 3)) = None
      then Some (issue ''episode_filename_shape'' ''Episode filename should include SXXEYY.''
        (Some relative_path))
      else None)"

definition validate_relative_shape :: "fpath \<Rightarrow> string \<Rightarrow> validation_issue option" where
  "validate_relative_shape relative category =
     (let relative_path = as_posix (Rel relative)
      in if category = ''movies'' \<and> length relative \<noteq> MOVIE_PATH_PARTS
         then Some (issue ''movie_path_shape'' ''Movie STRM files should be under movies/Title/Title.strm.''
           (Some relative_path))
         else if category = ''shows'' then validate_series_shape relative relative_path ''Show''
         else if category = ''anime'' \<and> length relative = MOVIE_PATH_PARTS then None
         else if category = ''anime'' then validate_series_shape relative relative_path ''Anime series''
         else None)"

definition validate_strm_file :: "fs \<Rightarrow> fpath \<Rightarrow> fpath \<Rightarrow> string \<Rightarrow> validation_issue option result" where
  "validate_strm_file s p relative category =
     bind_res (fst (read_file p s)) (\<lambda>text.
       let content = strip text; relative_path = as_posix (Rel relative)
       in return (
         if content = [] then Some (issue ''strm_empty'' ''STRM file is empty.'' (Some relative_path))
         else if CHR 0x0A \<in> set content
         then Some (issue ''strm_multiple_lines'' ''STRM file should contain one playback URL.''
           (Some relative_path))
         else if search HTTP_URL content = None
         then Some (issue ''strm_url_invalid'' ''STRM playback URL must start with http:// or https://.''
           (Some relative_path))
         else validate_relative_shape relative category))"

definition invalid_strm_files :: "fs \<Rightarrow> fpath \<Rightarrow> validation_issue list result" where
  "invalid_strm_files s base =
     bind_res (mapM (\<lambda>category.
         let category_root = base @ [category]
         in if \<not> path_exists s category_root then return []
            else mapM (\<lambda>p. validate_strm_file s p (drop (length base) p) category)
                   (sort (rglob_strm s category_root))) LIBRARY_CATEGORIES)
       (\<lambda>found. return (concat (map (\<lambda>i. case i of None \<Rightarrow> [] | Some x \<Rightarrow> [x]) (concat found))))"

definition duplicate_warnings :: "library_summary \<Rightarrow> validation_issue list" where
  "duplicate_warnings sm = map (\<lambda>g. issue ''duplicate_generated_path''
     (''Duplicate generated entry group contains '' @ dec (length (dg_files g)) @ '' files.'')
     (Some (lf_relative_path (hd (dg_files g))))) (sm_duplicate_groups sm)"

definition validate_jellyfin_library :: "fs \<Rightarrow> path \<Rightarrow> validation_report result" where
  "validate_jellyfin_library s p =
     bind_res (summarize_library s p) (\<lambda>summary.
       if \<not> sm_exists summary
       then return \<lparr>vr_summary = summary, vr_warnings = [],
              vr_errors = [issue ''library_root_missing'' ''Library root does not exist.'' None]\<rparr>
       else bind_res (invalid_strm_files s (sm_root summary)) (\<lambda>invalid.
         return \<lparr>vr_summary = summary,
           vr_warnings = add_category_warnings summary @ duplicate_warnings summary,
           vr_errors = strm_files_outside_categories s (sm_root summary) @ invalid\<rparr>))"

section \<open>The entries and the counts\<close>

lemma map_of_bump: "map_of (bump k d) j = (if j = k then Some (Suc (case map_of d k of None \<Rightarrow> 0 | Some n \<Rightarrow> n)) else map_of d j)"
  by (simp add: bump_def update_conv')

lemma sum_bump:
  "k \<in> set (od_keys d) \<Longrightarrow> od_ok d \<Longrightarrow> sum_list (map snd (bump k d)) = Suc (sum_list (map snd d))"
proof (induction d)
  case (Cons p d)
  show ?case
  proof (cases "fst p = k")
    case True
    then show ?thesis by (cases p) (simp add: bump_def)
  next
    case False
    then have "bump k (p # d) = p # bump k d" by (cases p) (simp add: bump_def)
    with Cons False show ?thesis by (auto simp: od_ok_def)
  qed
qed simp

lemma bump_keys: "k \<in> set (od_keys d) \<Longrightarrow> od_keys (bump k d) = od_keys d"
  by (simp add: bump_def update_keys)

definition count_step :: "library_file \<Rightarrow> (string, nat) odict \<times> string list \<Rightarrow> (string, nat) odict \<times> string list" where
  "count_step f cs = (case cs of (counts, seen) \<Rightarrow>
     if entry_key f \<in> set seen then (counts, seen) else (bump (lf_category f) counts, entry_key f # seen))"

lemma count_run:
  assumes "\<forall>f\<in>set files. lf_category f \<in> set LIBRARY_CATEGORIES"
  shows "od_keys (fst (fold count_step files (map (\<lambda>c. (c, 0)) LIBRARY_CATEGORIES, []))) = LIBRARY_CATEGORIES \<and>
    set (snd (fold count_step files (map (\<lambda>c. (c, 0)) LIBRARY_CATEGORIES, []))) = entry_key ` set files \<and>
    sum_list (map snd (fst (fold count_step files (map (\<lambda>c. (c, 0)) LIBRARY_CATEGORIES, []))))
      = card (entry_key ` set files)"
  using assms
proof (induction files rule: rev_induct)
  case Nil
  then show ?case by (simp add: LIBRARY_CATEGORIES_def)
next
  case (snoc f files)
  obtain counts seen where r: "fold count_step files (map (\<lambda>c. (c, 0)) LIBRARY_CATEGORIES, []) = (counts, seen)"
    by fastforce
  from snoc r have IH: "od_keys counts = LIBRARY_CATEGORIES" "set seen = entry_key ` set files"
    "sum_list (map snd counts) = card (entry_key ` set files)" by simp_all
  have ok: "od_ok counts" using IH(1) by (simp add: od_ok_def LIBRARY_CATEGORIES_def)
  have k: "lf_category f \<in> set (od_keys counts)" using snoc.prems unfolding IH(1) by simp
  show ?case
  proof (cases "entry_key f \<in> set seen")
    case True
    then have "insert (entry_key f) (entry_key ` set files) = entry_key ` set files"
      using IH(2) by auto
    moreover have "count_step f (counts, seen) = (counts, seen)" using True by (simp add: count_step_def)
    ultimately show ?thesis using IH r by simp
  next
    case False
    then have "card (insert (entry_key f) (entry_key ` set files)) = Suc (card (entry_key ` set files))"
      using IH(2) by simp
    moreover have "count_step f (counts, seen) = (bump (lf_category f) counts, entry_key f # seen)"
      using False by (simp add: count_step_def)
    ultimately show ?thesis using IH r sum_bump [OF k ok] bump_keys [OF k] by simp
  qed
qed

lemma category_counts_fold: "category_counts files = fst (fold count_step files (map (\<lambda>c. (c, 0)) LIBRARY_CATEGORIES, []))"
  by (simp add: category_counts_def count_step_def [abs_def] case_prod_unfold)

lemma summary_entries_total: "sum_list (map es_file_count (summary_entries files)) = length files"
proof -
  have "sum_list (map es_file_count (summary_entries files))
      = sum_list (map (length \<circ> snd) (sort_key fst (group_by entry_key files)))"
    by (simp add: summary_entries_def entry_summary_of_def case_prod_unfold comp_def)
  also have "\<dots> = sum_list (map (length \<circ> snd) (group_by entry_key files))"
    by (metis mset_map mset_sort sum_mset_sum_list)
  finally show ?thesis by (simp add: group_by_total)
qed

lemma category_files_category:
  "category_files s base c = return fl \<Longrightarrow> f \<in> set fl \<Longrightarrow> lf_category f = c"
proof -
  have aux: "mapM (\<lambda>p. bind_res (ensure_within_root s (Abs base) (Abs p))
              (\<lambda>safe_path. return (library_file_of base safe_path c))) ps = return fl \<Longrightarrow>
     f \<in> set fl \<Longrightarrow> lf_category f = c" for ps fl
    by (induction ps arbitrary: fl) (auto simp: bind_res_Inr_iff library_file_of_def Let_def)
  assume "category_files s base c = return fl" "f \<in> set fl"
  with aux show ?thesis by (auto simp: category_files_def bind_res_Inr_iff split: if_splits)
qed

lemma iter_files_category:
  assumes "iter_library_files s base = return files"
  shows "\<forall>f\<in>set files. lf_category f \<in> set LIBRARY_CATEGORIES"
proof -
  have aux: "mapM (category_files s base) cs = return fss \<Longrightarrow> f \<in> set (concat fss) \<Longrightarrow> lf_category f \<in> set cs"
    for cs fss f
  proof (induction cs arbitrary: fss)
    case (Cons c cs)
    then show ?case using category_files_category by (fastforce simp: bind_res_Inr_iff)
  qed simp
  from assms obtain fss where "mapM (category_files s base) LIBRARY_CATEGORIES = return fss" "files = concat fss"
    by (auto simp: iter_library_files_def bind_res_Inr_iff)
  with aux show ?thesis by blast
qed

text \<open>The library page adds up: the files of all entries together are all files found, the counts of
  the categories together are the number of entries, and exactly the duplicate keys with more than
  one file make a duplicate group, which holds all files of that key.\<close>

theorem summary_adds_up:
  assumes "summarize_library s p = return sm"
  shows "sum_list (map es_file_count (sm_entries sm)) = sm_total_files sm \<and>
     sum_list (map snd (sm_category_counts sm)) = length (sm_entries sm) \<and>
     set (sm_duplicate_groups sm) =
       {g. dg_files g = filter (\<lambda>f. lf_duplicate_key f = dg_key g) (sm_files sm) \<and> 1 < length (dg_files g)}"
proof (cases "path_exists s (resolve s p)")
  case False
  then have "sm = empty_summary (resolve s p) False"
    using assms by (simp add: summarize_library_def Let_def)
  then show ?thesis by (simp add: empty_summary_def LIBRARY_CATEGORIES_def)
next
  case True
  then obtain files where f: "iter_library_files s (resolve s p) = return files"
    and sm: "sm_total_files sm = length files" "sm_category_counts sm = category_counts files"
      "sm_files sm = files" "sm_entries sm = summary_entries files" "sm_duplicate_groups sm = duplicate_groups files"
    using assms by (auto simp: summarize_library_def Let_def bind_res_Inr_iff)
  have "length (summary_entries files) = card (entry_key ` set files)"
    by (simp add: summary_entries_def length_group_by)
  moreover have "sum_list (map snd (category_counts files)) = card (entry_key ` set files)"
    using count_run [OF iter_files_category [OF f]] by (simp add: category_counts_fold)
  moreover have "set (duplicate_groups files) =
      {g. dg_files g = filter (\<lambda>f. lf_duplicate_key f = dg_key g) files \<and> 1 < length (dg_files g)}"
  proof -
    have mem: "(k, gs) \<in> set (group_by lf_duplicate_key files) \<longleftrightarrow>
        gs = filter (\<lambda>f. lf_duplicate_key f = k) files \<and> k \<in> lf_duplicate_key ` set files" for k gs
    proof -
      have "distinct (od_keys (group_by lf_duplicate_key files))"
        using group_by_ok [of lf_duplicate_key files] by (simp add: od_ok_def)
      from map_of_eq_Some_iff [OF this, of k gs] group_by_lookup [of lf_duplicate_key files k]
      show ?thesis by (cases "k \<in> lf_duplicate_key ` set files") auto
    qed
    have "g \<in> set (duplicate_groups files) \<longleftrightarrow>
        (dg_key g, dg_files g) \<in> set (group_by lf_duplicate_key files) \<and> 1 < length (dg_files g)" for g
      by (cases g) (force simp: duplicate_groups_def)
    moreover have "k \<in> lf_duplicate_key ` set files"
      if "1 < length (filter (\<lambda>f. lf_duplicate_key f = k) files)" for k
    proof -
      from that have "filter (\<lambda>f. lf_duplicate_key f = k) files \<noteq> []" by auto
      then show ?thesis by (auto simp: filter_empty_conv)
    qed
    ultimately have "g \<in> set (duplicate_groups files) \<longleftrightarrow>
        dg_files g = filter (\<lambda>f. lf_duplicate_key f = dg_key g) files \<and> 1 < length (dg_files g)" for g
      using mem [of "dg_key g" "dg_files g"] by (cases "1 < length (dg_files g)") auto
    then show ?thesis by blast
  qed
  ultimately show ?thesis by (simp add: sm summary_entries_total)
qed

theorem summary_adds_up_witness:
  "\<exists>sm. summarize_library \<lparr>fs_cwd = [], fs_nodes = [([''l''], Dir), ([''l'', ''movies''], Dir),
       ([''l'', ''movies'', ''Up''], Dir), ([''l'', ''movies'', ''Up'', ''Up.strm''], File ''x'')]\<rparr>
     (Abs [''l'']) = return sm \<and> sm_total_files sm = 1 \<and> sum_list (map es_file_count (sm_entries sm)) = 1"
proof -
  let ?fs = "\<lparr>fs_cwd = [], fs_nodes = [([''l''], Dir), ([''l'', ''movies''], Dir),
       ([''l'', ''movies'', ''Up''], Dir), ([''l'', ''movies'', ''Up'', ''Up.strm''], File ''x'')]\<rparr>"
  have strm: "rglob_strm ?fs [''l'', ''movies''] = [[''l'', ''movies'', ''Up'', ''Up.strm'']]"
    by (simp add: rglob_strm_def rglob_all_def is_prefix_def endswith_def)
  obtain files where f: "iter_library_files ?fs [''l''] = return files" "length files = 1"
    by (simp add: iter_library_files_def LIBRARY_CATEGORIES_def category_files_def ensure_within_root_def
        Let_def resolve_def is_prefix_def path_exists_def node_at_def strm)
  have "resolve ?fs (Abs [''l'']) = [''l'']" "path_exists ?fs [''l'']"
    by (simp_all add: resolve_def path_exists_def node_at_def)
  with f obtain sm where sm: "summarize_library ?fs (Abs [''l'']) = return sm" "sm_total_files sm = 1"
    by (simp add: summarize_library_def)
  with summary_adds_up [OF sm(1)] show ?thesis by auto
qed

section \<open>Generated files validate\<close>

lemma digit_pair: "0 \<le> n \<Longrightarrow> n < 100 \<Longrightarrow> \<exists>c d. pad2 n = [c, d] \<and> is_digit c \<and> is_digit d"
proof -
  assume n: "0 \<le> n" "n < 100"
  have z: "is_digit (CHR ''0'')" by (simp add: is_digit_def code_def)
  show ?thesis
  proof (cases "n < 10")
    case True
    then have "nat n < 10" by simp
    with n z show ?thesis by (simp add: pad2_def dec_small)
  next
    case False
    then have "10 \<le> nat n" "nat n div 10 < 10" using n by auto
    with n show ?thesis by (simp add: pad2_def dec_small dec_large)
  qed
qed

lemma digit_pair_or_three:
  "0 \<le> n \<Longrightarrow> n < 1000 \<Longrightarrow> \<exists>c d x. pad2 n = [c, d] @ x \<and> is_digit c \<and> is_digit d \<and>
     (x = [] \<or> (\<exists>e. x = [e] \<and> is_digit e))"
proof (cases "n < 100")
  case True
  assume "0 \<le> n"
  with digit_pair [OF this True] show ?thesis by force
next
  case False
  assume "0 \<le> n" "n < 1000"
  define m where "m = nat n"
  have m: "100 \<le> m" "m < 1000" "n = int m" using False \<open>0 \<le> n\<close> \<open>n < 1000\<close> by (auto simp: m_def)
  have "dec m = [digit_char (m div 10 div 10), digit_char (m div 10 mod 10), digit_char (m mod 10)]"
  proof -
    have "10 \<le> m" "10 \<le> m div 10" "m div 10 div 10 < 10" using m by auto
    then show ?thesis by (simp add: dec_large [of m] dec_large [of "m div 10"] dec_small)
  qed
  moreover have "m div 10 div 10 < 10" using m by (simp add: div_mult2_eq [symmetric])
  ultimately show ?thesis using m by (simp add: pad2_def)
qed

lemma season_folder_matches:
  assumes "0 \<le> n" "n < 100"
  shows "fullmatch SEASON_FOLDER (season_folder n)"
proof -
  obtain c d where "pad2 n = [c, d]" "is_digit c" "is_digit d" using digit_pair [OF assms] by blast
  then show ?thesis
    by (simp add: season_folder_def fullmatch_def SEASON_FOLDER_def lit_def chr_def digit_def
        numeral_2_eq_2 at_eol_def)
qed

lemma episode_suffix_found:
  assumes "0 \<le> s" "s < 100" "0 \<le> n" "n < 1000"
  shows "search EPISODE_SUFFIX (t @ '' - '' @ episode_suffix s n) \<noteq> None"
proof -
  obtain a b where ab: "pad2 s = [a, b]" "is_digit a" "is_digit b" using digit_pair assms by blast
  obtain c d x where cd: "pad2 n = [c, d] @ x" "is_digit c" "is_digit d" "x = [] \<or> (\<exists>e. x = [e] \<and> is_digit e)"
    using digit_pair_or_three assms by blast
  define pre where "pre = t @ '' - ''"
  have pre: "pre \<noteq> []" "pre ! (length pre - 1) = CHR '' ''" by (simp_all add: pre_def nth_append)
  have w: "is_word (CHR ''S'')" "\<not> is_word (CHR '' '')" "is_word c" "is_word d" "e \<in> set x \<Longrightarrow> is_word e" for e
    using cd by (auto simp: is_word_def is_alnum_def is_upper_def is_lower_def is_digit_def code_def)
  have str: "t @ '' - '' @ episode_suffix s n = pre @ ''S'' @ [a, b] @ ''E'' @ [c, d] @ x"
    by (simp add: pre_def episode_suffix_def ab cd)
  let ?s = "pre @ ''S'' @ [a, b] @ ''E'' @ [c, d] @ x"
  have "results EPISODE_SUFFIX ?s (length pre) [] \<noteq> []"
    using pre w ab(2,3) cd(2-4)
    by (auto simp: EPISODE_SUFFIX_def lit_ci_def digit_def numeral_2_eq_2 rep_def opt_def
        at_word_boundary_def word_at_def nth_append)
  from search_found [OF this] show ?thesis unfolding str by simp
qed

lemma entry_shape_valid:
  assumes "valid_entry e" "movie_like e \<or> the (le_season_number e) < 100 \<and> the (le_episode_number e) < 1000"
  shows "validate_relative_shape (entry_segments e) (category_str (le_category e)) = None"
proof (cases "movie_like e")
  case True
  then show ?thesis
    by (cases "le_category e") (auto simp: movie_like_def validate_relative_shape_def entry_segments_def
        MOVIE_PATH_PARTS_def Let_def)
next
  case False
  obtain s n where sn: "le_season_number e = Some s" "le_episode_number e = Some n" "0 \<le> s" "0 \<le> n"
    using entry_numbers [OF assms(1) False] by blast
  let ?t = "clean_path_segment (Some (le_title e)) unknown_segment"
  have b: "s < 100" "n < 1000" using assms(2) False sn by auto
  have "name_stem ((?t @ '' - '' @ episode_suffix s n) @ CHR ''.'' # ''strm'') = ?t @ '' - '' @ episode_suffix s n"
    by (rule name_stem_ext) simp_all
  then have stem: "name_stem (?t @ '' - '' @ episode_suffix s n @ ''.strm'') = ?t @ '' - '' @ episode_suffix s n"
    by simp
  have found: "search EPISODE_SUFFIX (name_stem (?t @ '' - '' @ episode_suffix s n @ ''.strm'')) \<noteq> None"
    unfolding stem by (rule episode_suffix_found [OF sn(3) b(1) sn(4) b(2)])
  have "validate_series_shape [category_str (le_category e), ?t, season_folder s,
      ?t @ '' - '' @ episode_suffix s n @ ''.strm''] p c = None" for p c
    using found season_folder_matches [OF sn(3) b(1)]
    by (simp add: validate_series_shape_def SERIES_PATH_PARTS_def del: append_Cons)
  moreover have "le_category e \<noteq> Movies" using False by (auto simp: movie_like_def)
  ultimately show ?thesis using False sn
    by (cases "le_category e") (simp_all add: validate_relative_shape_def Let_def entry_segments_def
        MOVIE_PATH_PARTS_def)
qed



end
