(* ===== verification/IdentityMatch.thy ===== *)
theory IdentityMatch
  imports ProviderMetadata LibraryReport
begin

text \<open>
  The match of a release's title with a TMDB identity (api/app/sync/media_identity.py). Titles are ASCII
  here, so the ranges of the CJK scripts are tested on code points that no modelled character has.
  \<open>str(v)\<close> of a JSON value that is no string, integer or boolean is a parameter; Python's \<open>float\<close> is
  \<open>PyFloat\<close>'s. The semaphore of one is left out: nothing here runs concurrently.
\<close>

section \<open>Constants and the identity\<close>

definition MIN_MATCH_SCORE :: pyfloat where "MIN_MATCH_SCORE = float_of_text ''0.4''"
definition MIN_DATE_LENGTH :: nat where "MIN_DATE_LENGTH = 4"
definition MIN_LATIN_LENGTH :: nat where "MIN_LATIN_LENGTH = 3"
definition MIN_CJK_LENGTH :: nat where "MIN_CJK_LENGTH = 2"
definition MAX_POSTER_PATH_LENGTH :: nat where "MAX_POSTER_PATH_LENGTH = 300"
definition RESOLVER_VERSION :: string where "RESOLVER_VERSION = ''tmdb-v2''"

definition junk_word :: "string \<Rightarrow> regex" where "junk_word w = seqs [WordB, lit_ci w, WordB]"

definition junk_words :: "string list \<Rightarrow> regex" where
  "junk_words ws = seqs [WordB, alts (map lit_ci ws), WordB]"

definition www_until :: "string \<Rightarrow> regex" where
  "www_until w = seqs [WordB, lit_ci ''www'', WordB, Star any_but_newline, WordB, lit_ci w, WordB]"

definition numbered_junk :: "string \<Rightarrow> regex" where
  "numbered_junk w = seqs [WordB, Star digit, lit_ci w, WordB]"

definition JUNK_PREFIXES :: regex where
  "JUNK_PREFIXES = seqs [Bol, plus (alts
     [www_until ''com'', www_until ''org'',
      seqs [WordB, lit_ci ''www'', WordB, Star (Chr is_space)],
      numbered_junk ''tamilmv'', junk_word ''cards'', junk_word ''center'', junk_word '' TamilMV'',
      numbered_junk ''tamilultra'', junk_word ''masstamilan'', junk_word ''isaimini'', junk_word ''tamilyogi'',
      junk_word ''tamilrockers'',
      seqs [WordB, lit_ci ''center'', Star (Chr is_space)],
      seqs [chr (CHR ''[''), plus (Chr (\<lambda>c. c \<noteq> CHR '']'')), chr (CHR '']'')],
      junk_words [''YIFY'', ''YTS'', ''RARBG'', ''EZTV'', ''ETTV'', ''KAT'', ''LimeTorrents'', ''Demonoid'', ''Scene'',
        ''Tamilrockers'', ''Tamilmv'', ''Isaimini'', ''Tamilyogi'', ''Movierulz'', ''Tamilgun'', ''1337x'',
        ''Worldfree4u'', ''Madrasrockers'', ''Thiruttumovies'', ''Hiidude'', ''Mymoviesda'', ''Filmlinks4u'',
        ''Tamildbox'', ''Tamilrage'', ''Mtamilrockers''],
      seqs [WordB, Alt (lit_ci ''www'') (seqs [lit_ci ''http'', opt (lit_ci ''s''), lit_ci ''://'']), plus (Chr (\<lambda>c. \<not> is_space c))],
      junk_words [''com'', ''org'', ''net'', ''in'', ''co.uk'', ''io''],
      junk_words [''movies'', ''films'', ''download'', ''free'', ''watch'', ''online''],
      Chr (\<lambda>c. is_space c \<or> c \<in> set ''._-'')])]"

record media_identity =
  md_tmdb_id :: "string option"
  md_title :: string
  md_year :: "int option"
  md_media_type :: string
  md_poster_path :: "string option"
  md_authority :: identity_authority
  md_status :: resolution_status
  md_confidence :: "int option"
  md_resolver_version :: string
  md_library_category :: "library_category option"

text \<open>The dataclass with its defaults.\<close>

definition media_identity_of :: "string option \<Rightarrow> string \<Rightarrow> int option \<Rightarrow> string \<Rightarrow> media_identity" where
  "media_identity_of tmdb_id title year media_type =
     \<lparr>md_tmdb_id = tmdb_id, md_title = title, md_year = year, md_media_type = media_type, md_poster_path = None,
       md_authority = ProviderResolved, md_status = Resolved, md_confidence = None,
       md_resolver_version = RESOLVER_VERSION, md_library_category = None\<rparr>"

section \<open>Titles\<close>

definition is_cjk :: "char \<Rightarrow> bool" where
  "is_cjk c = (let n = code c in (0x3040 \<le> n \<and> n \<le> 0x30FF) \<or> (0x4E00 \<le> n \<and> n \<le> 0x9FAF) \<or> (0xAC00 \<le> n \<and> n \<le> 0xD7AF))"

definition contains_cjk :: "string \<Rightarrow> bool" where
  "contains_cjk v = list_ex is_cjk v"

definition clean_search_title :: "string \<Rightarrow> string" where
  "clean_search_title title =
     (let cleaned = strip (sub JUNK_PREFIXES [] title) in if cleaned = [] then title else cleaned)"

definition is_latin :: "char \<Rightarrow> bool" where "is_latin c \<longleftrightarrow> is_lower c \<or> is_upper c"

definition extract_search_queries :: "string \<Rightarrow> string list" where
  "extract_search_queries title =
     (let cleaned = clean_search_title title;
          has_cjk = contains_cjk cleaned;
          has_latin = (search (exactly 3 (Chr is_latin)) cleaned \<noteq> None)
      in cleaned #
         (if has_cjk \<and> has_latin
          then (let latin_char = Chr (\<lambda>c. is_latin c \<or> is_digit c \<or> c = CHR 0x27);
                    latin_parts = join '' '' (findall (seqs [exactly 2 latin_char, Star latin_char]) cleaned);
                    cjk_parts = join '' '' (findall (plus (Chr is_cjk)) cleaned)
                in (if latin_parts \<noteq> [] \<and> MIN_LATIN_LENGTH \<le> length latin_parts then [latin_parts] else []) @
                   (if cjk_parts \<noteq> [] \<and> MIN_CJK_LENGTH \<le> length cjk_parts then [cjk_parts] else []))
          else []))"

text \<open>\<open>s.isupper()\<close> and \<open>s.title()\<close>.\<close>

definition isupper :: "string \<Rightarrow> bool" where
  "isupper s \<longleftrightarrow> list_ex is_upper s \<and> \<not> list_ex is_lower s"

definition upper_char :: "char \<Rightarrow> char" where
  "upper_char c = (if is_lower c then char_of (code c - 32) else c)"

fun title_from :: "bool \<Rightarrow> string \<Rightarrow> string" where
  "title_from cased [] = []"
| "title_from cased (c # s) = (if cased then casefold_char c else upper_char c) # title_from (is_latin c) s"

definition fallback_title :: "string \<Rightarrow> string" where
  "fallback_title title =
     (let queries = extract_search_queries title;
          cleaned = (if 1 < length queries \<and> contains_cjk (hd queries) then queries ! 1 else hd queries)
      in if isupper cleaned \<and> list_ex is_latin cleaned then title_from False cleaned else cleaned)"

definition media_normalize_title :: "string \<Rightarrow> string" where
  "media_normalize_title t = normalize_title_for_identity (replace_char (CHR 0x27) [] t)"

section \<open>Scores\<close>

text \<open>\<open>int(s)\<close>: white space around, a sign, and underscores between digits are allowed.\<close>

fun digits_value :: "bool \<Rightarrow> int \<Rightarrow> string \<Rightarrow> int option" where
  "digits_value started n [] = (if started then Some n else None)"
| "digits_value started n (c # s) =
     (if is_digit c then digits_value True (n * 10 + int (digit_val c)) s
      else if c = CHR ''_'' \<and> started \<and> s \<noteq> [] then digits_value False n s else None)"

definition int_of_text :: "string \<Rightarrow> int option" where
  "int_of_text t = (case strip t of
     [] \<Rightarrow> None
   | c # s \<Rightarrow> if c = CHR ''-'' then map_option uminus (digits_value False 0 s)
       else if c = CHR ''+'' then digits_value False 0 s else digits_value False 0 (c # s))"

definition parse_year :: "json \<Rightarrow> int option" where
  "parse_year v = (case jstr v of
     None \<Rightarrow> None
   | Some s \<Rightarrow> if length s < MIN_DATE_LENGTH then None else int_of_text (take MIN_DATE_LENGTH s))"

text \<open>\<open>len(intersection) / len(union)\<close>: the correctly rounded quotient.\<close>

definition title_similarity :: "string \<Rightarrow> string \<Rightarrow> pyfloat" where
  "title_similarity t1 t2 =
     (let n1 = media_normalize_title t1; n2 = media_normalize_title t2;
          s1 = set (split_words n1); s2 = set (split_words n2)
      in if n1 = n2 then Fin 1
         else if s1 = {} \<or> s2 = {} then Fin 0
         else to_double (of_nat (card (s1 \<inter> s2)) / of_nat (card (s1 \<union> s2))))"

definition year_score :: "int option \<Rightarrow> int option \<Rightarrow> pyfloat option" where
  "year_score query_year result_year = (case (query_year, result_year) of
     (Some q, Some r) \<Rightarrow> if \<bar>q - r\<bar> = 0 then Some (Fin 1) else if \<bar>q - r\<bar> = 1 then Some (float_of_text ''0.5'') else None
   | _ \<Rightarrow> Some (float_of_text ''0.8''))"

definition score_match :: "string \<Rightarrow> int option \<Rightarrow> string \<Rightarrow> string \<Rightarrow> int option \<Rightarrow> string \<Rightarrow> pyfloat" where
  "score_match query_title query_year query_media_type result_title result_year result_media_type =
     (if query_media_type \<noteq> result_media_type then Fin 0
      else case year_score query_year result_year of
        None \<Rightarrow> Fin 0
      | Some y \<Rightarrow> float_mult (title_similarity query_title result_title) y)"

section \<open>Results\<close>

definition json_or :: "json \<Rightarrow> json \<Rightarrow> json" where
  "json_or v w = (if truthy v then v else w)"

fun str_of_json :: "(json \<Rightarrow> string) \<Rightarrow> json \<Rightarrow> string" where
  "str_of_json other (JStr s) = s"
| "str_of_json other (JInt i) = str_int i"
| "str_of_json other (JBool b) = (if b then ''True'' else ''False'')"
| "str_of_json other JNull = ''None''"
| "str_of_json other v = other v"

definition poster_path_of :: "payload \<Rightarrow> string option" where
  "poster_path_of raw = (case jstr (jget raw ''poster_path'') of
     None \<Rightarrow> None
   | Some p \<Rightarrow> if startswith p ''/'' \<and> length p \<le> MAX_POSTER_PATH_LENGTH then Some p else None)"

text \<open>The title and the year of a result of either kind; \<open>None\<close> when it has no usable title.\<close>

definition result_title :: "payload \<Rightarrow> string \<Rightarrow> string option" where
  "result_title raw media_type = (case jstr
       (if media_type = ''movie'' then json_or (jget raw ''title'') (jget raw ''original_title'')
        else json_or (jget raw ''name'') (jget raw ''original_name'')) of
     None \<Rightarrow> None | Some t \<Rightarrow> if t = [] then None else Some t)"

definition result_year :: "payload \<Rightarrow> string \<Rightarrow> int option" where
  "result_year raw media_type =
     parse_year (jget raw (if media_type = ''movie'' then ''release_date'' else ''first_air_date''))"

definition known_media_type :: "payload \<Rightarrow> string option" where
  "known_media_type raw = (case jstr (jget raw ''media_type'') of
     None \<Rightarrow> None | Some m \<Rightarrow> if m = ''movie'' \<or> m = ''tv'' then Some m else None)"

definition result_identity :: "(json \<Rightarrow> string) \<Rightarrow> payload \<Rightarrow> media_identity option" where
  "result_identity other raw =
     (if jget raw ''id'' = JNull then None
      else case known_media_type raw of
        None \<Rightarrow> None
      | Some m \<Rightarrow> map_option (\<lambda>t. (media_identity_of (Some (str_of_json other (jget raw ''id''))) t (result_year raw m) m)
            \<lparr>md_poster_path := poster_path_of raw\<rparr>) (result_title raw m))"

definition unique_same_year_identity :: "(json \<Rightarrow> string) \<Rightarrow> payload list \<Rightarrow> string \<Rightarrow> int option \<Rightarrow> media_identity option" where
  "unique_same_year_identity other raws query_media_type year = (case year of
     None \<Rightarrow> None
   | Some y \<Rightarrow>
       (case filter (\<lambda>i. md_media_type i = query_media_type \<and> md_year i = Some y) (List.map_filter (result_identity other) raws) of
          [i] \<Rightarrow> Some i | _ \<Rightarrow> None))"

definition has_matching_alternate_title :: "payload \<Rightarrow> string \<Rightarrow> bool" where
  "has_matching_alternate_title p query_title = (case jlist (json_or (jget p ''results'') (jget p ''titles'')) of
     None \<Rightarrow> False
   | Some raw_titles \<Rightarrow> list_ex (\<lambda>raw. case jobj raw of
        None \<Rightarrow> False
      | Some d \<Rightarrow> (case jstr (jget d ''title'') of None \<Rightarrow> False
          | Some t \<Rightarrow> media_normalize_title t = media_normalize_title query_title)) raw_titles)"

definition float_at_least :: "pyfloat \<Rightarrow> pyfloat \<Rightarrow> bool" where
  "float_at_least x y \<longleftrightarrow> float_greater x y \<or> (x = y \<and> x \<noteq> NaN)"

text \<open>\<open>max(a, b)\<close> keeps the first argument unless the second is greater.\<close>

definition float_max :: "pyfloat \<Rightarrow> pyfloat \<Rightarrow> pyfloat" where
  "float_max a b = (if float_greater b a then b else a)"

definition round_float :: "pyfloat \<Rightarrow> int" where
  "round_float x = (case x of Fin r \<Rightarrow> round_half_even r | _ \<Rightarrow> 0)"

text \<open>One result of the loop: its score and identity when it is good enough.\<close>

definition score_result :: "(json \<Rightarrow> string) \<Rightarrow> string \<Rightarrow> string \<Rightarrow> int option \<Rightarrow> string \<Rightarrow> payload \<Rightarrow>
    (pyfloat \<times> media_identity) option" where
  "score_result other parsed_title search_query year query_media_type raw =
     (if jget raw ''id'' = JNull then None
      else case known_media_type raw of
        None \<Rightarrow> None
      | Some m \<Rightarrow> (case result_title raw m of
          None \<Rightarrow> None
        | Some res_title \<Rightarrow>
            let res_year = result_year raw m;
                raw_score = score_match parsed_title year query_media_type res_title res_year m;
                score = (if search_query \<noteq> parsed_title
                  then float_max raw_score (score_match search_query year query_media_type res_title res_year m) else raw_score)
            in if float_at_least score MIN_MATCH_SCORE
               then Some (score, (media_identity_of (Some (str_of_json other (jget raw ''id''))) res_title res_year m)
                  \<lparr>md_poster_path := poster_path_of raw, md_confidence := Some (round_float (float_mult score (Fin 100)))\<rparr>)
               else None))"

definition score_results :: "(json \<Rightarrow> string) \<Rightarrow> payload list \<Rightarrow> string \<Rightarrow> string \<Rightarrow> int option \<Rightarrow> string \<Rightarrow>
    (pyfloat \<times> media_identity) list" where
  "score_results other raws parsed_title search_query year query_media_type =
     List.map_filter (score_result other parsed_title search_query year query_media_type) raws"

text \<open>The head after the stable descending sort: the first candidate no other one exceeds.\<close>

fun best_candidate :: "(pyfloat \<times> media_identity) \<Rightarrow> (pyfloat \<times> media_identity) list \<Rightarrow> pyfloat \<times> media_identity" where
  "best_candidate b [] = b"
| "best_candidate b (c # cs) = best_candidate (if float_greater (fst c) (fst b) then c else b) cs"

section \<open>The resolver\<close>

text \<open>\<open>MediaIdentityResolver\<close>: the TMDB service of \<open>ProviderMetadata\<close> and a cache in memory.\<close>

record 'w resolver_env =
  rv_metadata :: "'w metadata_env"
  rv_client :: "tmdb_client option"
  rv_delay :: time
  rv_sleep :: "time \<Rightarrow> 'w \<Rightarrow> 'w"
  rv_str :: "json \<Rightarrow> string"

type_synonym identity_key = "string \<times> int option \<times> string"

record 'w resolver_state =
  rs_metadata :: "'w metadata_state"
  rs_memory :: "(identity_key, media_identity) odict"

type_synonym ('w, 'a) resolver = "('w resolver_state, 'a) eff"

definition in_metadata :: "('w, 'a) metadata \<Rightarrow> ('w, 'a) resolver" where
  "in_metadata m = (\<lambda>s. case m (rs_metadata s) of (r, t) \<Rightarrow> (r, s\<lparr>rs_metadata := t\<rparr>))"

text \<open>\<open>except Exception\<close>\<close>

definition any_exception :: "exn \<Rightarrow> bool" where "any_exception e \<longleftrightarrow> e \<noteq> OutOfFuel"

definition service_get_json :: "'w resolver_env \<Rightarrow> tmdb_client \<Rightarrow> string \<Rightarrow> (string, string) odict \<Rightarrow> ('w, payload) resolver" where
  "service_get_json env c endpoint ps = in_metadata (tmdb_service_get_json (rv_metadata env) c endpoint ps DEFAULT_TMDB_CACHE_TTL)"

text \<open>A cached answer, or a request after the delay.\<close>

definition search_payload :: "'w resolver_env \<Rightarrow> tmdb_client \<Rightarrow> string \<Rightarrow> ('w, payload) resolver" where
  "search_payload env c query =
     (let ps = [(''query'', query), (''include_adult'', ''false'')]
      in eff_bind (in_metadata (tmdb_get_cached_json (rv_metadata env) ''/search/multi'' ps)) (\<lambda>cached. case cached of
           Some p \<Rightarrow> eff_return p
         | None \<Rightarrow> eff_then (in_metadata (on_world (\<lambda>w. (return (), rv_sleep env (rv_delay env) w))))
             (service_get_json env c ''/search/multi'' ps)))"

fun first_alternate :: "'w resolver_env \<Rightarrow> tmdb_client \<Rightarrow> string \<Rightarrow> string \<Rightarrow> payload list \<Rightarrow>
    ('w, media_identity option) resolver" where
  "first_alternate env c parsed_title query_media_type [] = eff_return None"
| "first_alternate env c parsed_title query_media_type (raw # raws) =
     eff_bind (eff_catch any_exception
         (eff_bind (service_get_json env c
             (''/'' @ query_media_type @ ''/'' @ str_of_json (rv_str env) (jget raw ''id'') @ ''/alternative_titles'') [])
           (\<lambda>p. eff_return (Some p)))
         (\<lambda>_. eff_return None)) (\<lambda>found. case found of
       None \<Rightarrow> first_alternate env c parsed_title query_media_type raws
     | Some p \<Rightarrow>
         if \<not> has_matching_alternate_title p parsed_title then first_alternate env c parsed_title query_media_type raws
         else (case result_identity (rv_str env) raw of
             None \<Rightarrow> first_alternate env c parsed_title query_media_type raws
           | Some i \<Rightarrow> eff_return (Some ((media_identity_of (md_tmdb_id i) (md_title i) (md_year i) (md_media_type i))
                 \<lparr>md_poster_path := md_poster_path i, md_confidence := Some 90\<rparr>))))"

definition alternate_title_identity :: "'w resolver_env \<Rightarrow> tmdb_client \<Rightarrow> payload list \<Rightarrow> string \<Rightarrow> string \<Rightarrow>
    ('w, media_identity option) resolver" where
  "alternate_title_identity env c raws parsed_title query_media_type =
     first_alternate env c parsed_title query_media_type
       (take 3 (filter (\<lambda>raw. jget raw ''media_type'' = JStr query_media_type \<and> jget raw ''id'' \<noteq> JNull) raws))"

definition unresolved :: "string \<Rightarrow> int option \<Rightarrow> string \<Rightarrow> resolution_status \<Rightarrow> media_identity" where
  "unresolved parsed_title year query_media_type status =
     (media_identity_of None (fallback_title parsed_title) year query_media_type)\<lparr>md_authority := Fallback, md_status := status\<rparr>"

fun try_queries :: "'w resolver_env \<Rightarrow> tmdb_client \<Rightarrow> string \<Rightarrow> int option \<Rightarrow> string \<Rightarrow> string list \<Rightarrow>
    ('w, media_identity) resolver" where
  "try_queries env c parsed_title year query_media_type [] =
     eff_return (unresolved parsed_title year query_media_type NoMatch)"
| "try_queries env c parsed_title year query_media_type (query # queries) =
     eff_bind (search_payload env c query) (\<lambda>p. case jget p ''results'' of
         JArr (r # rs) \<Rightarrow>
           (let valid_results = List.map_filter jobj (r # rs)
            in case score_results (rv_str env) valid_results parsed_title query year query_media_type of
                 sc # scs \<Rightarrow> eff_return (snd (best_candidate sc scs))
               | [] \<Rightarrow> (case unique_same_year_identity (rv_str env) valid_results query_media_type year of
                   Some i \<Rightarrow> eff_return i
                 | None \<Rightarrow> eff_bind (alternate_title_identity env c valid_results parsed_title query_media_type) (\<lambda>alt.
                     case alt of Some i \<Rightarrow> eff_return i
                     | None \<Rightarrow> try_queries env c parsed_title year query_media_type queries)))
       | _ \<Rightarrow> try_queries env c parsed_title year query_media_type queries)"

definition do_resolve :: "'w resolver_env \<Rightarrow> string \<Rightarrow> int option \<Rightarrow> string \<Rightarrow> ('w, media_identity) resolver" where
  "do_resolve env parsed_title year query_media_type = (case rv_client env of
     None \<Rightarrow> eff_return (media_identity_of None parsed_title year query_media_type)
   | Some c \<Rightarrow> try_queries env c parsed_title year query_media_type (extract_search_queries parsed_title))"

definition query_kind :: "string \<Rightarrow> string" where
  "query_kind category = (if category = ''movies'' then ''movie'' else ''tv'')"

definition resolve_identity :: "'w resolver_env \<Rightarrow> string \<Rightarrow> int option \<Rightarrow> string \<Rightarrow> ('w, media_identity) resolver" where
  "resolve_identity env parsed_title year category = (\<lambda>s.
     case map_of (rs_memory s) (parsed_title, year, category) of
       Some i \<Rightarrow> (return i, s)
     | None \<Rightarrow> if rv_client env = None
         then (return (unresolved parsed_title year (query_kind category) NoMatch), s)
         else (case do_resolve env parsed_title year (query_kind category) s of
             (Inr i, s') \<Rightarrow> (return i, s'\<lparr>rs_memory := AList.update (parsed_title, year, category) i (rs_memory s')\<rparr>)
           | (Inl e, s') \<Rightarrow> if any_exception e
               then (return (unresolved parsed_title year (query_kind category) ProviderError), s') else (Inl e, s')))"

definition external_media_type :: "string \<Rightarrow> string" where
  "external_media_type media_type = (if media_type = ''movie'' then ''movie'' else ''tv'')"

fun first_identity :: "(json \<Rightarrow> string) \<Rightarrow> string \<Rightarrow> json list \<Rightarrow> media_identity option" where
  "first_identity other media_type [] = None"
| "first_identity other media_type (v # vs) = (case jobj v of
     None \<Rightarrow> first_identity other media_type vs
   | Some raw \<Rightarrow> (case result_identity other (AList.update ''media_type'' (JStr media_type) raw) of
        Some i \<Rightarrow> Some i
      | None \<Rightarrow> first_identity other media_type vs))"

definition resolve_external_id :: "'w resolver_env \<Rightarrow> string \<Rightarrow> string \<Rightarrow> ('w, media_identity option) resolver" where
  "resolve_external_id env external_id media_type = (case rv_client env of
     None \<Rightarrow> eff_return None
   | Some c \<Rightarrow> if \<not> startswith external_id ''tt'' then eff_return None
       else eff_catch any_exception
         (eff_bind (service_get_json env c (''/find/'' @ external_id) [(''external_source'', ''imdb_id'')]) (\<lambda>p.
            eff_return (case jlist (jget p (external_media_type media_type @ ''_results'')) of
                None \<Rightarrow> None | Some vs \<Rightarrow> first_identity (rv_str env) (external_media_type media_type) vs)))
         (\<lambda>_. eff_return None))"

definition metadata_for_tmdb_id :: "'w resolver_env \<Rightarrow> string \<Rightarrow> string \<Rightarrow> ('w, media_identity option) resolver" where
  "metadata_for_tmdb_id env external_id media_type = (case rv_client env of
     None \<Rightarrow> eff_return None
   | Some c \<Rightarrow> if \<not> isdecimal external_id then eff_return None
       else eff_catch any_exception
         (eff_bind (service_get_json env c (''/'' @ external_media_type media_type @ ''/'' @ external_id) []) (\<lambda>p.
            eff_return (result_identity (rv_str env)
              (AList.update ''media_type'' (JStr (external_media_type media_type))
                (AList.update ''id'' (JInt (int_of_decimal external_id)) p)))))
         (\<lambda>_. eff_return None))"

section \<open>Scores are between 0 and 1\<close>

lemmas float_constants = float_texts [folded MIN_MATCH_SCORE_def] float_texts

definition unit_float :: "pyfloat \<Rightarrow> bool" where
  "unit_float x \<longleftrightarrow> (\<exists>v. x = Fin v \<and> 0 \<le> v \<and> v \<le> 1)"

lemma unit_floatI [intro]: "0 \<le> v \<Longrightarrow> v \<le> 1 \<Longrightarrow> unit_float (Fin v)"
  by (simp add: unit_float_def)

lemma to_double_unit: "0 \<le> r \<Longrightarrow> r \<le> 1 \<Longrightarrow> unit_float (to_double r)"
  using to_double_between [of 0 r 1] by (auto simp: unit_float_def)

lemma unit_mult: "unit_float x \<Longrightarrow> unit_float y \<Longrightarrow> unit_float (float_mult x y)"
  by (auto simp: unit_float_def [of x] unit_float_def [of y] intro!: to_double_unit mult_le_one)

lemma unit_max: "unit_float x \<Longrightarrow> unit_float y \<Longrightarrow> unit_float (float_max x y)"
  by (simp add: float_max_def)

lemma similarity_unit: "unit_float (title_similarity t1 t2)"
proof -
  have "0 \<le> (of_nat (card (A \<inter> B)) / of_nat (card (A \<union> B)) :: rat) \<and>
      (of_nat (card (A \<inter> B)) / of_nat (card (A \<union> B)) :: rat) \<le> 1" if "finite A" "finite B" for A B :: "string set"
  proof -
    have "card (A \<inter> B) \<le> card (A \<union> B)" using that by (intro card_mono) auto
    then show ?thesis by (cases "card (A \<union> B) = 0") (simp_all add: divide_le_eq_1)
  qed
  then show ?thesis by (auto simp: title_similarity_def Let_def intro!: to_double_unit)
qed

lemma score_unit: "unit_float (score_match q qy qk r ry rk)"
  using similarity_unit [of q r]
  by (auto simp: score_match_def year_score_def float_constants intro!: unit_mult split: option.splits)

lemma score_zero:
  "qk \<noteq> rk \<Longrightarrow> score_match q qy qk r ry rk = Fin 0"
  "qy = Some a \<Longrightarrow> ry = Some b \<Longrightarrow> 1 < \<bar>a - b\<bar> \<Longrightarrow> score_match q qy qk r ry rk = Fin 0"
  by (auto simp: score_match_def year_score_def)

lemma float_max_zero [simp]: "float_max (Fin 0) (Fin 0) = Fin 0"
  by (simp add: float_max_def)

lemma confident:
  assumes "unit_float x" "float_at_least x MIN_MATCH_SCORE"
  shows "40 \<le> round_float (float_mult x (Fin 100))" "round_float (float_mult x (Fin 100)) \<le> 100"
proof -
  obtain v where v: "x = Fin v" "v \<le> 1" "3602879701896397 / 9007199254740992 \<le> v"
    using assms by (fastforce simp: unit_float_def float_at_least_def float_constants)
  then have "of_int 40 \<le> v * 100" "v * 100 \<le> of_int 100" by simp_all
  from to_double_between [OF this] obtain w where "to_double (v * 100) = Fin w" "of_int 40 \<le> w" "w \<le> of_int 100" by auto
  with v(1) round_half_even_bounds(1) [of 40 w] round_half_even_bounds(2) [of w 100]
  show "40 \<le> round_float (float_mult x (Fin 100))" "round_float (float_mult x (Fin 100)) \<le> 100"
    by (simp_all add: round_float_def)
qed

lemma not_at_least_zero: "\<not> float_at_least (Fin 0) MIN_MATCH_SCORE"
  by (simp add: float_at_least_def float_constants)

lemma score_result_plausible:
  assumes "score_result other parsed query year kind raw = Some (score, i)"
  shows "md_media_type i = kind \<and> md_title i \<noteq> [] \<and> md_tmdb_id i \<noteq> None \<and> md_status i = Resolved \<and>
    (\<forall>q r. year = Some q \<longrightarrow> md_year i = Some r \<longrightarrow> \<bar>q - r\<bar> \<le> 1) \<and>
    (\<exists>c. md_confidence i = Some c \<and> 40 \<le> c \<and> c \<le> 100)"
proof -
  obtain m t where mt: "known_media_type raw = Some m" "result_title raw m = Some t"
    using assms by (auto simp: score_result_def split: option.splits if_splits)
  define sc where "sc = (if query \<noteq> parsed
      then float_max (score_match parsed year kind t (result_year raw m) m) (score_match query year kind t (result_year raw m) m)
      else score_match parsed year kind t (result_year raw m) m)"
  have i: "float_at_least sc MIN_MATCH_SCORE"
    "i = (media_identity_of (Some (str_of_json other (jget raw ''id''))) t (result_year raw m) m)
      \<lparr>md_poster_path := poster_path_of raw, md_confidence := Some (round_float (float_mult sc (Fin 100)))\<rparr>"
    using assms mt by (auto simp: score_result_def Let_def sc_def split: if_splits)
  have "unit_float sc" by (simp add: sc_def score_unit unit_max)
  moreover have "kind = m"
  proof (rule ccontr)
    assume "kind \<noteq> m"
    then have "sc = Fin 0" by (simp add: sc_def score_zero(1))
    then show False using i(1) not_at_least_zero by simp
  qed
  moreover have "\<bar>q - r\<bar> \<le> 1" if "year = Some q" "result_year raw m = Some r" for q r
    using i(1) not_at_least_zero score_zero(2) [OF that] by (cases "1 < \<bar>q - r\<bar>") (auto simp: sc_def split: if_splits)
  moreover have "t \<noteq> []" using mt(2) by (auto simp: result_title_def split: option.splits if_splits)
  ultimately show ?thesis using i confident [of sc] by (auto simp: media_identity_of_def)
qed

text \<open>C18. A scored match is plausible: every candidate the search keeps has the kind that was asked for, a
  title and a TMDB id; its year is at most one off the release's when both are known; and its confidence
  is a percentage of at least 40, whatever binary64 rounding does to the score.\<close>

theorem scored_candidates_plausible:
  assumes "(score, i) \<in> set (score_results other raws parsed query year kind)"
  shows "md_media_type i = kind \<and> md_title i \<noteq> [] \<and> md_tmdb_id i \<noteq> None \<and>
    (\<forall>q r. year = Some q \<longrightarrow> md_year i = Some r \<longrightarrow> \<bar>q - r\<bar> \<le> 1) \<and>
    (\<exists>c. md_confidence i = Some c \<and> 40 \<le> c \<and> c \<le> 100)"
proof -
  obtain raw where "score_result other parsed query year kind raw = Some (score, i)"
    using assms by (auto simp: score_results_def List.map_filter_def)
  from score_result_plausible [OF this] show ?thesis by blast
qed

section \<open>What the resolver answers\<close>

definition sound_identity :: "string \<Rightarrow> int option \<Rightarrow> string \<Rightarrow> media_identity \<Rightarrow> bool" where
  "sound_identity parsed_title year kind i \<longleftrightarrow>
     (if md_status i = Resolved then md_tmdb_id i \<noteq> None \<and> md_media_type i = kind \<and> md_title i \<noteq> []
      else i = unresolved parsed_title year kind (md_status i))"

lemma sound_unresolved [simp]: "status \<noteq> Resolved \<Longrightarrow> sound_identity t y k (unresolved t y k status)"
  by (simp add: sound_identity_def unresolved_def)

lemma result_identity_fields:
  "result_identity other raw = Some i \<Longrightarrow>
     md_tmdb_id i \<noteq> None \<and> md_title i \<noteq> [] \<and> md_status i = Resolved \<and> JStr (md_media_type i) = jget raw ''media_type''"
  by (auto simp: result_identity_def known_media_type_def result_title_def media_identity_of_def split: option.splits if_splits)

lemma unique_sound:
  assumes "unique_same_year_identity other raws kind year = Some i"
  shows "sound_identity t y kind i"
proof -
  obtain z where "filter (\<lambda>i. md_media_type i = kind \<and> md_year i = Some z) (List.map_filter (result_identity other) raws) = [i]"
    using assms by (auto simp: unique_same_year_identity_def split: option.splits list.splits)
  then have "i \<in> set (filter (\<lambda>i. md_media_type i = kind \<and> md_year i = Some z) (List.map_filter (result_identity other) raws))"
    by simp
  then obtain raw where "result_identity other raw = Some i" "md_media_type i = kind"
    by (auto simp: List.map_filter_def)
  with result_identity_fields [of other raw i] show ?thesis by (simp add: sound_identity_def)
qed

lemma best_candidate_in: "best_candidate b cs \<in> insert b (set cs)"
  by (induction b cs rule: best_candidate.induct) auto

text \<open>No service error is the end of the model's fuel.\<close>

definition transport_ok :: "'w metadata_env \<Rightarrow> bool" where
  "transport_ok env \<longleftrightarrow> (\<forall>b e h ps w. case fst (me_get env b e h ps w) of
     Inl x \<Rightarrow> x \<noteq> OutOfFuel | Inr r \<Rightarrow> rs_json r \<noteq> Inl OutOfFuel)"

lemma ensures_in_metadata: "ensures P Q m \<Longrightarrow> ensures P Q (in_metadata m)"
  unfolding ensures_def in_metadata_def by (simp add: case_prod_unfold)

lemma ensures_on_db: "ensures P Q m \<Longrightarrow> ensures P Q (on_db m)"
  unfolding ensures_def on_db_def by (simp add: case_prod_unfold)

lemma ensures_on_world: "(\<And>w. case fst (f w) of Inl e \<Rightarrow> P e | Inr a \<Rightarrow> Q a) \<Longrightarrow> ensures P Q (on_world f)"
  unfolding ensures_def on_world_def by (simp add: case_prod_unfold)

lemma any_exception_simps [simp]:
  "any_exception (TmdbClientError m)" "any_exception (RuntimeError m)" "any_exception (ValueError m)"
  by (simp_all add: any_exception_def)

lemma scalar_raises: "scalar_one_or_none rs = Inl e \<Longrightarrow> any_exception e"
  by (cases rs rule: scalar_one_or_none.cases) auto

lemma ensures_scalar: "ensures any_exception (\<lambda>_. True) (\<lambda>d. (scalar_one_or_none (f d), d))"
  unfolding ensures_def by (auto split: sum.split dest: scalar_raises)

lemma ensures_get_fresh: "ensures any_exception (\<lambda>_. True) (tmdb_get_fresh k t)"
  unfolding ensures_def tmdb_get_fresh_def
  by (auto simp: bind_res_def split: sum.splits option.splits if_splits dest: scalar_raises)

lemma ensures_cached: "ensures any_exception (\<lambda>_. True) (tmdb_cached env endpoint ps)"
  unfolding tmdb_cached_def clock_now_def
  by (rule ensures_bind [where R = "\<lambda>_. True"]) (auto intro: ensures_on_db ensures_get_fresh simp: ensures_def [of _ _ "eff_get _"])

lemma ensures_store: "ensures any_exception (\<lambda>_. True) (tmdb_store w)"
proof -
  have "ensures any_exception (\<lambda>_. True) fresh_id" by (simp add: ensures_def fresh_id_def)
  then show ?thesis
    unfolding tmdb_store_def
    by (rule_tac ensures_bind [OF ensures_scalar]) (auto split: option.split intro!: ensures_bind [where R = "\<lambda>_. True"])
qed

lemma ensures_safe_get:
  assumes "transport_ok env"
  shows "ensures any_exception (\<lambda>r. rs_json r \<noteq> Inl OutOfFuel) (tmdb_safe_get env c endpoint headers ps)"
proof -
  have "case fst (me_get env b e h q w) of Inl x \<Rightarrow> any_exception x | Inr r \<Rightarrow> rs_json r \<noteq> Inl OutOfFuel" for b e h q w
    using assms unfolding transport_ok_def any_exception_def by (metis (mono_tags, lifting) sum.case_eq_if)
  then have "ensures any_exception (\<lambda>r. rs_json r \<noteq> Inl OutOfFuel) (on_world (me_get env (tm_base_url c) endpoint headers ps))"
    by (rule ensures_on_world)
  then show ?thesis unfolding tmdb_safe_get_def by (rule ensures_catch) auto
qed

lemma ensures_payload:
  "rs_json r \<noteq> Inl OutOfFuel \<Longrightarrow> case tmdb_payload r of Inl e \<Rightarrow> any_exception e | Inr a \<Rightarrow> True"
  by (auto simp: tmdb_payload_def any_exception_def split: sum.splits exn.splits option.splits)

lemma ensures_get_json:
  assumes "transport_ok (rv_metadata env)"
  shows "ensures any_exception (\<lambda>_. True) (service_get_json env c endpoint ps)"
proof -
  note get = ensures_safe_get [OF assms]
  have "ensures any_exception (\<lambda>_. True) (tmdb_get_json (rv_metadata env) c endpoint ps)"
    unfolding tmdb_get_json_def
    by (rule ensures_bind [where R = "\<lambda>r. rs_json r \<noteq> Inl OutOfFuel"], simp add: get,
        rule ensures_bind [where R = "\<lambda>r. rs_json r \<noteq> Inl OutOfFuel"], auto simp: get ensures_payload)
  then show ?thesis
    unfolding service_get_json_def tmdb_service_get_json_def clock_now_def
    by (intro ensures_in_metadata)
      (auto split: option.split intro!: ensures_bind [where R = "\<lambda>_. True"] ensures_then [where R = "\<lambda>_. True"]
        ensures_cached ensures_on_db ensures_store)
qed

lemma ensures_search_payload:
  assumes "transport_ok (rv_metadata env)"
  shows "ensures any_exception (\<lambda>_. True) (search_payload env c query)"
  unfolding search_payload_def tmdb_get_cached_json_def Let_def
  by (rule ensures_bind [where R = "\<lambda>_. True"])
    (auto split: option.split intro!: ensures_in_metadata ensures_bind [where R = "\<lambda>_. True", OF ensures_cached]
      ensures_then [where R = "\<lambda>_. True"] ensures_on_world ensures_get_json [OF assms])

lemma ensures_alternate:
  assumes "transport_ok (rv_metadata env)" "\<And>raw. raw \<in> set raws \<Longrightarrow> jget raw ''media_type'' = JStr kind"
  shows "ensures any_exception (\<lambda>r. \<forall>i. r = Some i \<longrightarrow> sound_identity t y kind i) (first_alternate env c parsed kind raws)"
  using assms(2)
proof (induction raws)
  case (Cons raw raws)
  have caught: "ensures any_exception (\<lambda>_. True) (eff_catch any_exception
      (eff_bind (service_get_json env c endpoint []) (\<lambda>p. eff_return (Some p))) (\<lambda>_. eff_return None))" for endpoint
    by (rule ensures_catch [where P = any_exception]) (auto intro!: ensures_bind [where R = "\<lambda>_. True"] ensures_get_json [OF assms(1)])
  have sound: "sound_identity t y kind ((media_identity_of (md_tmdb_id i) (md_title i) (md_year i) (md_media_type i))
      \<lparr>md_poster_path := md_poster_path i, md_confidence := Some 90\<rparr>)" if "result_identity (rv_str env) raw = Some i" for i
    using result_identity_fields [OF that] Cons.prems [of raw] by (simp add: sound_identity_def media_identity_of_def)
  show ?case unfolding first_alternate.simps
    by (rule ensures_bind [OF caught]) (auto split: option.split simp: sound intro!: Cons)
qed simp

lemma ensures_queries:
  assumes "transport_ok (rv_metadata env)"
  shows "ensures any_exception (sound_identity t y kind) (try_queries env c t y kind queries)"
proof (induction queries)
  case (Cons query queries)
  have scored: "sound_identity t y kind (snd (best_candidate sc scs))"
    if "score_results other raws t query y kind = sc # scs" for other raws sc scs
  proof -
    have "best_candidate sc scs \<in> set (score_results other raws t query y kind)"
      using best_candidate_in [of sc scs] that by simp
    then obtain raw where raw: "score_result other t query y kind raw = Some (best_candidate sc scs)"
      by (auto simp: score_results_def List.map_filter_def)
    obtain score i where b: "best_candidate sc scs = (score, i)" by fastforce
    from score_result_plausible [OF raw [unfolded b]] b show ?thesis by (simp add: sound_identity_def)
  qed
  have alt: "ensures any_exception (\<lambda>r. \<forall>i. r = Some i \<longrightarrow> sound_identity t y kind i) (alternate_title_identity env c raws t kind)" for raws
    unfolding alternate_title_identity_def by (rule ensures_alternate [OF assms]) (auto dest: in_set_takeD)
  have rest: "ensures any_exception (sound_identity t y kind)
      (eff_bind (alternate_title_identity env c raws t kind)
        (\<lambda>alt. case alt of None \<Rightarrow> try_queries env c t y kind queries | Some i \<Rightarrow> eff_return i))" for raws
    by (rule ensures_bind [OF alt]) (auto split: option.split intro: Cons)
  show ?case unfolding try_queries.simps
  proof (rule ensures_bind [OF ensures_search_payload [OF assms]])
    fix p
    show "ensures any_exception (sound_identity t y kind)
        (case jget p ''results'' of
         JArr (r # rs) \<Rightarrow>
           (let valid_results = List.map_filter jobj (r # rs)
            in case score_results (rv_str env) valid_results t query y kind of
                 sc # scs \<Rightarrow> eff_return (snd (best_candidate sc scs))
               | [] \<Rightarrow> (case unique_same_year_identity (rv_str env) valid_results kind y of
                   Some i \<Rightarrow> eff_return i
                 | None \<Rightarrow> eff_bind (alternate_title_identity env c valid_results t kind) (\<lambda>alt.
                     case alt of Some i \<Rightarrow> eff_return i
                     | None \<Rightarrow> try_queries env c t y kind queries)))
       | _ \<Rightarrow> try_queries env c t y kind queries)"
      using Cons rest by (auto simp: Let_def scored unique_sound split: json.split list.split option.split)
  qed
qed simp

text \<open>Only \<open>resolve\<close> itself changes the memory.\<close>

lemma keeps_in_metadata: "keeps (\<lambda>s. rs_memory s = m) (in_metadata x)"
  by (auto simp: keeps_def in_metadata_def split: prod.split)

lemma alternate_keeps: "keeps (\<lambda>s. rs_memory s = m) (first_alternate env c t kind raws)"
  by (induction raws)
    (auto simp: service_get_json_def intro!: keeps_bind keeps_catch keeps_in_metadata split: option.split)

lemma search_keeps: "keeps (\<lambda>s. rs_memory s = m) (search_payload env c q)"
  by (auto simp: search_payload_def service_get_json_def Let_def
      intro!: keeps_bind keeps_then keeps_in_metadata split: option.split)

lemma title_identity_keeps: "keeps (\<lambda>s. rs_memory s = m) (alternate_title_identity env c raws t kind)"
  unfolding alternate_title_identity_def by (rule alternate_keeps)

lemma queries_keep: "keeps (\<lambda>s. rs_memory s = m) (try_queries env c t y kind queries)"
proof (induction queries)
  case (Cons q qs)
  show ?case unfolding try_queries.simps Let_def
    by (rule keeps_bind [OF search_keeps])
      (simp add: Cons keeps_bind [OF title_identity_keeps] split: json.split list.split option.split)
qed simp

definition memory_sound :: "(identity_key, media_identity) odict \<Rightarrow> bool" where
  "memory_sound m \<longleftrightarrow> (\<forall>t y c i. map_of m (t, y, c) = Some i \<longrightarrow> sound_identity t y (query_kind c) i)"

text \<open>C17. The identity resolver answers whatever TMDB does: for every title it returns an identity, and the
  identity is sound: a resolved one has a TMDB id, a title and the kind that was asked for; any other is the
  fallback made of the release's own title and year. A provider error is not remembered; every other
  answer is given again without a request.\<close>

theorem identity_resolution:
  assumes "transport_ok (rv_metadata env)" "memory_sound (rs_memory s)"
  shows "\<exists>i s'. resolve_identity env title year category s = (return i, s') \<and>
    sound_identity title year (query_kind category) i \<and> memory_sound (rs_memory s') \<and>
    (if md_status i = ProviderError \<and> rs_memory s' = rs_memory s then True
     else rv_client env = None \<or> resolve_identity env title year category s' = (return i, s'))"
proof (cases "map_of (rs_memory s) (title, year, category)")
  case (Some i)
  then show ?thesis using assms(2) by (auto simp: resolve_identity_def memory_sound_def)
next
  case None
  show ?thesis
  proof (cases "rv_client env")
    case no_client: None
    then show ?thesis using None assms(2) by (simp add: resolve_identity_def)
  next
    case (Some c)
    note e = ensures_queries [OF assms(1), of title year "query_kind category" c "extract_search_queries title"]
    obtain r s1 where run: "do_resolve env title year (query_kind category) s = (r, s1)" by fastforce
    then have tried: "try_queries env c title year (query_kind category) (extract_search_queries title) s = (r, s1)"
      using Some by (simp add: do_resolve_def)
    have mem: "rs_memory s1 = rs_memory s" using keepsD [OF queries_keep tried] by simp
    show ?thesis
    proof (cases r)
      case (Inl x)
      then have "any_exception x" using ensuresD_raise [OF e] tried by blast
      moreover have "md_status (unresolved title year (query_kind category) ProviderError) = ProviderError"
        by (simp add: unresolved_def)
      ultimately show ?thesis using None Some run Inl mem assms(2) by (simp add: resolve_identity_def)
    next
      case (Inr i)
      then have "sound_identity title year (query_kind category) i" using ensuresD [OF e] tried by blast
      then show ?thesis using None Some run Inr mem assms(2)
        by (auto simp: resolve_identity_def memory_sound_def update_conv')
    qed
  qed
qed

section \<open>Witnesses\<close>

definition demo_resolver_env :: "time resolver_env" where
  "demo_resolver_env = \<lparr>rv_metadata = demo_metadata_env, rv_client = Some (tmdb_client_init ''k'' ''u''), rv_delay = 1 / 4,
     rv_sleep = (\<lambda>d w. w + d), rv_str = (\<lambda>_. [])\<rparr>"

definition demo_resolver_state :: "time resolver_state" where
  "demo_resolver_state = \<lparr>rs_metadata = demo_metadata_state, rs_memory = []\<rparr>"

lemma demo_transport: "transport_ok (rv_metadata demo_resolver_env)"
  by (simp add: transport_ok_def demo_resolver_env_def demo_metadata_env_def)

theorem identity_resolution_witness:
  "\<exists>i s'. resolve_identity demo_resolver_env ''Dune'' (Some 2021) ''movies'' demo_resolver_state = (return i, s') \<and>
     sound_identity ''Dune'' (Some 2021) ''movie'' i"
  using identity_resolution [OF demo_transport, of demo_resolver_state "''Dune''" "Some 2021" "''movies''"]
  by (auto simp: demo_resolver_state_def memory_sound_def query_kind_def)

definition demo_result :: payload where
  "demo_result = [(''id'', JInt 438631), (''media_type'', JStr ''movie''), (''title'', JStr ''Dune''),
     (''release_date'', JStr ''2021-09-15'')]"

lemma to_double_one: "to_double 1 = Fin 1"
  by code_simp

theorem scored_candidates_plausible_witness:
  "\<exists>score i. score_results (\<lambda>_. []) [demo_result] ''Dune'' ''Dune'' (Some 2021) ''movie'' = [(score, i)] \<and>
     (\<exists>c. md_confidence i = Some c \<and> 40 \<le> c \<and> c \<le> 100)"
proof -
  have "parse_year (JStr ''2021-09-15'') = Some 2021" by code_simp
  then have one: "\<exists>score i. score_results (\<lambda>_. []) [demo_result] ''Dune'' ''Dune'' (Some 2021) ''movie'' = [(score, i)]"
    by (simp add: score_results_def List.map_filter_def score_result_def demo_result_def jget_def known_media_type_def
        result_title_def json_or_def result_year_def score_match_def year_score_def title_similarity_def to_double_one
        float_at_least_def float_constants)
  then obtain score i where one: "score_results (\<lambda>_. []) [demo_result] ''Dune'' ''Dune'' (Some 2021) ''movie'' = [(score, i)]"
    by blast
  from scored_candidates_plausible [of score i "\<lambda>_. []" "[demo_result]" "''Dune''" "''Dune''" "Some 2021" "''movie''"] one
  show ?thesis by simp
qed

end
