(* ===== verification/IdentityRepo.thy ===== *)
theory IdentityRepo
  imports Tables
begin

text \<open>
  The media identity repository (api/app/db/repositories/media_identity.py): which title a media item
  is, which downloads belong to it and under which names it is known. A mapped object is named by its
  primary key, its attributes are those of its row. The advisory locks that keep concurrent sessions
  apart change no row and are left out; a foreign key with \<open>ON DELETE CASCADE\<close> is written out.
\<close>

section \<open>Rows of other tables\<close>

record persisted_identity =
  pi_media_item_id :: int
  pi_content_kind :: string
  pi_title :: string
  pi_year :: "int option"
  pi_tmdb_id :: "string option"
  pi_provider_media_kind :: "string option"
  pi_authority :: string
  pi_authoritative :: bool
  pi_confidence :: "int option"
  pi_resolver_version :: "string option"
  pi_library_category :: "string option"
  pi_poster_path :: "string option"

record source_identity_binding =
  sib_source_kind :: string
  sib_source_item_id :: "string option"
  sib_info_hash :: "string option"
  sib_identity :: persisted_identity

record alias_identity_binding =
  aib_normalized_alias :: string
  aib_identity :: persisted_identity

record media_identity_write =
  mw_content_kind :: content_kind
  mw_library_category :: library_category
  mw_title :: string
  mw_year :: "int option"
  mw_tmdb_id :: "string option"
  mw_provider_media_kind :: provider_kind
  mw_authority :: identity_authority
  mw_confidence :: "int option"
  mw_resolver_version :: "string option"
  mw_poster_path :: "string option"

record source_binding_write =
  bw_source_kind :: string
  bw_source_item_id :: "string option"
  bw_info_hash :: "string option"
  bw_source_title :: string
  bw_authority :: identity_authority
  bw_confidence :: "int option"
  bw_resolver_version :: "string option"

definition persisted_identity_of :: "media_item \<Rightarrow> media_external_identity option \<Rightarrow> source_binding option \<Rightarrow> persisted_identity" where
  "persisted_identity_of m x b =
     \<lparr>pi_media_item_id = mi_id m, pi_content_kind = mi_content_kind m, pi_title = mi_title m, pi_year = mi_year m,
      pi_tmdb_id = map_option mxi_external_id x, pi_provider_media_kind = map_option mxi_provider_media_kind x,
      pi_authority = (case b of Some b \<Rightarrow> sb_authority b
        | None \<Rightarrow> (case x of Some x \<Rightarrow> mxi_authority x | None \<Rightarrow> authority_str Fallback)),
      pi_authoritative = (case b of Some b \<Rightarrow> sb_authoritative b
        | None \<Rightarrow> (case x of Some x \<Rightarrow> mxi_authoritative x | None \<Rightarrow> False)),
      pi_confidence = (case b of Some b \<Rightarrow> sb_confidence b
        | None \<Rightarrow> (case x of Some x \<Rightarrow> mxi_confidence x | None \<Rightarrow> None)),
      pi_resolver_version = (case b of Some b \<Rightarrow> sb_resolver_version b
        | None \<Rightarrow> (case x of Some x \<Rightarrow> mxi_resolver_version x | None \<Rightarrow> None)),
      pi_library_category = Some (mi_library_category m), pi_poster_path = mi_poster_path m\<rparr>"

text \<open>The join of a row with its media item and the outer join with the item's TMDB identity.\<close>

definition with_identity :: "db \<Rightarrow> int \<Rightarrow> (media_item \<times> media_external_identity option) list" where
  "with_identity d i = concat (map (\<lambda>m.
     case filter (\<lambda>x. mxi_media_item_id x = mi_id m \<and> mxi_provider x = ''tmdb'') (db_external_identities d) of
       [] \<Rightarrow> [(m, None)] | xs \<Rightarrow> map (\<lambda>x. (m, Some x)) xs)
     (filter (\<lambda>m. mi_id m = i) (db_media_items d)))"

definition source_bindings :: "source_identity_binding list dbm" where
  "source_bindings = eff_get (\<lambda>d. concat (map (\<lambda>b. map (\<lambda>(m, x).
     \<lparr>sib_source_kind = sb_source_kind b, sib_source_item_id = sb_source_item_id b, sib_info_hash = sb_info_hash b,
      sib_identity = persisted_identity_of m x (Some b)\<rparr>) (with_identity d (sb_media_item_id b))) (db_source_bindings d)))"

definition alias_bindings :: "alias_identity_binding list dbm" where
  "alias_bindings = eff_get (\<lambda>d. concat (map (\<lambda>a. map (\<lambda>(m, x).
     \<lparr>aib_normalized_alias = ma_normalized_alias a, aib_identity = persisted_identity_of m x None\<rparr>)
       (with_identity d (ma_media_item_id a))) (db_media_aliases d)))"

text \<open>The queries with \<open>limit(1)\<close>.\<close>

definition identity_for_media :: "int \<Rightarrow> string \<Rightarrow> media_external_identity option dbm" where
  "identity_for_media media_item_id provider =
     eff_get (\<lambda>d. find (\<lambda>x. mxi_media_item_id x = media_item_id \<and> mxi_provider x = provider) (db_external_identities d))"

definition tmdb_identity_for_media :: "int \<Rightarrow> media_external_identity option dbm" where
  "tmdb_identity_for_media media_item_id = identity_for_media media_item_id ''tmdb''"

definition external_identity_of :: "string \<Rightarrow> provider_kind \<Rightarrow> string \<Rightarrow> media_external_identity option dbm" where
  "external_identity_of provider kind external_id =
     eff_get (\<lambda>d. find (\<lambda>x. mxi_provider x = provider \<and> mxi_provider_media_kind x = provider_kind_str kind \<and>
       mxi_external_id x = external_id) (db_external_identities d))"

section \<open>Changing rows\<close>

definition change_media :: "int \<Rightarrow> (media_item \<Rightarrow> media_item) \<Rightarrow> unit dbm" where
  "change_media i f = eff_modify (\<lambda>d. d\<lparr>db_media_items := update_where (\<lambda>m. mi_id m = i) f (db_media_items d)\<rparr>)"

definition change_external :: "int \<Rightarrow> (media_external_identity \<Rightarrow> media_external_identity) \<Rightarrow> unit dbm" where
  "change_external i f =
     eff_modify (\<lambda>d. d\<lparr>db_external_identities := update_where (\<lambda>x. mxi_id x = i) f (db_external_identities d)\<rparr>)"

definition change_binding :: "int \<Rightarrow> (source_binding \<Rightarrow> source_binding) \<Rightarrow> unit dbm" where
  "change_binding i f =
     eff_modify (\<lambda>d. d\<lparr>db_source_bindings := update_where (\<lambda>b. sb_id b = i) f (db_source_bindings d)\<rparr>)"

definition delete_binding :: "int \<Rightarrow> unit dbm" where
  "delete_binding i = eff_modify (\<lambda>d. d\<lparr>db_source_bindings := filter (\<lambda>b. sb_id b \<noteq> i) (db_source_bindings d)\<rparr>)"

definition fill_missing_metadata :: "media_identity_write \<Rightarrow> media_item \<Rightarrow> media_item" where
  "fill_missing_metadata w m = m\<lparr>mi_title := (if strip (mi_title m) = [] then mw_title w else mi_title m),
     mi_year := (if mi_year m = None then mw_year w else mi_year m),
     mi_poster_path := (if mi_poster_path m = None then mw_poster_path w else mi_poster_path m)\<rparr>"

definition replace_metadata :: "media_identity_write \<Rightarrow> media_item \<Rightarrow> media_item" where
  "replace_metadata w m = m\<lparr>mi_title := mw_title w, mi_year := mw_year w,
     mi_poster_path := (case mw_poster_path w of Some (c # p) \<Rightarrow> Some (c # p) | _ \<Rightarrow> mi_poster_path m)\<rparr>"

definition apply_stronger_identity :: "media_external_identity \<Rightarrow> media_identity_write \<Rightarrow> unit dbm" where
  "apply_stronger_identity x w =
     eff_bind (eff_lift (parse_authority (mxi_authority x))) (\<lambda>current_authority.
       if mxi_authoritative x then change_media (mxi_media_item_id x) (fill_missing_metadata w)
       else if authoritative (mw_authority w)
       then eff_then (change_media (mxi_media_item_id x) (replace_metadata w))
         (change_external (mxi_id x) (\<lambda>x. x\<lparr>mxi_authority := authority_str (mw_authority w), mxi_authoritative := True,
            mxi_confidence := mw_confidence w, mxi_resolver_version := mw_resolver_version w\<rparr>))
       else eff_then (change_media (mxi_media_item_id x) (fill_missing_metadata w))
         (if identity_authority_priority current_authority < identity_authority_priority (mw_authority w)
          then change_external (mxi_id x) (\<lambda>x. x\<lparr>mxi_authority := authority_str (mw_authority w),
            mxi_confidence := mw_confidence w, mxi_resolver_version := mw_resolver_version w\<rparr>)
          else eff_return ()))"

text \<open>\<open>_alias\<close>, of an item with its content kind.\<close>

definition add_alias :: "int \<Rightarrow> string \<Rightarrow> string \<Rightarrow> string \<Rightarrow> unit dbm" where
  "add_alias media_item_id content_kind name source =
     (let normalized = normalize_title_for_identity name
      in if normalized = [] then eff_return ()
         else eff_bind (\<lambda>d. (scalar_one_or_none (filter (\<lambda>a. ma_media_item_id a = media_item_id \<and>
             ma_normalized_alias a = normalized) (db_media_aliases d)), d)) (\<lambda>found.
           if found \<noteq> None then eff_return ()
           else eff_bind fresh_id (\<lambda>i. eff_modify (\<lambda>d. d\<lparr>db_media_aliases := db_media_aliases d @
             [\<lparr>ma_id = i, ma_media_item_id = media_item_id, ma_content_kind = content_kind, ma_alias = name,
               ma_normalized_alias = normalized, ma_source = source\<rparr>]\<rparr>))))"

definition kind_of_media :: "db \<Rightarrow> int \<Rightarrow> string" where
  "kind_of_media d i = (case find (\<lambda>m. mi_id m = i) (db_media_items d) of Some m \<Rightarrow> mi_content_kind m | None \<Rightarrow> [])"

definition alias_for :: "int \<Rightarrow> string \<Rightarrow> string \<Rightarrow> unit dbm" where
  "alias_for media_item_id name source =
     eff_bind (eff_get (\<lambda>d. kind_of_media d media_item_id)) (\<lambda>kind. add_alias media_item_id kind name source)"

section \<open>Ensuring an item\<close>

definition unidentified_media :: "content_kind \<Rightarrow> library_category \<Rightarrow> string \<Rightarrow> int option \<Rightarrow> media_item option dbm" where
  "unidentified_media kind category title year = eff_get (\<lambda>d.
     case filter (\<lambda>m. mi_content_kind m = content_kind_str kind \<and> mi_library_category m = category_str category \<and>
         mi_title m = title \<and> mi_year m = year \<and>
         \<not> list_ex (\<lambda>x. mxi_media_item_id x = mi_id m) (db_external_identities d)) (db_media_items d) of
       [m] \<Rightarrow> Some m | _ \<Rightarrow> None)"

definition new_media :: "media_identity_write \<Rightarrow> int dbm" where
  "new_media w = eff_bind fresh_id (\<lambda>i. eff_then (eff_modify (\<lambda>d. d\<lparr>db_media_items := db_media_items d @
     [\<lparr>mi_id = i, mi_content_kind = content_kind_str (mw_content_kind w), mi_library_category = category_str (mw_library_category w),
       mi_title = mw_title w, mi_year = mw_year w, mi_poster_path = mw_poster_path w\<rparr>]\<rparr>)) (eff_return i))"

definition add_external :: "media_external_identity \<Rightarrow> unit dbm" where
  "add_external x = eff_bind fresh_id (\<lambda>i. eff_modify (\<lambda>d. d\<lparr>db_external_identities :=
     db_external_identities d @ [x\<lparr>mxi_id := i\<rparr>]\<rparr>))"

definition written_external :: "int \<Rightarrow> media_identity_write \<Rightarrow> string \<Rightarrow> media_external_identity" where
  "written_external media_item_id w tmdb_id =
     \<lparr>mxi_id = 0, mxi_media_item_id = media_item_id, mxi_provider = ''tmdb'',
      mxi_provider_media_kind = provider_kind_str (mw_provider_media_kind w), mxi_external_id = tmdb_id,
      mxi_authority = authority_str (mw_authority w), mxi_authoritative = authoritative (mw_authority w),
      mxi_confidence = mw_confidence w, mxi_resolver_version = mw_resolver_version w\<rparr>"

definition written_identity :: "media_identity_write \<Rightarrow> media_external_identity option dbm" where
  "written_identity w = (case mw_tmdb_id w of
     None \<Rightarrow> eff_return None | Some t \<Rightarrow> external_identity_of ''tmdb'' (mw_provider_media_kind w) t)"

text \<open>The value is the item's key.\<close>

definition ensure_media :: "media_identity_write \<Rightarrow> int dbm" where
  "ensure_media w = eff_bind (written_identity w) (\<lambda>found. case found of
     Some x \<Rightarrow> eff_then (apply_stronger_identity x w)
        (eff_then (alias_for (mxi_media_item_id x) (mw_title w) (authority_str (mw_authority w)))
          (eff_return (mxi_media_item_id x)))
   | None \<Rightarrow>
       eff_bind (unidentified_media (mw_content_kind w) (mw_library_category w) (mw_title w) (mw_year w)) (\<lambda>m.
       eff_bind (case m of Some m \<Rightarrow> eff_return (mi_id m) | None \<Rightarrow> new_media w) (\<lambda>i.
       eff_then (case mw_tmdb_id w of None \<Rightarrow> eff_return () | Some t \<Rightarrow> add_external (written_external i w t))
         (eff_then (alias_for i (mw_title w) (authority_str (mw_authority w))) (eff_return i)))))"

section \<open>Binding sources\<close>

text \<open>The rows a binding's key selects.\<close>

definition same_source :: "source_binding_write \<Rightarrow> source_binding \<Rightarrow> bool" where
  "same_source w b \<longleftrightarrow> (case bw_source_item_id w of
     Some i \<Rightarrow> sb_source_kind b = bw_source_kind w \<and> sb_source_item_id b = Some i
   | None \<Rightarrow> sb_info_hash b = bw_info_hash w)"

definition new_binding :: "int \<Rightarrow> source_binding_write \<Rightarrow> unit dbm" where
  "new_binding media_item_id w = eff_bind fresh_id (\<lambda>i. eff_modify (\<lambda>d. d\<lparr>db_source_bindings := db_source_bindings d @
     [\<lparr>sb_id = i, sb_media_item_id = media_item_id, sb_source_kind = bw_source_kind w, sb_source_item_id = bw_source_item_id w,
       sb_info_hash = bw_info_hash w, sb_authority = authority_str (bw_authority w),
       sb_authoritative = authoritative (bw_authority w), sb_confidence = bw_confidence w,
       sb_resolver_version = bw_resolver_version w\<rparr>]\<rparr>))"

definition rewritten_binding :: "int \<Rightarrow> source_binding_write \<Rightarrow> source_binding \<Rightarrow> source_binding" where
  "rewritten_binding media_item_id w b =
     (let b = b\<lparr>sb_media_item_id := media_item_id\<rparr>
      in if authoritative (bw_authority w) \<or> \<not> sb_authoritative b
         then b\<lparr>sb_authority := authority_str (bw_authority w), sb_authoritative := authoritative (bw_authority w),
           sb_confidence := bw_confidence w, sb_resolver_version := bw_resolver_version w\<rparr>
         else b)"

definition bind_source_key :: "int \<Rightarrow> source_binding_write \<Rightarrow> unit dbm" where
  "bind_source_key media_item_id w =
     eff_bind (\<lambda>d. (scalar_one_or_none (filter (same_source w) (db_source_bindings d)), d)) (\<lambda>binding. case binding of
       None \<Rightarrow> new_binding media_item_id w
     | Some b \<Rightarrow>
         if sb_media_item_id b \<noteq> media_item_id \<and> sb_authoritative b \<and> \<not> authoritative (bw_authority w) then eff_return ()
         else if sb_media_item_id b \<noteq> media_item_id \<and> sb_authoritative b \<and> authoritative (bw_authority w)
         then eff_raise (AuthoritativeIdentityConflictError
           ''Source is already bound to a different authoritative media identity.'')
         else change_binding (sb_id b) (rewritten_binding media_item_id w))"

definition bind_sources :: "int \<Rightarrow> source_binding_write \<Rightarrow> unit dbm" where
  "bind_sources media_item_id w =
     (let normalized_hash = normalize_info_hash (bw_info_hash w)
      in eff_then (if bw_source_item_id w \<noteq> None then bind_source_key media_item_id (w\<lparr>bw_info_hash := None\<rparr>) else eff_return ())
        (eff_then (if normalized_hash \<noteq> None
             then bind_source_key media_item_id (w\<lparr>bw_source_item_id := None, bw_info_hash := normalized_hash\<rparr>) else eff_return ())
          (alias_for media_item_id (bw_source_title w) (authority_str (bw_authority w)))))"

section \<open>The manual identity\<close>

definition manual_binding :: "source_binding \<Rightarrow> source_binding" where
  "manual_binding b = b\<lparr>sb_authority := authority_str Manual, sb_authoritative := True, sb_confidence := Some 100,
     sb_resolver_version := None\<rparr>"

definition matching_source_binding :: "int \<Rightarrow> source_binding \<Rightarrow> source_binding option dbm" where
  "matching_source_binding media_item_id candidate = (\<lambda>d. (scalar_one_or_none (filter (\<lambda>b. sb_media_item_id b = media_item_id \<and>
     (if sb_source_item_id candidate \<noteq> None
      then sb_source_kind b = sb_source_kind candidate \<and> sb_source_item_id b = sb_source_item_id candidate
      else sb_info_hash b = sb_info_hash candidate)) (db_source_bindings d)), d))"

definition merge_binding :: "int \<Rightarrow> source_binding \<Rightarrow> unit dbm" where
  "merge_binding target b = eff_bind (matching_source_binding target b) (\<lambda>existing. case existing of
     None \<Rightarrow> change_binding (sb_id b) (\<lambda>b. manual_binding (b\<lparr>sb_media_item_id := target\<rparr>))
   | Some x \<Rightarrow> eff_then (change_binding (sb_id x) manual_binding) (delete_binding (sb_id b)))"

text \<open>Deleting a media item deletes its identities, bindings and aliases.\<close>

definition delete_media :: "(media_item \<Rightarrow> bool) \<Rightarrow> db \<Rightarrow> db" where
  "delete_media P d =
     (let gone = (\<lambda>i. list_ex (\<lambda>m. mi_id m = i \<and> P m) (db_media_items d))
      in d\<lparr>db_media_items := filter (\<lambda>m. \<not> P m) (db_media_items d),
        db_external_identities := filter (\<lambda>x. \<not> gone (mxi_media_item_id x)) (db_external_identities d),
        db_source_bindings := filter (\<lambda>b. \<not> gone (sb_media_item_id b)) (db_source_bindings d),
        db_media_aliases := filter (\<lambda>a. \<not> gone (ma_media_item_id a)) (db_media_aliases d)\<rparr>)"

definition merge_media_items :: "int \<Rightarrow> int \<Rightarrow> unit dbm" where
  "merge_media_items target duplicate =
     eff_then (eff_modify (\<lambda>d. d\<lparr>db_library_entries :=
         update_where (\<lambda>e. ler_media_item_id e = duplicate) (\<lambda>e. e\<lparr>ler_media_item_id := target\<rparr>) (db_library_entries d)\<rparr>))
     (eff_bind (eff_get (\<lambda>d. filter (\<lambda>b. sb_media_item_id b = duplicate) (db_source_bindings d))) (\<lambda>duplicate_bindings.
      eff_then (eff_for duplicate_bindings (merge_binding target))
     (eff_bind (eff_get (\<lambda>d. filter (\<lambda>a. ma_media_item_id a = duplicate) (db_media_aliases d))) (\<lambda>duplicate_aliases.
      eff_then (eff_for duplicate_aliases (\<lambda>a. alias_for target (ma_alias a) (ma_source a)))
        (eff_modify (delete_media (\<lambda>m. mi_id m = duplicate)))))))"

definition manual_external :: "int \<Rightarrow> provider_kind \<Rightarrow> string \<Rightarrow> media_external_identity" where
  "manual_external media_item_id kind tmdb_id =
     \<lparr>mxi_id = 0, mxi_media_item_id = media_item_id, mxi_provider = ''tmdb'', mxi_provider_media_kind = provider_kind_str kind,
      mxi_external_id = tmdb_id, mxi_authority = authority_str Manual, mxi_authoritative = True,
      mxi_confidence = Some 100, mxi_resolver_version = None\<rparr>"

definition write_manual_identity :: "int \<Rightarrow> provider_kind \<Rightarrow> string \<Rightarrow> unit dbm" where
  "write_manual_identity i kind tmdb_id =
     eff_bind (identity_for_media i ''tmdb'') (\<lambda>current. case current of
       None \<Rightarrow> add_external (manual_external i kind tmdb_id)
     | Some x \<Rightarrow>
         eff_then (if mxi_external_id x \<noteq> tmdb_id then change_media i (\<lambda>m. m\<lparr>mi_poster_path := None\<rparr>) else eff_return ())
           (change_external (mxi_id x) (\<lambda>x. (manual_external i kind tmdb_id)\<lparr>mxi_id := mxi_id x,
              mxi_media_item_id := mxi_media_item_id x, mxi_provider := mxi_provider x\<rparr>)))"

definition set_manual_tmdb_identity :: "media_item \<Rightarrow> string \<Rightarrow> int dbm" where
  "set_manual_tmdb_identity m tmdb_id =
     eff_bind (eff_lift (provider_kind_for_content (mi_content_kind m))) (\<lambda>kind.
     eff_bind (external_identity_of ''tmdb'' kind tmdb_id) (\<lambda>owner.
     eff_bind (case owner of
         Some x \<Rightarrow> if mxi_media_item_id x \<noteq> mi_id m
           then eff_then (merge_media_items (mxi_media_item_id x) (mi_id m)) (eff_return (mxi_media_item_id x))
           else eff_return (mi_id m)
       | None \<Rightarrow> eff_return (mi_id m)) (\<lambda>i.
     eff_then (write_manual_identity i kind tmdb_id)
       (eff_then (eff_modify (\<lambda>d. d\<lparr>db_source_bindings :=
           update_where (\<lambda>b. sb_media_item_id b = i) manual_binding (db_source_bindings d)\<rparr>)) (eff_return i)))))"

definition orphaned :: "db \<Rightarrow> media_item \<Rightarrow> bool" where
  "orphaned d m \<longleftrightarrow> \<not> list_ex (\<lambda>e. ler_media_item_id e = mi_id m) (db_library_entries d) \<and>
     \<not> list_ex (\<lambda>b. sb_media_item_id b = mi_id m) (db_source_bindings d)"

definition delete_orphaned_media :: "nat dbm" where
  "delete_orphaned_media = (\<lambda>d. (return (length (filter (orphaned d) (db_media_items d))), delete_media (orphaned d) d))"

section \<open>The constraints of the tables\<close>

text \<open>The primary keys, the unique constraints and the foreign keys of api/app/db/models.py.\<close>

definition media_ok :: "db \<Rightarrow> bool" where
  "media_ok d \<longleftrightarrow> distinct (map mi_id (db_media_items d)) \<and> (\<forall>m \<in> set (db_media_items d). mi_id m < db_seq d)"

definition media_exists :: "db \<Rightarrow> int \<Rightarrow> bool" where
  "media_exists d i \<longleftrightarrow> i \<in> mi_id ` set (db_media_items d)"

definition external_key :: "media_external_identity \<Rightarrow> string \<times> string \<times> string" where
  "external_key x = (mxi_provider x, mxi_provider_media_kind x, mxi_external_id x)"

definition external_owner :: "media_external_identity \<Rightarrow> int \<times> string" where
  "external_owner x = (mxi_media_item_id x, mxi_provider x)"

definition externals_ok :: "db \<Rightarrow> bool" where
  "externals_ok d \<longleftrightarrow> distinct (map mxi_id (db_external_identities d)) \<and>
     distinct (map external_key (db_external_identities d)) \<and> distinct (map external_owner (db_external_identities d)) \<and>
     (\<forall>x \<in> set (db_external_identities d). mxi_id x < db_seq d \<and> media_exists d (mxi_media_item_id x) \<and>
        (\<exists>a. mxi_authority x = authority_str a))"

definition same_key :: "source_binding \<Rightarrow> source_binding \<Rightarrow> bool" where
  "same_key b c \<longleftrightarrow> (sb_source_item_id b \<noteq> None \<and> sb_source_kind b = sb_source_kind c \<and> sb_source_item_id b = sb_source_item_id c) \<or>
     (sb_info_hash b \<noteq> None \<and> sb_info_hash b = sb_info_hash c)"

definition bindings_ok :: "db \<Rightarrow> bool" where
  "bindings_ok d \<longleftrightarrow> distinct (map sb_id (db_source_bindings d)) \<and>
     (\<forall>b \<in> set (db_source_bindings d). \<forall>c \<in> set (db_source_bindings d). same_key b c \<longrightarrow> sb_id b = sb_id c) \<and>
     (\<forall>b \<in> set (db_source_bindings d). sb_id b < db_seq d \<and> media_exists d (sb_media_item_id b) \<and>
        (sb_source_item_id b = None) \<noteq> (sb_info_hash b = None))"

definition alias_key :: "media_alias \<Rightarrow> int \<times> string" where
  "alias_key a = (ma_media_item_id a, ma_normalized_alias a)"

definition aliases_ok :: "db \<Rightarrow> bool" where
  "aliases_ok d \<longleftrightarrow> distinct (map alias_key (db_media_aliases d)) \<and>
     (\<forall>a \<in> set (db_media_aliases d). media_exists d (ma_media_item_id a))"

definition identity_wf :: "db \<Rightarrow> bool" where
  "identity_wf d \<longleftrightarrow> media_ok d \<and> externals_ok d \<and> bindings_ok d \<and> aliases_ok d"

lemmas ok_defs = media_ok_def externals_ok_def bindings_ok_def aliases_ok_def media_exists_def

lemma update_where_in: "r \<in> set (update_where P f rs) \<longleftrightarrow> (\<exists>q \<in> set rs. r = (if P q then f q else q))"
  by (auto simp: update_where_def)

lemma update_where_keys: "(\<And>r. P r \<Longrightarrow> key (f r) = key r) \<Longrightarrow> map key (update_where P f rs) = map key rs"
  by (simp add: update_where_def)

lemma update_where_image: "(\<And>r. P r \<Longrightarrow> key (f r) = key r) \<Longrightarrow> key ` set (update_where P f rs) = key ` set rs"
  using update_where_keys [of P key f rs] by (metis list.set_map)

text \<open>Changes of other columns.\<close>

lemma wf_change_media:
  assumes "identity_wf d" "\<And>m. mi_id (f m) = mi_id m"
  shows "identity_wf (d\<lparr>db_media_items := update_where P f (db_media_items d)\<rparr>)"
proof -
  have ids: "mi_id ` set (update_where P f (db_media_items d)) = mi_id ` set (db_media_items d)"
    by (rule update_where_image) (rule assms(2))
  have all: "\<forall>m \<in> set (update_where P f (db_media_items d)). mi_id m < db_seq d"
    using assms by (auto simp: identity_wf_def media_ok_def update_where_in)
  show ?thesis
    using assms ids all by (simp add: identity_wf_def ok_defs update_where_keys [of P mi_id f])
qed

lemma wf_change_external:
  assumes "identity_wf d" "\<And>x. mxi_id (f x) = mxi_id x \<and> external_key (f x) = external_key x \<and> external_owner (f x) = external_owner x"
    and "\<And>x. \<exists>a. mxi_authority (f x) = authority_str a"
  shows "identity_wf (d\<lparr>db_external_identities := update_where P f (db_external_identities d)\<rparr>)"
proof -
  have "mxi_media_item_id (f x) = mxi_media_item_id x" for x using assms(2) [of x] by (simp add: external_owner_def)
  then have "\<forall>x \<in> set (update_where P f (db_external_identities d)). mxi_id x < db_seq d \<and> mxi_media_item_id x \<in> mi_id ` set (db_media_items d) \<and>
        (\<exists>a. mxi_authority x = authority_str a)"
    using assms by (auto simp: identity_wf_def ok_defs update_where_in)
  then show ?thesis
    using assms(1,2) by (simp add: identity_wf_def ok_defs update_where_keys)
qed

lemma wf_change_bindings:
  assumes "identity_wf d"
    and "\<And>b. P b \<Longrightarrow> sb_id (f b) = sb_id b \<and> sb_source_kind (f b) = sb_source_kind b \<and> sb_source_item_id (f b) = sb_source_item_id b \<and>
      sb_info_hash (f b) = sb_info_hash b \<and> (sb_media_item_id (f b) = sb_media_item_id b \<or> media_exists d (sb_media_item_id (f b)))"
  shows "identity_wf (d\<lparr>db_source_bindings := update_where P f (db_source_bindings d)\<rparr>)"
proof -
  let ?u = "update_where P f (db_source_bindings d)"
  have "same_key (if P b then f b else b) (if P c then f c else c) = same_key b c" for b c
    using assms(2) [of b] assms(2) [of c] by (simp add: same_key_def)
  then have "\<forall>b \<in> set ?u. \<forall>c \<in> set ?u. same_key b c \<longrightarrow> sb_id b = sb_id c"
    using assms by (auto simp: identity_wf_def bindings_ok_def update_where_in)
  moreover have "\<forall>b \<in> set ?u. sb_id b < db_seq d \<and> media_exists d (sb_media_item_id b) \<and>
      (sb_source_item_id b = None) \<noteq> (sb_info_hash b = None)"
    using assms by (fastforce simp: identity_wf_def bindings_ok_def update_where_in split: if_splits)
  ultimately show ?thesis
    using assms by (simp add: identity_wf_def ok_defs update_where_keys)
qed

lemma keeps_alias: "media_exists d i \<Longrightarrow> identity_wf d \<Longrightarrow> identity_wf (snd (alias_for i name source d))"
proof -
  assume i: "media_exists d i" and wf: "identity_wf d"
  let ?n = "normalize_title_for_identity name"
  let ?old = "filter (\<lambda>a. ma_media_item_id a = i \<and> ma_normalized_alias a = ?n) (db_media_aliases d)"
  show "identity_wf (snd (alias_for i name source d))"
  proof (cases "?n = [] \<or> ?old \<noteq> []")
    case True
    then have "snd (alias_for i name source d) = d"
      by (cases ?old rule: scalar_one_or_none.cases) (auto simp: alias_for_def add_alias_def Let_def eff_bind_def)
    then show ?thesis using wf by simp
  next
    case False
    then have "(i, ?n) \<notin> alias_key ` set (db_media_aliases d)" by (auto simp: alias_key_def filter_empty_conv)
    then show ?thesis
      using False i wf by (auto simp: alias_for_def add_alias_def Let_def eff_bind_def fresh_id_def identity_wf_def ok_defs alias_key_def)
  qed
qed

text \<open>What an alias changes.\<close>

lemma alias_run:
  assumes "identity_wf d"
  shows "\<exists>as n. alias_for i name source d = (return (), d\<lparr>db_seq := n, db_media_aliases := as\<rparr>) \<and> db_seq d \<le> n"
proof -
  let ?n = "normalize_title_for_identity name"
  let ?old = "filter (\<lambda>a. ma_media_item_id a = i \<and> ma_normalized_alias a = ?n) (db_media_aliases d)"
  have "length ?old \<le> 1"
  proof -
    have "distinct (map alias_key ?old)" using assms by (simp add: identity_wf_def aliases_ok_def distinct_map_filter)
    moreover have "\<forall>a \<in> set ?old. alias_key a = (i, ?n)" by (simp add: alias_key_def)
    ultimately show ?thesis by (cases ?old rule: scalar_one_or_none.cases) auto
  qed
  then consider "?old = []" | a where "?old = [a]" by (cases ?old rule: scalar_one_or_none.cases) auto
  then show ?thesis
  proof cases
    case 1
    show ?thesis
    proof (cases "?n = []")
      case True
      then have "alias_for i name source d = (return (), d)" by (simp add: alias_for_def add_alias_def)
      then show ?thesis by (auto intro!: exI [of _ "db_media_aliases d"] exI [of _ "db_seq d"])
    next
      case False
      then show ?thesis
        by (simp add: 1 alias_for_def add_alias_def Let_def eff_bind_def fresh_id_def) (intro exI conjI, rule refl, simp)
    qed
  next
    case 2
    then have "alias_for i name source d = (return (), d)"
      by (simp add: alias_for_def add_alias_def Let_def eff_bind_def)
    then show ?thesis by (auto intro!: exI [of _ "db_media_aliases d"] exI [of _ "db_seq d"])
  qed
qed

lemma alias_then: "identity_wf d \<Longrightarrow> eff_then (alias_for i name source) m d = m (snd (alias_for i name source d))"
  using alias_run [of d i name source] by auto

section \<open>Ensuring keeps the constraints\<close>

definition appended_external :: "media_external_identity \<Rightarrow> db \<Rightarrow> db" where
  "appended_external x d = d\<lparr>db_seq := db_seq d + 1, db_external_identities := db_external_identities d @ [x\<lparr>mxi_id := db_seq d\<rparr>]\<rparr>"

lemma add_external_run: "add_external x d = (return (), appended_external x d)"
  by (simp add: add_external_def fresh_id_def eff_bind_def eff_modify_def appended_external_def)

lemma wf_appended_external:
  assumes "identity_wf d" "media_exists d (mxi_media_item_id x)" "\<exists>a. mxi_authority x = authority_str a"
    "external_key x \<notin> external_key ` set (db_external_identities d)" "external_owner x \<notin> external_owner ` set (db_external_identities d)"
  shows "identity_wf (appended_external x d)"
proof -
  have "mxi_id y \<noteq> db_seq d" if "y \<in> set (db_external_identities d)" for y
    using assms(1) that by (auto simp: identity_wf_def externals_ok_def)
  then show ?thesis
    using assms by (auto simp: appended_external_def identity_wf_def ok_defs external_key_def external_owner_def)
qed

definition appended_media :: "media_identity_write \<Rightarrow> db \<Rightarrow> db" where
  "appended_media w d = d\<lparr>db_seq := db_seq d + 1, db_media_items := db_media_items d @
     [\<lparr>mi_id = db_seq d, mi_content_kind = content_kind_str (mw_content_kind w), mi_library_category = category_str (mw_library_category w),
       mi_title = mw_title w, mi_year = mw_year w, mi_poster_path = mw_poster_path w\<rparr>]\<rparr>"

lemma new_media_run: "new_media w d = (return (db_seq d), appended_media w d)"
  by (simp add: new_media_def fresh_id_def eff_bind_def eff_then_def eff_modify_def eff_return_def appended_media_def)

lemma wf_appended_media:
  assumes "identity_wf d"
  shows "identity_wf (appended_media w d)" "media_exists (appended_media w d) (db_seq d)"
    "db_seq d \<notin> mxi_media_item_id ` set (db_external_identities d)"
proof -
  have "mi_id m \<noteq> db_seq d" if "m \<in> set (db_media_items d)" for m
    using assms that by (auto simp: identity_wf_def media_ok_def)
  then show "identity_wf (appended_media w d)" "media_exists (appended_media w d) (db_seq d)"
    using assms by (auto simp: appended_media_def identity_wf_def ok_defs)
  show "db_seq d \<notin> mxi_media_item_id ` set (db_external_identities d)"
  proof
    assume "db_seq d \<in> mxi_media_item_id ` set (db_external_identities d)"
    then have "db_seq d \<in> mi_id ` set (db_media_items d)" using assms by (auto simp: identity_wf_def externals_ok_def media_exists_def)
    then show False using assms by (auto simp: identity_wf_def media_ok_def)
  qed
qed

lemma change_media_run: "change_media i f d = (return (), d\<lparr>db_media_items := update_where (\<lambda>m. mi_id m = i) f (db_media_items d)\<rparr>)"
  by (simp add: change_media_def eff_modify_def)

lemma change_external_run:
  "change_external i f d = (return (), d\<lparr>db_external_identities := update_where (\<lambda>x. mxi_id x = i) f (db_external_identities d)\<rparr>)"
  by (simp add: change_external_def eff_modify_def)

lemma apply_stronger_wf:
  assumes "identity_wf d" "x \<in> set (db_external_identities d)"
  shows "fst (apply_stronger_identity x w d) = return () \<and> identity_wf (snd (apply_stronger_identity x w d)) \<and>
    mi_id ` set (db_media_items (snd (apply_stronger_identity x w d))) = mi_id ` set (db_media_items d)"
proof -
  obtain a where a: "mxi_authority x = authority_str a" using assms by (auto simp: identity_wf_def externals_ok_def)
  have media: "identity_wf (d\<lparr>db_media_items := update_where P (fill_missing_metadata w) (db_media_items d)\<rparr>)"
    "identity_wf (d\<lparr>db_media_items := update_where P (replace_metadata w) (db_media_items d)\<rparr>)" for P
    using assms(1) by (auto intro!: wf_change_media simp: fill_missing_metadata_def replace_metadata_def)
  have ids: "mi_id ` set (update_where P (fill_missing_metadata w) (db_media_items d)) = mi_id ` set (db_media_items d)"
    "mi_id ` set (update_where P (replace_metadata w) (db_media_items d)) = mi_id ` set (db_media_items d)" for P
    by (auto intro!: update_where_image simp: fill_missing_metadata_def replace_metadata_def)
  have ext: "identity_wf (d\<lparr>db_media_items := ms, db_external_identities := update_where P (\<lambda>x. x\<lparr>mxi_authority := authority_str (mw_authority w),
      mxi_authoritative := True, mxi_confidence := mw_confidence w, mxi_resolver_version := mw_resolver_version w\<rparr>) (db_external_identities d)\<rparr>)"
    "identity_wf (d\<lparr>db_media_items := ms, db_external_identities := update_where P (\<lambda>x. x\<lparr>mxi_authority := authority_str (mw_authority w),
      mxi_confidence := mw_confidence w, mxi_resolver_version := mw_resolver_version w\<rparr>) (db_external_identities d)\<rparr>)"
    if "identity_wf (d\<lparr>db_media_items := ms\<rparr>)" for ms P
    using wf_change_external [OF that, of "\<lambda>x. x\<lparr>mxi_authority := authority_str (mw_authority w),
      mxi_authoritative := True, mxi_confidence := mw_confidence w, mxi_resolver_version := mw_resolver_version w\<rparr>" P]
      wf_change_external [OF that, of "\<lambda>x. x\<lparr>mxi_authority := authority_str (mw_authority w),
      mxi_confidence := mw_confidence w, mxi_resolver_version := mw_resolver_version w\<rparr>" P]
    by (auto simp: external_key_def external_owner_def)
  show ?thesis
    using ext(1) [OF media(2)] ext(2) [OF media(1)] ids media
    by (auto simp: apply_stronger_identity_def a eff_bind_def eff_then_def change_media_run change_external_run
        eff_return_def eff_lift_def)
qed

lemma find_in: "find P xs = Some x \<Longrightarrow> x \<in> set xs \<and> P x"
  by (induction xs) (auto split: if_splits)

lemma unidentified_run:
  "\<exists>m. unidentified_media k c t y d = (return m, d) \<and>
     (\<forall>r. m = Some r \<longrightarrow> r \<in> set (db_media_items d) \<and> mi_id r \<notin> mxi_media_item_id ` set (db_external_identities d))"
proof -
  define ms where "ms = filter (\<lambda>m. mi_content_kind m = content_kind_str k \<and> mi_library_category m = category_str c \<and>
         mi_title m = t \<and> mi_year m = y \<and>
         \<not> list_ex (\<lambda>x. mxi_media_item_id x = mi_id m) (db_external_identities d)) (db_media_items d)"
  have run: "unidentified_media k c t y d = (return (case ms of [m] \<Rightarrow> Some m | _ \<Rightarrow> None), d)"
    by (simp add: unidentified_media_def eff_get_def ms_def)
  have "r \<in> set (db_media_items d) \<and> mi_id r \<notin> mxi_media_item_id ` set (db_external_identities d)" if "r \<in> set ms" for r
    using that by (auto simp: list_ex_iff ms_def)
  then have "\<forall>r. (case ms of [m] \<Rightarrow> Some m | _ \<Rightarrow> None) = Some r \<longrightarrow>
      r \<in> set (db_media_items d) \<and> mi_id r \<notin> mxi_media_item_id ` set (db_external_identities d)"
    by (simp split: list.split)
  with run show ?thesis by blast
qed

lemma ensure_media_wf:
  assumes wf: "identity_wf d"
  shows "\<exists>i d'. ensure_media w d = (return i, d') \<and> identity_wf d' \<and> media_exists d' i"
proof -
  obtain found where found: "written_identity w d = (return found, d)"
    by (cases "mw_tmdb_id w") (auto simp: written_identity_def external_identity_of_def eff_get_def eff_return_def)
  show ?thesis
  proof (cases found)
    case (Some x)
    then have x: "x \<in> set (db_external_identities d)"
      using found by (auto simp: written_identity_def external_identity_of_def eff_get_def eff_return_def dest: find_in split: option.splits)
    let ?d = "snd (apply_stronger_identity x w d)"
    have s: "apply_stronger_identity x w d = (return (), ?d)" "identity_wf ?d" "media_exists ?d (mxi_media_item_id x)"
      using apply_stronger_wf [OF wf x, of w] x wf by (auto simp: prod_eq_iff identity_wf_def externals_ok_def media_exists_def)
    obtain as n where al: "alias_for (mxi_media_item_id x) (mw_title w) (authority_str (mw_authority w)) ?d =
        (return (), ?d\<lparr>db_seq := n, db_media_aliases := as\<rparr>)"
      using alias_run [OF s(2)] by blast
    have "ensure_media w d = (return (mxi_media_item_id x), ?d\<lparr>db_seq := n, db_media_aliases := as\<rparr>)"
      using found s(1) al by (simp add: ensure_media_def Some)
    moreover have "identity_wf (?d\<lparr>db_seq := n, db_media_aliases := as\<rparr>)" using keeps_alias [OF s(3,2), of "mw_title w" "authority_str (mw_authority w)"] al by simp
    moreover have "media_exists (?d\<lparr>db_seq := n, db_media_aliases := as\<rparr>) (mxi_media_item_id x)"
      using s(3) by (simp add: media_exists_def)
    ultimately show ?thesis by blast
  next
    case None
    obtain m where m: "unidentified_media (mw_content_kind w) (mw_library_category w) (mw_title w) (mw_year w) d = (return m, d)"
      "\<And>r. m = Some r \<Longrightarrow> r \<in> set (db_media_items d) \<and> mi_id r \<notin> mxi_media_item_id ` set (db_external_identities d)"
      using unidentified_run by blast
    define step where "step = (case m of Some m \<Rightarrow> eff_return (mi_id m) | None \<Rightarrow> new_media w)"
    obtain i d1 where step: "step d = (return i, d1)" "identity_wf d1" "media_exists d1 i"
      "db_external_identities d1 = db_external_identities d" "i \<notin> mxi_media_item_id ` set (db_external_identities d)"
      using m(2) wf_appended_media(1,2) [OF wf, of w] wf_appended_media(3) [OF wf] wf
      by (cases m) (auto simp: step_def new_media_run eff_return_def media_exists_def appended_media_def)
    define add where "add = (case mw_tmdb_id w of None \<Rightarrow> eff_return () | Some t \<Rightarrow> add_external (written_external i w t))"
    have "\<exists>d2. add d1 = (return (), d2) \<and> identity_wf d2 \<and> media_exists d2 i"
    proof (cases "mw_tmdb_id w")
      case None
      then show ?thesis using step by (simp add: add_def eff_return_def)
    next
      case (Some t)
      have "external_key (written_external i w t) \<notin> external_key ` set (db_external_identities d1)"
        using found None Some step(4)
        by (auto simp: written_identity_def external_identity_of_def eff_get_def find_None_iff written_external_def external_key_def)
      moreover have "external_owner (written_external i w t) \<notin> external_owner ` set (db_external_identities d1)"
        using step(4,5) by (auto simp: written_external_def external_owner_def)
      ultimately have "identity_wf (appended_external (written_external i w t) d1)"
        using step(2,3) by (intro wf_appended_external) (auto simp: written_external_def)
      then show ?thesis using Some step(3) by (simp add: add_def add_external_run appended_external_def media_exists_def)
    qed
    then obtain d2 where add: "add d1 = (return (), d2)" "identity_wf d2" "media_exists d2 i" by blast
    obtain as n where al: "alias_for i (mw_title w) (authority_str (mw_authority w)) d2 = (return (), d2\<lparr>db_seq := n, db_media_aliases := as\<rparr>)"
      using alias_run [OF add(2)] by blast
    have "ensure_media w d = (return i, d2\<lparr>db_seq := n, db_media_aliases := as\<rparr>)"
      using found m(1) step(1) add(1) al by (simp add: ensure_media_def None step_def add_def)
    moreover have "identity_wf (d2\<lparr>db_seq := n, db_media_aliases := as\<rparr>)" using keeps_alias [OF add(3,2), of "mw_title w" "authority_str (mw_authority w)"] al by simp
    moreover have "media_exists (d2\<lparr>db_seq := n, db_media_aliases := as\<rparr>) i" using add(3) by (simp add: media_exists_def)
    ultimately show ?thesis by blast
  qed
qed

section \<open>Binding and merging keep the constraints\<close>

lemma wf_new_binding:
  assumes "identity_wf d" "media_exists d (sb_media_item_id b)" "(sb_source_item_id b = None) \<noteq> (sb_info_hash b = None)"
    "\<And>c. c \<in> set (db_source_bindings d) \<Longrightarrow> \<not> same_key b c"
  shows "identity_wf (d\<lparr>db_seq := db_seq d + 1, db_source_bindings := db_source_bindings d @ [b\<lparr>sb_id := db_seq d\<rparr>]\<rparr>)"
proof -
  have id: "sb_id c \<noteq> db_seq d" if "c \<in> set (db_source_bindings d)" for c
    using assms(1) that by (auto simp: identity_wf_def bindings_ok_def)
  let ?b = "b\<lparr>sb_id := db_seq d\<rparr>" and ?bs = "db_source_bindings d"
  have new: "\<not> same_key ?b c \<and> \<not> same_key c ?b" if "c \<in> set ?bs" for c
    using assms(4) [OF that] by (auto simp: same_key_def)
  have "distinct (map sb_id (?bs @ [?b]))"
    using assms(1) id by (force simp: identity_wf_def bindings_ok_def)
  moreover have "\<forall>c \<in> set (?bs @ [?b]). \<forall>e \<in> set (?bs @ [?b]). same_key c e \<longrightarrow> sb_id c = sb_id e"
    using assms(1) new by (auto simp: identity_wf_def bindings_ok_def)
  moreover have "\<forall>c \<in> set (?bs @ [?b]). sb_id c < db_seq d + 1 \<and> media_exists d (sb_media_item_id c) \<and>
      (sb_source_item_id c = None) \<noteq> (sb_info_hash c = None)"
    using assms(1-3) by (fastforce simp: identity_wf_def bindings_ok_def)
  moreover define d' where "d' = d\<lparr>db_seq := db_seq d + 1, db_source_bindings := ?bs @ [?b]\<rparr>"
  moreover have sel: "db_source_bindings d' = ?bs @ [?b]" "db_seq d' = db_seq d + 1" "db_media_items d' = db_media_items d"
    "db_external_identities d' = db_external_identities d" "db_media_aliases d' = db_media_aliases d"
    by (simp_all add: d'_def)
  ultimately have "bindings_ok d'" unfolding bindings_ok_def media_exists_def sel by blast
  moreover have "media_ok d'" "externals_ok d'" "aliases_ok d'"
    using assms(1) unfolding identity_wf_def media_ok_def externals_ok_def aliases_ok_def media_exists_def sel by fastforce+
  ultimately show ?thesis by (simp add: identity_wf_def d'_def)
qed

lemma wf_delete_binding:
  "identity_wf d \<Longrightarrow> identity_wf (d\<lparr>db_source_bindings := filter P (db_source_bindings d)\<rparr>)"
  by (auto simp: identity_wf_def ok_defs distinct_map_filter)

definition one_key :: "source_binding_write \<Rightarrow> bool" where
  "one_key w \<longleftrightarrow> (bw_source_item_id w = None) \<noteq> (bw_info_hash w = None)"

text \<open>At most one row has a key.\<close>

lemma one_row:
  assumes "identity_wf d" "\<And>b c. P b \<Longrightarrow> P c \<Longrightarrow> same_key b c"
  shows "\<exists>r. scalar_one_or_none (filter P (db_source_bindings d)) = return r \<and>
    (case r of None \<Rightarrow> filter P (db_source_bindings d) = [] | Some b \<Rightarrow> b \<in> set (db_source_bindings d) \<and> P b)"
proof (cases "filter P (db_source_bindings d)" rule: scalar_one_or_none.cases)
  case (2 r)
  have "r \<in> set (filter P (db_source_bindings d))" unfolding 2 by simp
  then have "r \<in> set (db_source_bindings d) \<and> P r" by simp
  then show ?thesis using 2 by simp
next
  case (3 r q rs)
  have "distinct (map sb_id (filter P (db_source_bindings d)))"
    using assms(1) by (simp add: identity_wf_def bindings_ok_def distinct_map_filter)
  then have "sb_id r \<noteq> sb_id q" using 3 by simp
  moreover have "r \<in> set (filter P (db_source_bindings d))" "q \<in> set (filter P (db_source_bindings d))" unfolding 3 by simp_all
  ultimately show ?thesis using assms by (auto simp: identity_wf_def bindings_ok_def)
qed simp

lemma same_source_key: "one_key w \<Longrightarrow> same_source w b \<Longrightarrow> same_source w c \<Longrightarrow> same_key b c"
  by (auto simp: one_key_def same_source_def same_key_def split: option.splits)

definition appended_binding :: "int \<Rightarrow> source_binding_write \<Rightarrow> db \<Rightarrow> db" where
  "appended_binding i w d = d\<lparr>db_seq := db_seq d + 1, db_source_bindings := db_source_bindings d @
     [\<lparr>sb_id = db_seq d, sb_media_item_id = i, sb_source_kind = bw_source_kind w, sb_source_item_id = bw_source_item_id w,
       sb_info_hash = bw_info_hash w, sb_authority = authority_str (bw_authority w),
       sb_authoritative = authoritative (bw_authority w), sb_confidence = bw_confidence w,
       sb_resolver_version = bw_resolver_version w\<rparr>]\<rparr>"

text \<open>What \<open>_bind_source_key\<close> does to the rows.\<close>

lemma bind_source_key_cases:
  assumes "identity_wf d" "one_key w"
  obtains
    (new) "filter (same_source w) (db_source_bindings d) = []" "bind_source_key i w d = (return (), appended_binding i w d)"
  | (kept) b where "b \<in> set (db_source_bindings d)" "sb_media_item_id b \<noteq> i" "sb_authoritative b" "\<not> authoritative (bw_authority w)"
      "bind_source_key i w d = (return (), d)"
  | (conflict) b m where "b \<in> set (db_source_bindings d)" "sb_media_item_id b \<noteq> i" "sb_authoritative b" "authoritative (bw_authority w)"
      "bind_source_key i w d = (raise (AuthoritativeIdentityConflictError m), d)"
  | (changed) b where "b \<in> set (db_source_bindings d)" "same_source w b" "sb_authoritative b \<Longrightarrow> sb_media_item_id b = i"
      "bind_source_key i w d = (return (), d\<lparr>db_source_bindings :=
         update_where (\<lambda>c. sb_id c = sb_id b) (rewritten_binding i w) (db_source_bindings d)\<rparr>)"
proof -
  obtain r where r: "scalar_one_or_none (filter (same_source w) (db_source_bindings d)) = return r"
    "case r of None \<Rightarrow> filter (same_source w) (db_source_bindings d) = []
       | Some b \<Rightarrow> b \<in> set (db_source_bindings d) \<and> same_source w b"
    using one_row [OF assms(1), of "same_source w"] same_source_key [OF assms(2)] by blast
  show thesis
  proof (cases r)
    case None
    then show ?thesis using r
      by (intro new) (simp_all add: bind_source_key_def eff_bind_def new_binding_def fresh_id_def eff_modify_def appended_binding_def)
  next
    case (Some b)
    then have b: "b \<in> set (db_source_bindings d)" "same_source w b" using r(2) by simp_all
    consider "sb_media_item_id b \<noteq> i" "sb_authoritative b" "\<not> authoritative (bw_authority w)"
      | "sb_media_item_id b \<noteq> i" "sb_authoritative b" "authoritative (bw_authority w)"
      | "sb_authoritative b \<longrightarrow> sb_media_item_id b = i" by blast
    then show ?thesis
    proof cases
      case 1
      then show ?thesis using r(1) Some b by (intro kept [of b]) (simp_all add: bind_source_key_def eff_bind_def)
    next
      case 2
      then show ?thesis using r(1) Some b by (intro conflict [of b]) (simp_all add: bind_source_key_def eff_bind_def)
    next
      case 3
      then have "\<not> (sb_media_item_id b \<noteq> i \<and> sb_authoritative b \<and> Q)" for Q by blast
      then have "bind_source_key i w d = change_binding (sb_id b) (rewritten_binding i w) d"
        using r(1) Some by (simp only: bind_source_key_def eff_bind_def prod.case sum.case option.case if_False)
      then show ?thesis using 3 b by (intro changed [of b]) (simp_all add: change_binding_def eff_modify_def)
    qed
  qed
qed

lemma rewritten_fields:
  "sb_id (rewritten_binding i w b) = sb_id b" "sb_source_kind (rewritten_binding i w b) = sb_source_kind b"
  "sb_source_item_id (rewritten_binding i w b) = sb_source_item_id b" "sb_info_hash (rewritten_binding i w b) = sb_info_hash b"
  "sb_media_item_id (rewritten_binding i w b) = i"
  by (simp_all add: rewritten_binding_def Let_def)

lemma bind_source_key_wf:
  assumes "identity_wf d" "one_key w" "media_exists d i"
  shows "identity_wf (snd (bind_source_key i w d)) \<and> db_media_items (snd (bind_source_key i w d)) = db_media_items d \<and>
    (\<forall>e. fst (bind_source_key i w d) = Inl e \<longrightarrow> (\<exists>m. e = AuthoritativeIdentityConflictError m))"
proof (cases rule: bind_source_key_cases [OF assms(1,2), of i, case_names new kept conflict changed])
  case new
  let ?b = "\<lparr>sb_id = 0, sb_media_item_id = i, sb_source_kind = bw_source_kind w, sb_source_item_id = bw_source_item_id w,
       sb_info_hash = bw_info_hash w, sb_authority = authority_str (bw_authority w),
       sb_authoritative = authoritative (bw_authority w), sb_confidence = bw_confidence w,
       sb_resolver_version = bw_resolver_version w\<rparr>"
  have "\<not> same_key ?b c" if "c \<in> set (db_source_bindings d)" for c
    using new(1) that assms(2) by (auto simp: same_key_def same_source_def filter_empty_conv one_key_def split: option.splits)
  then have "identity_wf (appended_binding i w d)"
    using wf_new_binding [of d ?b] assms by (simp add: appended_binding_def one_key_def)
  then show ?thesis using new(2) by (simp add: appended_binding_def)
next
  case (changed b)
  have "identity_wf (d\<lparr>db_source_bindings := update_where (\<lambda>c. sb_id c = sb_id b) (rewritten_binding i w) (db_source_bindings d)\<rparr>)"
    using assms by (intro wf_change_bindings) (auto simp: rewritten_fields)
  then show ?thesis using changed(4) by simp
qed (use assms in simp_all)

lemma eff_then_fst: "fst (eff_then m n s) = (case fst (m s) of Inl e \<Rightarrow> Inl e | Inr a \<Rightarrow> fst (n (snd (m s))))"
  by (cases "m s"; cases "fst (m s)") (auto simp: eff_then_def eff_bind_def)

lemma eff_then_snd: "snd (eff_then m n s) = (case fst (m s) of Inl e \<Rightarrow> snd (m s) | Inr a \<Rightarrow> snd (n (snd (m s))))"
  by (cases "m s"; cases "fst (m s)") (auto simp: eff_then_def eff_bind_def)

lemma eff_then_run: "m s = (return (), t) \<Longrightarrow> eff_then m n s = n t"
  by (simp add: eff_then_def eff_bind_def)

lemma eff_modify_run: "eff_modify f s = (return (), f s)" by (simp add: eff_modify_def)

lemma get_run: "eff_bind (eff_get f) g s = g (f s) s" by (simp add: eff_bind_def eff_get_def)

definition bindable :: "db \<Rightarrow> int \<Rightarrow> bool" where
  "bindable d i \<longleftrightarrow> identity_wf d \<and> media_exists d i"

definition binds_ok :: "int \<Rightarrow> unit dbm \<Rightarrow> bool" where
  "binds_ok i m \<longleftrightarrow> (\<forall>d. bindable d i \<longrightarrow> bindable (snd (m d)) i \<and>
     (\<forall>e. fst (m d) = Inl e \<longrightarrow> (\<exists>t. e = AuthoritativeIdentityConflictError t)))"

lemma binds_ok_then: "binds_ok i m \<Longrightarrow> binds_ok i n \<Longrightarrow> binds_ok i (eff_then m n)"
  unfolding binds_ok_def eff_then_fst eff_then_snd by (auto split: sum.split)

lemma binds_ok_key: "one_key w \<Longrightarrow> binds_ok i (bind_source_key i w)"
  using bind_source_key_wf unfolding binds_ok_def bindable_def media_exists_def by metis

lemma binds_ok_alias: "binds_ok i (alias_for i name source)"
  unfolding binds_ok_def
proof (intro allI impI)
  fix d assume d: "bindable d i"
  then obtain as n where "alias_for i name source d = (return (), d\<lparr>db_seq := n, db_media_aliases := as\<rparr>)"
    using alias_run by (metis bindable_def)
  then show "bindable (snd (alias_for i name source d)) i \<and>
      (\<forall>e. fst (alias_for i name source d) = Inl e \<longrightarrow> (\<exists>t. e = AuthoritativeIdentityConflictError t))"
    using keeps_alias [of d i name source] d by (simp add: bindable_def media_exists_def)
qed

lemma bind_sources_wf: "binds_ok i (bind_sources i w)"
proof -
  have r: "binds_ok i (eff_return ())" by (simp add: binds_ok_def)
  show ?thesis
    unfolding bind_sources_def Let_def
    by (intro binds_ok_then binds_ok_alias) (auto simp: r one_key_def intro!: binds_ok_key)
qed

text \<open>Deleting items.\<close>

lemma wf_delete_media:
  assumes "identity_wf d"
  shows "identity_wf (delete_media P d)"
    and "media_exists (delete_media P d) i \<longleftrightarrow> (\<exists>m \<in> set (db_media_items d). mi_id m = i \<and> \<not> P m)"
proof -
  have exists: "media_exists (delete_media P d) i \<longleftrightarrow> (\<exists>m \<in> set (db_media_items d). mi_id m = i \<and> \<not> P m)" for i
    by (auto simp: delete_media_def media_exists_def Let_def)
  then show "media_exists (delete_media P d) i \<longleftrightarrow> (\<exists>m \<in> set (db_media_items d). mi_id m = i \<and> \<not> P m)" .
  define gone where "gone i = list_ex (\<lambda>m. mi_id m = i \<and> P m) (db_media_items d)" for i
  have kept: "media_exists (delete_media P d) i" if "media_exists d i" "\<not> gone i" for i
    using that unfolding exists gone_def by (auto simp: media_exists_def list_ex_iff)
  have sel: "db_external_identities (delete_media P d) = filter (\<lambda>x. \<not> gone (mxi_media_item_id x)) (db_external_identities d)"
    "db_source_bindings (delete_media P d) = filter (\<lambda>b. \<not> gone (sb_media_item_id b)) (db_source_bindings d)"
    "db_media_aliases (delete_media P d) = filter (\<lambda>a. \<not> gone (ma_media_item_id a)) (db_media_aliases d)"
    "db_media_items (delete_media P d) = filter (\<lambda>m. \<not> P m) (db_media_items d)" "db_seq (delete_media P d) = db_seq d"
    by (simp_all add: delete_media_def Let_def gone_def)
  have "externals_ok (delete_media P d)"
    using assms by (auto simp: identity_wf_def externals_ok_def sel distinct_map_filter intro: kept)
  moreover have "bindings_ok (delete_media P d)"
    using assms by (auto simp: identity_wf_def bindings_ok_def sel distinct_map_filter intro: kept)
  moreover have "aliases_ok (delete_media P d)"
    using assms by (auto simp: identity_wf_def aliases_ok_def sel distinct_map_filter intro: kept)
  moreover have "media_ok (delete_media P d)"
    using assms by (auto simp: identity_wf_def media_ok_def sel distinct_map_filter)
  ultimately show "identity_wf (delete_media P d)" by (simp add: identity_wf_def)
qed

text \<open>Merging: the effects before the last one change no media item and no external identity.\<close>

definition merge_step :: "int \<Rightarrow> unit dbm \<Rightarrow> bool" where
  "merge_step i m \<longleftrightarrow> (\<forall>d. bindable d i \<longrightarrow> fst (m d) = return () \<and> bindable (snd (m d)) i \<and>
     db_media_items (snd (m d)) = db_media_items d \<and> db_external_identities (snd (m d)) = db_external_identities d)"

lemma merge_stepE:
  assumes "merge_step i m" "bindable d i"
  obtains d' where "m d = (return (), d')" "bindable d' i" "db_media_items d' = db_media_items d"
    "db_external_identities d' = db_external_identities d"
proof -
  have "m d = (return (), snd (m d))" using assms by (simp add: merge_step_def prod_eq_iff)
  then show thesis using assms that [of "snd (m d)"] by (simp add: merge_step_def)
qed

lemma merge_step_then: "merge_step i m \<Longrightarrow> merge_step i n \<Longrightarrow> merge_step i (eff_then m n)"
  unfolding merge_step_def eff_then_fst eff_then_snd by simp

lemma merge_step_for: "(\<And>x. x \<in> set xs \<Longrightarrow> merge_step i (f x)) \<Longrightarrow> merge_step i (eff_for xs f)"
proof (induction xs)
  case Nil
  then show ?case by (simp add: merge_step_def)
qed (auto intro: merge_step_then)

lemma merge_step_alias: "merge_step i (alias_for i name source)"
  unfolding merge_step_def
proof (intro allI impI)
  fix d assume d: "bindable d i"
  then obtain as n where "alias_for i name source d = (return (), d\<lparr>db_seq := n, db_media_aliases := as\<rparr>)"
    using alias_run by (metis bindable_def)
  then show "fst (alias_for i name source d) = return () \<and> bindable (snd (alias_for i name source d)) i \<and>
      db_media_items (snd (alias_for i name source d)) = db_media_items d \<and>
      db_external_identities (snd (alias_for i name source d)) = db_external_identities d"
    using keeps_alias [of d i name source] d by (simp add: bindable_def media_exists_def)
qed

lemma manual_fields [simp]:
  "sb_id (manual_binding b) = sb_id b" "sb_source_kind (manual_binding b) = sb_source_kind b"
  "sb_source_item_id (manual_binding b) = sb_source_item_id b" "sb_info_hash (manual_binding b) = sb_info_hash b"
  "sb_media_item_id (manual_binding b) = sb_media_item_id b"
  by (simp_all add: manual_binding_def)

lemma wf_manual:
  assumes "bindable d i"
  shows "identity_wf (d\<lparr>db_source_bindings := update_where P (\<lambda>b. manual_binding (b\<lparr>sb_media_item_id := i\<rparr>)) (db_source_bindings d)\<rparr>)"
    "identity_wf (d\<lparr>db_source_bindings := update_where P manual_binding (db_source_bindings d)\<rparr>)"
  using assms by (auto intro!: wf_change_bindings simp: bindable_def)

lemma merge_step_binding:
  assumes "(sb_source_item_id b = None) \<noteq> (sb_info_hash b = None)"
  shows "merge_step i (merge_binding i b)"
  unfolding merge_step_def
proof (intro allI impI)
  fix d assume d: "bindable d i"
  let ?P = "\<lambda>c. sb_media_item_id c = i \<and> (if sb_source_item_id b \<noteq> None
      then sb_source_kind c = sb_source_kind b \<and> sb_source_item_id c = sb_source_item_id b
      else sb_info_hash c = sb_info_hash b)"
  obtain r where r: "scalar_one_or_none (filter ?P (db_source_bindings d)) = return r"
    using one_row [of d ?P] d assms by (auto simp: bindable_def same_key_def split: if_splits)
  have m: "matching_source_binding i b d = (return r, d)" unfolding matching_source_binding_def r ..
  show "fst (merge_binding i b d) = return () \<and> bindable (snd (merge_binding i b d)) i \<and>
      db_media_items (snd (merge_binding i b d)) = db_media_items d \<and>
      db_external_identities (snd (merge_binding i b d)) = db_external_identities d"
    using m d wf_manual(1) [OF d] wf_delete_binding [OF wf_manual(2) [OF d]]
    by (cases r) (simp_all add: merge_binding_def eff_then_def change_binding_def delete_binding_def eff_modify_def eff_bind_def
        bindable_def media_exists_def)
qed

lemma merge_media_wf:
  assumes "bindable d i" "i \<noteq> j"
  shows "fst (merge_media_items i j d) = return () \<and> bindable (snd (merge_media_items i j d)) i \<and>
    set (db_external_identities (snd (merge_media_items i j d))) \<subseteq> set (db_external_identities d)"
proof -
  define d1 where "d1 = d\<lparr>db_library_entries :=
         update_where (\<lambda>e. ler_media_item_id e = j) (\<lambda>e. e\<lparr>ler_media_item_id := i\<rparr>) (db_library_entries d)\<rparr>"
  have d1: "bindable d1 i" using assms(1) by (simp add: d1_def bindable_def identity_wf_def ok_defs)
  define bs where "bs = filter (\<lambda>b. sb_media_item_id b = j) (db_source_bindings d1)"
  have "merge_step i (eff_for bs (merge_binding i))"
    using d1 by (intro merge_step_for merge_step_binding) (auto simp: bs_def bindable_def identity_wf_def bindings_ok_def)
  then obtain d2 where d2: "eff_for bs (merge_binding i) d1 = (return (), d2)" "bindable d2 i"
    "db_media_items d2 = db_media_items d1" "db_external_identities d2 = db_external_identities d1"
    by (rule merge_stepE [OF _ d1])
  define as where "as = filter (\<lambda>a. ma_media_item_id a = j) (db_media_aliases d2)"
  have "merge_step i (eff_for as (\<lambda>a. alias_for i (ma_alias a) (ma_source a)))"
    by (intro merge_step_for merge_step_alias)
  then obtain d3 where d3: "eff_for as (\<lambda>a. alias_for i (ma_alias a) (ma_source a)) d2 = (return (), d3)" "bindable d3 i"
    "db_media_items d3 = db_media_items d2" "db_external_identities d3 = db_external_identities d2"
    by (rule merge_stepE [OF _ d2(2)])
  have run: "merge_media_items i j d = (return (), delete_media (\<lambda>m. mi_id m = j) d3)"
    unfolding merge_media_items_def eff_then_run [where m = "eff_modify f" for f, OF eff_modify_run] get_run d1_def [symmetric]
      bs_def [symmetric] eff_then_run [where m = "eff_for bs (merge_binding i)", OF d2(1)] as_def [symmetric]
      eff_then_run [where m = "eff_for as (\<lambda>a. alias_for i (ma_alias a) (ma_source a))", OF d3(1)] eff_modify_run ..
  have "media_exists (delete_media (\<lambda>m. mi_id m = j) d3) i"
    using d3(2) assms(2) wf_delete_media(2) [of d3] by (auto simp: bindable_def media_exists_def)
  then have "bindable (delete_media (\<lambda>m. mi_id m = j) d3) i"
    using wf_delete_media(1) [of d3] d3(2) by (simp add: bindable_def)
  moreover have "set (db_external_identities (delete_media (\<lambda>m. mi_id m = j) d3)) \<subseteq> set (db_external_identities d)"
    using d3(4) d2(4) by (auto simp: delete_media_def Let_def d1_def)
  ultimately show ?thesis using run by simp
qed

text \<open>A manual identity.\<close>

lemma key_inj: "distinct (map key xs) \<Longrightarrow> x \<in> set xs \<Longrightarrow> y \<in> set xs \<Longrightarrow> key x = key y \<Longrightarrow> x = y"
  by (auto simp: distinct_map dest: inj_onD)

lemma distinct_update_key:
  assumes "distinct (map ident rs)" "distinct (map key rs)" "x \<in> set rs" "\<And>y. y \<in> set rs \<Longrightarrow> y \<noteq> x \<Longrightarrow> key y \<noteq> key (f x)"
  shows "distinct (map key (update_where (\<lambda>y. ident y = ident x) f rs))"
  using assms
proof (induction rs)
  case (Cons r rs)
  show ?case
  proof (cases "r = x")
    case True
    have "ident y \<noteq> ident x" if "y \<in> set rs" for y
      using Cons.prems(1) imageI [OF that, of ident] True by auto
    then have "update_where (\<lambda>y. ident y = ident x) f rs = rs"
      unfolding update_where_def by (intro map_idI) simp
    then show ?thesis using True Cons.prems by (force simp: update_where_def)
  next
    case False
    then have x: "x \<in> set rs" using Cons.prems(3) by simp
    have "ident r \<noteq> ident x" using Cons.prems(1) x by auto
    moreover have "key r \<notin> key ` set (update_where (\<lambda>y. ident y = ident x) f rs)"
    proof
      assume "key r \<in> key ` set (update_where (\<lambda>y. ident y = ident x) f rs)"
      then obtain y where y: "y \<in> set rs" "key r = key (if ident y = ident x then f y else y)"
        by (auto simp: update_where_in)
      have "ident y = ident x \<Longrightarrow> y = x" using Cons.prems(1) x y(1) by (auto intro: key_inj)
      then show False using y Cons.prems(2) Cons.prems(4) [of r] False by (auto split: if_splits)
    qed
    moreover have "distinct (map key (update_where (\<lambda>y. ident y = ident x) f rs))"
      using Cons.prems x by (intro Cons.IH) auto
    moreover have "update_where (\<lambda>y. ident y = ident x) f (r # rs) = r # update_where (\<lambda>y. ident y = ident x) f rs"
      using \<open>ident r \<noteq> ident x\<close> by (simp add: update_where_def)
    ultimately show ?thesis by simp
  qed
qed (simp add: update_where_def)

lemma wf_rekey_external:
  assumes "identity_wf d" "x \<in> set (db_external_identities d)"
    "mxi_id (f x) = mxi_id x" "external_owner (f x) = external_owner x" "\<exists>a. mxi_authority (f x) = authority_str a"
    "\<And>y. y \<in> set (db_external_identities d) \<Longrightarrow> y \<noteq> x \<Longrightarrow> external_key y \<noteq> external_key (f x)"
  shows "identity_wf (d\<lparr>db_external_identities := update_where (\<lambda>y. mxi_id y = mxi_id x) f (db_external_identities d)\<rparr>)"
proof -
  let ?xs = "db_external_identities d" and ?u = "update_where (\<lambda>y. mxi_id y = mxi_id x) f (db_external_identities d)"
  have ids: "distinct (map mxi_id ?xs)" "distinct (map external_key ?xs)" "distinct (map external_owner ?xs)"
    using assms(1) by (simp_all add: identity_wf_def externals_ok_def)
  have only: "y = x" if "y \<in> set ?xs" "mxi_id y = mxi_id x" for y
    by (rule key_inj [OF ids(1) that(1) assms(2) that(2)])
  have key: "external_owner y \<noteq> external_owner (f x)" if "y \<in> set ?xs" "y \<noteq> x" for y
    using key_inj [OF ids(3) that(1) assms(2)] that(2) assms(4) by auto
  have mid: "mxi_id y \<noteq> mxi_id (f x)" if "y \<in> set ?xs" "y \<noteq> x" for y
    using only [OF that(1)] that(2) assms(3) by auto
  have "distinct (map mxi_id ?u)" "distinct (map external_key ?u)" "distinct (map external_owner ?u)"
    by (intro distinct_update_key ids assms(2) mid; assumption) (intro distinct_update_key ids assms(2,6) key; assumption)+
  moreover have "mxi_id y < db_seq d \<and> media_exists d (mxi_media_item_id y) \<and> (\<exists>a. mxi_authority y = authority_str a)"
    if "y \<in> set ?u" for y
  proof -
    have "\<exists>q \<in> set ?xs. y = (if mxi_id q = mxi_id x then f q else q)" using that by (simp only: update_where_in)
    then obtain q where q: "q \<in> set ?xs" "y = (if mxi_id q = mxi_id x then f q else q)" by (rule bexE)
    have owner: "mxi_media_item_id (f x) = mxi_media_item_id x" using assms(4) by (simp add: external_owner_def)
    show ?thesis
    proof (cases "q = x")
      case True
      then show ?thesis using q(2) assms(1-3,5) owner by (auto simp: identity_wf_def externals_ok_def)
    next
      case False
      then have "y = q" using q only [OF q(1)] by auto
      then show ?thesis using q(1) assms(1) by (auto simp: identity_wf_def externals_ok_def)
    qed
  qed
  ultimately show ?thesis
    using assms(1) by (simp add: identity_wf_def ok_defs)
qed

lemma write_manual_wf:
  assumes "bindable d i" "\<And>x. x \<in> set (db_external_identities d) \<Longrightarrow>
      external_key x = (''tmdb'', provider_kind_str kind, t) \<Longrightarrow> mxi_media_item_id x = i"
  shows "\<exists>d'. write_manual_identity i kind t d = (return (), d') \<and> identity_wf d' \<and> media_exists d' i"
proof -
  let ?xs = "db_external_identities d" and ?is = "\<lambda>x. mxi_media_item_id x = i \<and> mxi_provider x = ''tmdb''"
  have wf: "identity_wf d" "media_exists d i" using assms(1) by (simp_all add: bindable_def)
  show ?thesis
  proof (cases "find ?is ?xs")
    case None
    then have none: "\<not> ?is x" if "x \<in> set ?xs" for x using that by (auto simp: find_None_iff)
    have "external_key (manual_external i kind t) \<notin> external_key ` set ?xs"
    proof
      assume "external_key (manual_external i kind t) \<in> external_key ` set ?xs"
      then obtain x where x: "x \<in> set ?xs" "external_key x = external_key (manual_external i kind t)" by auto
      then have "?is x" using assms(2) [OF x(1)] by (simp add: manual_external_def external_key_def)
      then show False using none [OF x(1)] by (elim notE)
    qed
    moreover have "external_owner (manual_external i kind t) \<notin> external_owner ` set ?xs"
    proof
      assume "external_owner (manual_external i kind t) \<in> external_owner ` set ?xs"
      then obtain x where x: "x \<in> set ?xs" "?is x" by (auto simp: manual_external_def external_owner_def)
      then show False using none [OF x(1)] by (elim notE)
    qed
    ultimately have "identity_wf (appended_external (manual_external i kind t) d)"
      using wf by (intro wf_appended_external) (auto simp: manual_external_def intro: exI [of _ Manual])
    then show ?thesis
      using wf(2) None
      by (simp add: write_manual_identity_def identity_for_media_def get_run add_external_run media_exists_def appended_external_def)
  next
    case (Some x)
    then have x: "x \<in> set ?xs" "?is x" by (auto dest: find_in)
    define f :: "media_external_identity \<Rightarrow> media_external_identity" where "f x = (manual_external i kind t)\<lparr>mxi_id := mxi_id x, mxi_media_item_id := mxi_media_item_id x,
      mxi_provider := mxi_provider x\<rparr>" for x
    let ?poster = "mxi_external_id x \<noteq> t"
    define e where "e = (if ?poster then d\<lparr>db_media_items :=
        update_where (\<lambda>m. mi_id m = i) (\<lambda>m. m\<lparr>mi_poster_path := None\<rparr>) (db_media_items d)\<rparr> else d)"
    have e: "identity_wf e" "media_exists e i" "db_external_identities e = ?xs"
      using wf wf_change_media [OF wf(1), of "\<lambda>m. m\<lparr>mi_poster_path := None\<rparr>" "\<lambda>m. mi_id m = i"]
        update_where_image [of "\<lambda>m. mi_id m = i" mi_id "\<lambda>m. m\<lparr>mi_poster_path := None\<rparr>" "db_media_items d"]
      by (auto simp: e_def media_exists_def)
    have "y = x" if "y \<in> set ?xs" "external_key y = external_key (f x)" for y
    proof -
      have "mxi_media_item_id y = i" "mxi_provider y = ''tmdb''"
        using assms(2) [OF that(1)] that(2) x(2) by (auto simp: f_def manual_external_def external_key_def)
      then show ?thesis
        using key_inj [of external_owner, OF _ that(1) x(1)] wf(1) x(2) by (simp add: identity_wf_def externals_ok_def external_owner_def)
    qed
    then have "identity_wf (e\<lparr>db_external_identities := update_where (\<lambda>y. mxi_id y = mxi_id x) f (db_external_identities e)\<rparr>)"
      using x e by (intro wf_rekey_external) (auto simp: f_def manual_external_def external_owner_def intro: exI [of _ Manual])
    moreover have "write_manual_identity i kind t d =
        (return (), e\<lparr>db_external_identities := update_where (\<lambda>y. mxi_id y = mxi_id x) f (db_external_identities e)\<rparr>)"
      using Some by (simp add: write_manual_identity_def identity_for_media_def get_run eff_then_run [OF change_media_run]
          change_external_run e_def f_def [abs_def])
    ultimately show ?thesis using e(2) by (simp add: media_exists_def)
  qed
qed

lemma set_manual_wf:
  assumes "identity_wf d" "m \<in> set (db_media_items d)" "provider_kind_for_content (mi_content_kind m) = return kind"
  shows "\<exists>i d'. set_manual_tmdb_identity m t d = (return i, d') \<and> identity_wf d' \<and> media_exists d' i"
proof -
  let ?found = "find (\<lambda>x. mxi_provider x = ''tmdb'' \<and> mxi_provider_media_kind x = provider_kind_str kind \<and> mxi_external_id x = t)
      (db_external_identities d)"
  let ?key = "\<lambda>x. external_key x = (''tmdb'', provider_kind_str kind, t)"
  define target where "target = (case ?found of
         Some x \<Rightarrow> if mxi_media_item_id x \<noteq> mi_id m
           then eff_then (merge_media_items (mxi_media_item_id x) (mi_id m)) (eff_return (mxi_media_item_id x))
           else eff_return (mi_id m)
       | None \<Rightarrow> eff_return (mi_id m))"
  have m: "bindable d (mi_id m)" using assms by (simp add: bindable_def media_exists_def)
  have keys: "x = y" if "x \<in> set (db_external_identities d)" "y \<in> set (db_external_identities d)" "?key x" "?key y" for x y
    using key_inj [of external_key, OF _ that(1,2)] that(3,4) assms(1) by (simp add: identity_wf_def externals_ok_def)
  have "\<exists>i e. target d = (return i, e) \<and> bindable e i \<and>
      (\<forall>x \<in> set (db_external_identities e). ?key x \<longrightarrow> mxi_media_item_id x = i)"
  proof (cases ?found)
    case None
    then have "target d = (return (mi_id m), d)" by (simp add: target_def eff_return_def)
    then show ?thesis using None m by (auto simp: find_None_iff external_key_def)
  next
    case (Some x)
    then have x: "x \<in> set (db_external_identities d)" "?key x" by (auto dest!: find_in simp: external_key_def)
    let ?i = "mxi_media_item_id x"
    show ?thesis
    proof (cases "?i = mi_id m")
      case True
      then have "target d = (return (mi_id m), d)" by (simp add: target_def eff_return_def Some)
      then show ?thesis using True m keys x by auto
    next
      case False
      have "bindable d ?i" using x(1) assms(1) by (auto simp: bindable_def identity_wf_def externals_ok_def)
      from merge_media_wf [OF this False]
      obtain e where e: "merge_media_items ?i (mi_id m) d = (return (), e)" "bindable e ?i"
        "set (db_external_identities e) \<subseteq> set (db_external_identities d)"
        by (cases "merge_media_items ?i (mi_id m) d") auto
      have "target d = (return ?i, e)" using e(1) by (simp add: target_def Some False eff_then_run eff_return_def)
      then show ?thesis using e keys x by blast
    qed
  qed
  then obtain i e where e: "target d = (return i, e)" "bindable e i"
    "\<And>x. x \<in> set (db_external_identities e) \<Longrightarrow> ?key x \<Longrightarrow> mxi_media_item_id x = i" by blast
  obtain e' where e': "write_manual_identity i kind t e = (return (), e')" "identity_wf e'" "media_exists e' i"
    using write_manual_wf [OF e(2,3)] by blast
  have "set_manual_tmdb_identity m t d = (return i, e'\<lparr>db_source_bindings :=
      update_where (\<lambda>b. sb_media_item_id b = i) manual_binding (db_source_bindings e')\<rparr>)"
    using e(1) by (simp add: set_manual_tmdb_identity_def assms(3) eff_lift_def eff_bind_def [of "\<lambda>s. (return kind, s)"]
        external_identity_of_def get_run eff_bind_Inr flip: target_def)
      (simp add: eff_then_run e'(1) eff_modify_run eff_return_def)
  then show ?thesis
    using wf_manual(2) [of e' i "\<lambda>b. sb_media_item_id b = i"] e'(2,3) by (simp add: bindable_def media_exists_def)
qed

text \<open>A confirmed binding stays where it is.\<close>

definition binding_confirmed :: "bool \<Rightarrow> source_binding \<Rightarrow> db \<Rightarrow> bool" where
  "binding_confirmed same b d \<longleftrightarrow> (\<exists>c \<in> set (db_source_bindings d). sb_id c = sb_id b \<and> sb_media_item_id c = sb_media_item_id b \<and>
     sb_authoritative c \<and> (same \<longrightarrow> c = b))"

lemma confirmed_key:
  assumes "bindable d i" "one_key w" "binding_confirmed (\<not> authoritative (bw_authority w)) b d"
  shows "binding_confirmed (\<not> authoritative (bw_authority w)) b (snd (bind_source_key i w d))"
proof -
  have wf: "identity_wf d" using assms(1) by (simp add: bindable_def)
  obtain c where c: "c \<in> set (db_source_bindings d)" "sb_id c = sb_id b" "sb_media_item_id c = sb_media_item_id b"
    "sb_authoritative c" "\<not> authoritative (bw_authority w) \<Longrightarrow> c = b"
    using assms(3) by (auto simp: binding_confirmed_def)
  show ?thesis
  proof (cases rule: bind_source_key_cases [OF wf assms(2), of i, case_names new kept conflict changed])
    case new
    have "c \<in> set (db_source_bindings (appended_binding i w d))" using c(1) by (simp add: appended_binding_def)
    then show ?thesis unfolding binding_confirmed_def new(2) snd_conv using c(2-5) by blast
  next
    case (changed e)
    let ?c = "if sb_id c = sb_id e then rewritten_binding i w c else c"
    have same: "sb_id c = sb_id e \<Longrightarrow> c = e"
      using key_inj [of sb_id, OF _ c(1) changed(1)] wf by (simp add: identity_wf_def bindings_ok_def)
    have "sb_id ?c = sb_id b" "sb_media_item_id ?c = sb_media_item_id b" "sb_authoritative ?c"
      "\<not> authoritative (bw_authority w) \<Longrightarrow> ?c = b"
      using same changed(3) c(2-5) by (auto simp: rewritten_binding_def Let_def)
    moreover have "?c \<in> set (update_where (\<lambda>b. sb_id b = sb_id e) (rewritten_binding i w) (db_source_bindings d))"
      using c(1) unfolding update_where_in by blast
    ultimately show ?thesis unfolding binding_confirmed_def changed(4) by force
  qed (use assms(3) in simp_all)
qed

lemma confirmed_sources:
  assumes "bindable d i" "binding_confirmed (\<not> authoritative (bw_authority w)) b d"
  shows "binding_confirmed (\<not> authoritative (bw_authority w)) b (snd (bind_sources i w d))"
proof -
  define Q where "Q d \<longleftrightarrow> bindable d i \<and> binding_confirmed (\<not> authoritative (bw_authority w)) b d" for d
  have key: "keeps Q (bind_source_key i v)" if "one_key v" "bw_authority v = bw_authority w" for v
    unfolding keeps_def Q_def
    using binds_ok_key [OF that(1), of i] confirmed_key [OF _ that(1), of _ i b] that(2) by (auto simp: binds_ok_def)
  have al: "keeps Q (alias_for i name source)" for name source
    unfolding keeps_def Q_def
  proof (intro allI impI)
    fix d assume d: "bindable d i \<and> binding_confirmed (\<not> authoritative (bw_authority w)) b d"
    then obtain as n where run: "alias_for i name source d = (return (), d\<lparr>db_seq := n, db_media_aliases := as\<rparr>)"
      using alias_run [of d i name source] by (auto simp: bindable_def)
    have "bindable (snd (alias_for i name source d)) i" using binds_ok_alias [of i name source] d by (simp add: binds_ok_def)
    then show "bindable (snd (alias_for i name source d)) i \<and>
        binding_confirmed (\<not> authoritative (bw_authority w)) b (snd (alias_for i name source d))"
      using d run by (simp add: binding_confirmed_def)
  qed
  have "keeps Q (bind_sources i w)"
    unfolding bind_sources_def Let_def by (intro keeps_then al) (auto intro!: key simp: one_key_def)
  then show ?thesis using assms by (simp add: keeps_def Q_def)
qed

section \<open>Claims\<close>

definition demo_media :: media_item where
  "demo_media = \<lparr>mi_id = 1, mi_content_kind = ''movie'', mi_library_category = ''movie'', mi_title = ''Dune'', mi_year = Some 2021,
     mi_poster_path = None\<rparr>"

definition demo_binding :: source_binding where
  "demo_binding = \<lparr>sb_id = 2, sb_media_item_id = 1, sb_source_kind = ''torrents'', sb_source_item_id = Some ''7'',
     sb_info_hash = None, sb_authority = ''manual'', sb_authoritative = True, sb_confidence = Some 100, sb_resolver_version = None\<rparr>"

definition demo_identity_db :: db where
  "demo_identity_db = empty_db\<lparr>db_seq := 3, db_media_items := [demo_media, demo_media\<lparr>mi_id := 0, mi_title := ''Dune Part One''\<rparr>],
     db_source_bindings := [demo_binding]\<rparr>"

lemma demo_identity_wf: "identity_wf demo_identity_db"
  by (simp add: identity_wf_def ok_defs demo_identity_db_def demo_media_def demo_binding_def empty_db_def)

definition demo_source_write :: source_binding_write where
  "demo_source_write = \<lparr>bw_source_kind = ''torrents'', bw_source_item_id = Some ''7'', bw_info_hash = None,
     bw_source_title = ''Dune'', bw_authority = ProviderResolved, bw_confidence = Some 60, bw_resolver_version = None\<rparr>"


text \<open>C16. A source a user has confirmed is never moved by binding it again: after any run of \<open>bind_sources\<close>, also one that ends
  with a conflict, the binding's row is still there with its item and still authoritative, and a write without authority
  changes nothing of it.\<close>

theorem confirmed_binding_kept:
  assumes "identity_wf d" "media_exists d i" "b \<in> set (db_source_bindings d)" "sb_authoritative b"
  shows "\<exists>c \<in> set (db_source_bindings (snd (bind_sources i w d))). sb_id c = sb_id b \<and> sb_media_item_id c = sb_media_item_id b \<and>
    sb_authoritative c \<and> (\<not> authoritative (bw_authority w) \<longrightarrow> c = b)"
  using confirmed_sources [of d i w b] assms by (auto simp: binding_confirmed_def bindable_def)


theorem confirmed_binding_kept_witness:
  "\<exists>c \<in> set (db_source_bindings (snd (bind_sources 0 demo_source_write demo_identity_db))). c = demo_binding"
proof -
  have "media_exists demo_identity_db 0" "demo_binding \<in> set (db_source_bindings demo_identity_db)" "sb_authoritative demo_binding"
    "\<not> authoritative (bw_authority demo_source_write)"
    by (simp_all add: media_exists_def demo_identity_db_def demo_binding_def demo_source_write_def authoritative_def)
  then show ?thesis using confirmed_binding_kept [OF demo_identity_wf, of 0 demo_binding demo_source_write] by blast
qed

end
