(* ===== verification/Selections.thy ===== *)
theory Selections
  imports Tables LibraryPaths TorBoxFiles "HOL-Library.List_Lexorder" "HOL-Library.Char_ord"
begin

text \<open>
  The repositories of what the user chose: stream selections
  (api/app/db/repositories/stream_selection.py), library exclusions (library_exclusion.py),
  classification overrides (classification_override.py) and the watchlist (watchlist.py).
\<close>

section \<open>Stream selections\<close>

record stream_selection_write =
  sw_stream_key :: string
  sw_media_type :: string
  sw_media_id :: string
  sw_title :: string
  sw_source_name :: "string option"
  sw_info_hash :: "string option"
  sw_torbox_torrent_id :: "string option"
  sw_tmdb_id :: "string option"
  sw_media_title :: "string option"
  sw_media_year :: "int option"
  sw_media_poster_path :: "string option"
  sw_identity_authority :: string
  sw_status :: string

record stream_selection_record =
  sr_stream_key :: string
  sr_media_type :: string
  sr_media_id :: string
  sr_title :: string
  sr_source_name :: "string option"
  sr_info_hash :: "string option"
  sr_torbox_torrent_id :: "string option"
  sr_status :: string
  sr_tmdb_id :: "string option"
  sr_media_title :: "string option"
  sr_media_year :: "int option"
  sr_media_poster_path :: "string option"
  sr_identity_authority :: string

definition selection_record :: "stream_selection \<Rightarrow> stream_selection_record" where
  "selection_record s = \<lparr>sr_stream_key = ssel_stream_key s, sr_media_type = ssel_media_type s,
     sr_media_id = ssel_media_id s, sr_title = ssel_title s, sr_source_name = ssel_source_name s,
     sr_info_hash = ssel_info_hash s, sr_torbox_torrent_id = ssel_torbox_torrent_id s,
     sr_status = ssel_status s, sr_tmdb_id = ssel_tmdb_id s, sr_media_title = ssel_media_title s,
     sr_media_year = ssel_media_year s, sr_media_poster_path = ssel_media_poster_path s,
     sr_identity_authority = ssel_identity_authority s\<rparr>"

definition has_authoritative_identity :: "stream_selection \<Rightarrow> bool" where
  "has_authoritative_identity s \<longleftrightarrow>
     ssel_tmdb_id s \<noteq> None \<and> ssel_media_title s \<noteq> None \<and>
     ssel_identity_authority s \<in> {''manual'', ''search_confirmed''}"

definition selection_of :: "string \<Rightarrow> stream_selection option dbm" where
  "selection_of stream_key = (\<lambda>d.
     (scalar_one_or_none (filter (\<lambda>s. ssel_stream_key s = stream_key) (db_stream_selections d)), d))"

text \<open>Assigning attributes of a mapped object: the row with its key changes.\<close>

definition set_selection :: "stream_selection \<Rightarrow> (stream_selection \<Rightarrow> stream_selection) \<Rightarrow> unit dbm" where
  "set_selection s f = eff_modify (\<lambda>d. d\<lparr>db_stream_selections :=
     update_where (\<lambda>r. ssel_id r = ssel_id s) f (db_stream_selections d)\<rparr>)"

definition selected_keys :: "string list \<Rightarrow> string list dbm" where
  "selected_keys stream_keys =
     (if stream_keys = [] then eff_return []
      else eff_get (\<lambda>d. filter (\<lambda>k. k \<in> set stream_keys) (map ssel_stream_key (db_stream_selections d))))"

definition selection_get :: "string \<Rightarrow> stream_selection_record option dbm" where
  "selection_get stream_key =
     eff_bind (selection_of stream_key) (\<lambda>s. eff_return (map_option selection_record s))"

definition list_selected :: "stream_selection_record list dbm" where
  "list_selected = eff_get (\<lambda>d.
     map selection_record (filter (\<lambda>s. ssel_status s = ''selected'') (db_stream_selections d)))"

definition selected_for_torbox_item :: "string \<Rightarrow> stream_selection_record list dbm" where
  "selected_for_torbox_item torrent_id = eff_get (\<lambda>d. map selection_record
     (filter (\<lambda>s. ssel_status s = ''selected'' \<and> ssel_torbox_torrent_id s = Some torrent_id)
       (db_stream_selections d)))"

definition new_selection :: "int \<Rightarrow> stream_selection_write \<Rightarrow> stream_selection" where
  "new_selection i w = \<lparr>ssel_id = i, ssel_stream_key = sw_stream_key w, ssel_media_type = sw_media_type w,
     ssel_media_id = sw_media_id w, ssel_tmdb_id = sw_tmdb_id w, ssel_media_title = sw_media_title w,
     ssel_media_year = sw_media_year w, ssel_media_poster_path = sw_media_poster_path w,
     ssel_identity_authority = sw_identity_authority w, ssel_title = sw_title w,
     ssel_source_name = sw_source_name w, ssel_info_hash = normalize_info_hash (sw_info_hash w),
     ssel_torbox_torrent_id = sw_torbox_torrent_id w, ssel_status = sw_status w\<rparr>"

definition rewritten_selection :: "stream_selection_write \<Rightarrow> stream_selection \<Rightarrow> stream_selection" where
  "rewritten_selection w s =
     (let s1 = (if \<not> has_authoritative_identity s
                then s\<lparr>ssel_media_type := sw_media_type w, ssel_media_id := sw_media_id w,
                  ssel_tmdb_id := sw_tmdb_id w, ssel_media_title := sw_media_title w,
                  ssel_media_year := sw_media_year w, ssel_media_poster_path := sw_media_poster_path w,
                  ssel_identity_authority := sw_identity_authority w\<rparr>
                else s)
      in s1\<lparr>ssel_title := sw_title w, ssel_source_name := sw_source_name w,
           ssel_info_hash := normalize_info_hash (sw_info_hash w),
           ssel_torbox_torrent_id := sw_torbox_torrent_id w, ssel_status := sw_status w\<rparr>)"

definition selection_upsert :: "stream_selection_write \<Rightarrow> stream_selection_record dbm" where
  "selection_upsert w =
     eff_bind (selection_of (sw_stream_key w)) (\<lambda>found. case found of
       None \<Rightarrow> eff_bind fresh_id (\<lambda>i.
         eff_then (eff_modify (\<lambda>d. d\<lparr>db_stream_selections := db_stream_selections d @ [new_selection i w]\<rparr>))
           (eff_return (selection_record (new_selection i w))))
     | Some s \<Rightarrow> eff_then (set_selection s (rewritten_selection w))
           (eff_return (selection_record (rewritten_selection w s))))"

definition update_torbox_id :: "string \<Rightarrow> string option \<Rightarrow> unit dbm" where
  "update_torbox_id stream_key torbox_torrent_id =
     eff_bind (selection_of stream_key) (\<lambda>found. case found of None \<Rightarrow> eff_return ()
       | Some s \<Rightarrow> set_selection s (\<lambda>r. r\<lparr>ssel_torbox_torrent_id := torbox_torrent_id\<rparr>))"

definition update_torbox_identity :: "string \<Rightarrow> string \<Rightarrow> string option \<Rightarrow> unit dbm" where
  "update_torbox_identity stream_key torbox_torrent_id info_hash =
     eff_bind (selection_of stream_key) (\<lambda>found. case found of None \<Rightarrow> eff_return ()
       | Some s \<Rightarrow> set_selection s (\<lambda>r. r\<lparr>ssel_torbox_torrent_id := Some torbox_torrent_id, ssel_info_hash := (if info_hash \<noteq> None then normalize_info_hash info_hash else ssel_info_hash r)\<rparr>))"

definition update_media_identity :: "string \<Rightarrow> string \<Rightarrow> string \<Rightarrow> int option \<Rightarrow> string option \<Rightarrow> string \<Rightarrow> unit dbm" where
  "update_media_identity stream_key tmdb_id media_title media_year media_poster_path identity_authority =
     eff_bind (selection_of stream_key) (\<lambda>found. case found of None \<Rightarrow> eff_return ()
       | Some s \<Rightarrow> if has_authoritative_identity s then eff_return ()
           else set_selection s (\<lambda>r. r\<lparr>ssel_tmdb_id := Some tmdb_id, ssel_media_title := Some media_title,
             ssel_media_year := media_year, ssel_media_poster_path := media_poster_path,
             ssel_identity_authority := identity_authority\<rparr>))"

definition delete_selection_row :: "stream_selection \<Rightarrow> unit dbm" where
  "delete_selection_row s = eff_modify (\<lambda>d.
     (case ssel_info_hash s of None \<Rightarrow> d
      | Some h \<Rightarrow> d\<lparr>db_library_entries := update_where (\<lambda>e. ler_info_hash e = Some (casefold h))
          (\<lambda>e. e\<lparr>ler_info_hash := None\<rparr>) (db_library_entries d)\<rparr>)
     \<lparr>db_stream_selections := filter (\<lambda>r. ssel_id r \<noteq> ssel_id s) (db_stream_selections d)\<rparr>)"

definition selection_delete :: "string \<Rightarrow> bool dbm" where
  "selection_delete stream_key =
     eff_bind (selection_of stream_key) (\<lambda>found. case found of None \<Rightarrow> eff_return False
       | Some s \<Rightarrow> eff_then (delete_selection_row s) (eff_return True))"

definition delete_for_torbox_items :: "string list \<Rightarrow> nat dbm" where
  "delete_for_torbox_items torrent_ids =
     (if torrent_ids = [] then eff_return 0
      else eff_bind (eff_get (\<lambda>d. filter (\<lambda>s. case ssel_torbox_torrent_id s of None \<Rightarrow> False
             | Some t \<Rightarrow> t \<in> set torrent_ids) (db_stream_selections d)))
        (\<lambda>selections. eff_then (eff_for selections delete_selection_row) (eff_return (length selections))))"

section \<open>Library exclusions\<close>

record backing_item =
  bi_kind :: download_kind
  bi_item_id :: string

definition torbox_kind :: "string \<Rightarrow> download_kind option" where
  "torbox_kind kind = find (\<lambda>k. download_kind_str k = kind) DOWNLOAD_KINDS"

definition exclusion_prefixes :: "string list dbm" where
  "exclusion_prefixes = eff_get (\<lambda>d. map lx_relative_prefix (db_library_exclusions d))"

definition exclusion_add :: "string \<Rightarrow> string \<Rightarrow> string \<Rightarrow> unit dbm" where
  "exclusion_add category title relative_prefix =
     eff_bind (\<lambda>d. (scalar_one_or_none (filter (\<lambda>x. lx_relative_prefix x = relative_prefix) (db_library_exclusions d)), d))
       (\<lambda>existing. if existing \<noteq> None then eff_return ()
         else eff_bind fresh_id (\<lambda>i. eff_modify (\<lambda>d. d\<lparr>db_library_exclusions := db_library_exclusions d @
           [\<lparr>lx_id = i, lx_category = category, lx_title = title, lx_relative_prefix = relative_prefix\<rparr>]\<rparr>)))"

text \<open>\<open>delete(...).where(P).returning(id)\<close>: the deleted rows.\<close>

definition delete_exclusions :: "(library_exclusion \<Rightarrow> bool) \<Rightarrow> library_exclusion list dbm" where
  "delete_exclusions P = (\<lambda>d. (return (filter P (db_library_exclusions d)),
     d\<lparr>db_library_exclusions := filter (\<lambda>x. \<not> P x) (db_library_exclusions d)\<rparr>))"

definition exclusion_remove :: "string \<Rightarrow> bool dbm" where
  "exclusion_remove relative_prefix =
     eff_bind (delete_exclusions (\<lambda>x. lx_relative_prefix x = relative_prefix))
       (\<lambda>ids. eff_bind (eff_lift (scalar_one_or_none ids)) (\<lambda>r. eff_return (r \<noteq> None)))"

definition remove_generated_files :: "string \<Rightarrow> nat dbm" where
  "remove_generated_files relative_prefix = (\<lambda>d.
     (return (length (filter (\<lambda>g. path_within_prefix relative_prefix (gf_relative_path g)) (db_generated_files d))),
      d\<lparr>db_generated_files := filter (\<lambda>g. \<not> path_within_prefix relative_prefix (gf_relative_path g))
        (db_generated_files d)\<rparr>))"

definition clear_unobserved :: "string list \<Rightarrow> nat dbm" where
  "clear_unobserved observed_prefixes =
     eff_bind (delete_exclusions (\<lambda>x. if observed_prefixes \<noteq> []
         then lx_relative_prefix x \<notin> set observed_prefixes else True))
       (\<lambda>ids. eff_return (length ids))"

definition clear_for_selected_media :: "string \<Rightarrow> string \<Rightarrow> int option \<Rightarrow> nat dbm" where
  "clear_for_selected_media media_type title year =
     (let categories = (if media_type = ''movie'' then [''movies''] else [''shows'', ''anime'']);
          titles = title # (case year of None \<Rightarrow> [] | Some y \<Rightarrow> [title @ '' ('' @ str_int y @ '')''])
      in eff_bind (delete_exclusions (\<lambda>x. lx_category x \<in> set categories \<and> lx_title x \<in> set titles))
           (\<lambda>ids. eff_return (length ids)))"

text \<open>The items behind the entries that satisfy a condition, through the inner joins with the file and
  its item, each (kind, id) once, at the place of its first row.\<close>

definition joined_items :: "db \<Rightarrow> library_entry_row \<Rightarrow> torbox_item list" where
  "joined_items d e = concat (map (\<lambda>f. filter (\<lambda>t. ti_id t = tsf_torbox_item_id f) (db_torbox_items d))
     (filter (\<lambda>f. ler_torbox_file_id e = Some (tsf_id f)) (db_torbox_files d)))"

definition collect_items :: "torbox_item list \<Rightarrow> backing_item list" where
  "collect_items items = map snd (foldl (\<lambda>acc t. case torbox_kind (ti_kind t) of None \<Rightarrow> acc
     | Some k \<Rightarrow> AList.update (k, ti_external_id t) \<lparr>bi_kind = k, bi_item_id = ti_external_id t\<rparr> acc) [] items)"

definition backing_items :: "string \<Rightarrow> backing_item list dbm" where
  "backing_items relative_prefix = eff_get (\<lambda>d. collect_items (concat (map
     (\<lambda>g. concat (map (joined_items d) (filter (\<lambda>e. ler_id e = gf_library_entry_id g) (db_library_entries d))))
     (filter (\<lambda>g. path_within_prefix relative_prefix (gf_relative_path g)) (db_generated_files d)))))"

definition backing_items_for_media :: "int \<Rightarrow> backing_item list dbm" where
  "backing_items_for_media media_item_id = eff_get (\<lambda>d. collect_items (concat (map (joined_items d)
     (filter (\<lambda>e. ler_media_item_id e = media_item_id) (db_library_entries d)))))"

section \<open>Classification overrides\<close>

definition override_category :: "string \<Rightarrow> library_category result" where
  "override_category v =
     (if v = ''movies'' then return Movies else if v = ''shows'' then return Shows
      else if v = ''anime'' then return Anime else raise (ValueError (''Invalid library category: '' @ v)))"

definition override_record :: "classification_override_row \<Rightarrow> classification_override result" where
  "override_record r =
     bind_res (override_category (cor_source_category r)) (\<lambda>s.
     bind_res (override_category (cor_target_category r)) (\<lambda>t.
       return \<lparr>co_source_category = s, co_source_prefix = cor_source_prefix r, co_title = cor_title r,
         co_target_category = t\<rparr>))"

fun all_results :: "('a \<Rightarrow> 'b result) \<Rightarrow> 'a list \<Rightarrow> 'b list result" where
  "all_results f [] = return []"
| "all_results f (x # xs) = bind_res (f x) (\<lambda>y. bind_res (all_results f xs) (\<lambda>ys. return (y # ys)))"

definition override_list_all :: "classification_override list dbm" where
  "override_list_all = (\<lambda>d. (all_results override_record
     (sort_key cor_source_prefix (db_classification_overrides d)), d))"

definition by_source_prefix :: "(string, classification_override) odict dbm" where
  "by_source_prefix = eff_bind override_list_all (\<lambda>ovs.
     eff_return (foldl (\<lambda>acc ov. AList.update (co_source_prefix ov) ov acc) [] ovs))"

definition for_current_prefix :: "string \<Rightarrow> classification_override option dbm" where
  "for_current_prefix relative_prefix = eff_bind override_list_all (\<lambda>ovs. eff_return
     (find (\<lambda>ov. co_source_prefix ov = relative_prefix \<or> target_prefix_for_override ov = relative_prefix) ovs))"

text \<open>The arguments of the upsert, in the order of the source.\<close>

type_synonym override_write = "library_category \<times> string \<times> string \<times> library_category"

definition new_override :: "int \<Rightarrow> override_write \<Rightarrow> classification_override_row" where
  "new_override i = (\<lambda>(source_category, source_prefix, title, target_category).
     \<lparr>cor_id = i, cor_source_category = category_str source_category, cor_source_prefix = source_prefix,
      cor_title = title, cor_target_category = category_str target_category\<rparr>)"

definition rewritten_override :: "override_write \<Rightarrow> classification_override_row \<Rightarrow> classification_override_row" where
  "rewritten_override = (\<lambda>(source_category, source_prefix, title, target_category) r.
     r\<lparr>cor_source_category := category_str source_category, cor_title := title,
       cor_target_category := category_str target_category\<rparr>)"

definition override_upsert :: "override_write \<Rightarrow> classification_override dbm" where
  "override_upsert w =
     eff_bind (\<lambda>d. (scalar_one_or_none (filter (\<lambda>r. cor_source_prefix r = fst (snd w)) (db_classification_overrides d)), d))
       (\<lambda>found. case found of
          None \<Rightarrow> eff_bind fresh_id (\<lambda>i. eff_then (eff_modify (\<lambda>d. d\<lparr>db_classification_overrides :=
              db_classification_overrides d @ [new_override i w]\<rparr>)) (eff_lift (override_record (new_override i w))))
        | Some r \<Rightarrow> eff_then (eff_modify (\<lambda>d. d\<lparr>db_classification_overrides :=
              update_where (\<lambda>x. cor_id x = cor_id r) (rewritten_override w) (db_classification_overrides d)\<rparr>))
              (eff_lift (override_record (rewritten_override w r))))"

definition override_delete :: "string \<Rightarrow> bool dbm" where
  "override_delete source_prefix =
     eff_bind (\<lambda>d. (scalar_one_or_none (filter (\<lambda>r. cor_source_prefix r = source_prefix) (db_classification_overrides d)), d))
       (\<lambda>found. case found of None \<Rightarrow> eff_return False
        | Some r \<Rightarrow> eff_then (eff_modify (\<lambda>d. d\<lparr>db_classification_overrides :=
              filter (\<lambda>x. cor_id x \<noteq> cor_id r) (db_classification_overrides d)\<rparr>)) (eff_return True))"

section \<open>The watchlist\<close>

record watchlist_item_write =
  ww_tmdb_id :: int
  ww_imdb_id :: "string option"
  ww_title :: string
  ww_year :: "string option"
  ww_overview :: string
  ww_poster_url :: "string option"
  ww_media_type :: string

definition watchlist_all :: "watchlist_item list dbm" where
  "watchlist_all = eff_get (\<lambda>d. sort_key (\<lambda>i. casefold (wi_title i)) (db_watchlist_items d))"

definition new_watchlist_item :: "int \<Rightarrow> watchlist_item_write \<Rightarrow> watchlist_item" where
  "new_watchlist_item i w = \<lparr>wi_id = i, wi_tmdb_id = ww_tmdb_id w, wi_imdb_id = ww_imdb_id w,
     wi_title = ww_title w, wi_year = ww_year w, wi_overview = ww_overview w,
     wi_poster_url = ww_poster_url w, wi_media_type = ww_media_type w\<rparr>"

definition rewritten_watchlist_item :: "watchlist_item_write \<Rightarrow> watchlist_item \<Rightarrow> watchlist_item" where
  "rewritten_watchlist_item w i = i\<lparr>wi_imdb_id := ww_imdb_id w, wi_title := ww_title w, wi_year := ww_year w,
     wi_overview := ww_overview w, wi_poster_url := ww_poster_url w\<rparr>"

definition watchlist_by_identity :: "string \<Rightarrow> int \<Rightarrow> watchlist_item option dbm" where
  "watchlist_by_identity media_type tmdb_id = (\<lambda>d. (scalar_one_or_none
     (filter (\<lambda>i. (wi_media_type i, wi_tmdb_id i) = (media_type, tmdb_id)) (db_watchlist_items d)), d))"

text \<open>The media type of a found row is the written one, so that assigning it changes nothing.\<close>

definition watchlist_upsert :: "watchlist_item_write \<Rightarrow> watchlist_item dbm" where
  "watchlist_upsert w =
     eff_bind (watchlist_by_identity (ww_media_type w) (ww_tmdb_id w)) (\<lambda>found. case found of
       None \<Rightarrow> eff_bind fresh_id (\<lambda>i. eff_then (eff_modify (\<lambda>d. d\<lparr>db_watchlist_items :=
           db_watchlist_items d @ [new_watchlist_item i w]\<rparr>)) (eff_return (new_watchlist_item i w)))
     | Some r \<Rightarrow> eff_then (eff_modify (\<lambda>d. d\<lparr>db_watchlist_items :=
           update_where (\<lambda>x. wi_id x = wi_id r) (rewritten_watchlist_item w) (db_watchlist_items d)\<rparr>))
           (eff_return (rewritten_watchlist_item w r)))"

definition is_excluded :: "string \<Rightarrow> string list \<Rightarrow> bool" where
  "is_excluded relative_path exclusions \<longleftrightarrow>
     list_ex (\<lambda>p. relative_path = p \<or> startswith relative_path (p @ ''/'')) exclusions"

definition library_contains :: "string \<Rightarrow> int \<Rightarrow> bool dbm" where
  "library_contains media_type tmdb_id =
     (let categories = (if media_type = ''movie'' then [''movies''] else [''shows'', ''anime''])
      in eff_bind (eff_lift (provider_kind_for_search media_type)) (\<lambda>kind. eff_get (\<lambda>d.
        let paths = concat (map (\<lambda>g. concat (map (\<lambda>e. concat (map (\<lambda>m. map (\<lambda>x. gf_relative_path g)
                (filter (\<lambda>x. mxi_media_item_id x = mi_id m \<and> mxi_provider x = ''tmdb'' \<and>
                   mxi_provider_media_kind x = provider_kind_str kind \<and> mxi_external_id x = str_int tmdb_id)
                  (db_external_identities d)))
              (filter (\<lambda>m. mi_id m = ler_media_item_id e) (db_media_items d))))
            (filter (\<lambda>e. ler_id e = gf_library_entry_id g \<and> ler_category e \<in> set categories) (db_library_entries d))))
          (db_generated_files d))
        in if paths = [] then False
           else list_ex (\<lambda>p. \<not> is_excluded p (map lx_relative_prefix (db_library_exclusions d))) paths)))"

definition watchlist_delete :: "string \<Rightarrow> int \<Rightarrow> bool dbm" where
  "watchlist_delete media_type tmdb_id =
     eff_bind (watchlist_by_identity media_type tmdb_id) (\<lambda>found. case found of None \<Rightarrow> eff_return False
       | Some r \<Rightarrow> eff_then (eff_modify (\<lambda>d. d\<lparr>db_watchlist_items :=
           filter (\<lambda>x. wi_id x \<noteq> wi_id r) (db_watchlist_items d)\<rparr>)) (eff_return True))"

definition delete_identities :: "(string \<times> int) list \<Rightarrow> nat dbm" where
  "delete_identities identities =
     eff_fold (\<lambda>deleted media_type.
         let tmdb_ids = map snd (filter (\<lambda>p. fst p = media_type) identities)
         in if tmdb_ids = [] then eff_return deleted
            else (\<lambda>d. let P = (\<lambda>i. wi_media_type i = media_type \<and> wi_tmdb_id i \<in> set tmdb_ids)
              in (return (deleted + length (filter P (db_watchlist_items d))),
                  d\<lparr>db_watchlist_items := filter (\<lambda>i. \<not> P i) (db_watchlist_items d)\<rparr>)))
       0 [''movie'', ''series'']"

section \<open>Every upsert is an update of the keyed table\<close>

lemma fresh_id_run [simp]: "fresh_id d = (return (db_seq d), d\<lparr>db_seq := db_seq d + 1\<rparr>)"
  by (simp add: fresh_id_def)

lemma selection_of_run:
  "distinct (map ssel_stream_key (db_stream_selections d)) \<Longrightarrow>
   selection_of k d = (return (row_of ssel_stream_key (db_stream_selections d) k), d)"
  by (simp add: selection_of_def scalar_row_of)

interpretation selections: upsert_table db_stream_selections ssel_stream_key ssel_id selection_upsert
  sw_stream_key new_selection rewritten_selection
proof unfold_locales
  fix d :: db and w assume "distinct (map ssel_stream_key (db_stream_selections d))"
  note sel = selection_of_run [OF this, of "sw_stream_key w"]
  show "returned (fst (selection_upsert w d)) \<and>
      db_stream_selections (snd (selection_upsert w d)) =
        (case row_of ssel_stream_key (db_stream_selections d) (sw_stream_key w) of
          None \<Rightarrow> db_stream_selections d @ [new_selection (db_seq d) w]
        | Some r \<Rightarrow> update_where (\<lambda>x. ssel_id x = ssel_id r) (rewritten_selection w) (db_stream_selections d)) \<and>
      db_seq (snd (selection_upsert w d)) =
        (if row_of ssel_stream_key (db_stream_selections d) (sw_stream_key w) = None then db_seq d + 1 else db_seq d)"
    by (cases "row_of ssel_stream_key (db_stream_selections d) (sw_stream_key w)")
      (simp_all add: selection_upsert_def sel set_selection_def eff_then_def)
qed (simp_all add: new_selection_def rewritten_selection_def Let_def)

lemma override_record_str: "returned (override_record (new_override i w)) \<and> returned (override_record (rewritten_override w r))"
  by (cases w; cases "fst w"; cases "snd (snd (snd w))")
    (auto simp: override_record_def new_override_def rewritten_override_def override_category_def)

interpretation overrides: upsert_table db_classification_overrides cor_source_prefix cor_id override_upsert
  "\<lambda>w. fst (snd w)" new_override rewritten_override
proof unfold_locales
  fix d :: db and w :: override_write
  assume "distinct (map cor_source_prefix (db_classification_overrides d))"
  note found = scalar_row_of [OF this, of "fst (snd w)"]
  show "returned (fst (override_upsert w d)) \<and>
      db_classification_overrides (snd (override_upsert w d)) =
        (case row_of cor_source_prefix (db_classification_overrides d) (fst (snd w)) of
          None \<Rightarrow> db_classification_overrides d @ [new_override (db_seq d) w]
        | Some r \<Rightarrow> update_where (\<lambda>x. cor_id x = cor_id r) (rewritten_override w) (db_classification_overrides d)) \<and>
      db_seq (snd (override_upsert w d)) =
        (if row_of cor_source_prefix (db_classification_overrides d) (fst (snd w)) = None then db_seq d + 1 else db_seq d)"
    using override_record_str
    by (cases "row_of cor_source_prefix (db_classification_overrides d) (fst (snd w))")
      (simp_all add: override_upsert_def found eff_then_def eff_bind_def)
qed (auto simp: new_override_def rewritten_override_def)

interpretation watchlist: upsert_table db_watchlist_items "\<lambda>i. (wi_media_type i, wi_tmdb_id i)" wi_id watchlist_upsert
  "\<lambda>w. (ww_media_type w, ww_tmdb_id w)" new_watchlist_item rewritten_watchlist_item
proof unfold_locales
  fix d :: db and w :: watchlist_item_write
  assume "distinct (map (\<lambda>i. (wi_media_type i, wi_tmdb_id i)) (db_watchlist_items d))"
  note found = scalar_row_of [OF this, of "(ww_media_type w, ww_tmdb_id w)"]
  show "returned (fst (watchlist_upsert w d)) \<and>
      db_watchlist_items (snd (watchlist_upsert w d)) =
        (case row_of (\<lambda>i. (wi_media_type i, wi_tmdb_id i)) (db_watchlist_items d) (ww_media_type w, ww_tmdb_id w) of
          None \<Rightarrow> db_watchlist_items d @ [new_watchlist_item (db_seq d) w]
        | Some r \<Rightarrow> update_where (\<lambda>x. wi_id x = wi_id r) (rewritten_watchlist_item w) (db_watchlist_items d)) \<and>
      db_seq (snd (watchlist_upsert w d)) =
        (if row_of (\<lambda>i. (wi_media_type i, wi_tmdb_id i)) (db_watchlist_items d) (ww_media_type w, ww_tmdb_id w) = None
         then db_seq d + 1 else db_seq d)"
    by (cases "row_of (\<lambda>i. (wi_media_type i, wi_tmdb_id i)) (db_watchlist_items d) (ww_media_type w, ww_tmdb_id w)")
      (use found in \<open>simp_all add: watchlist_upsert_def watchlist_by_identity_def eff_then_def eff_bind_def\<close>)
qed (simp_all add: new_watchlist_item_def rewritten_watchlist_item_def)

section \<open>Runs of the selection repository\<close>

datatype selection_op =
    Upsert stream_selection_write
  | SetTorBoxId string "string option"
  | SetTorBoxIdentity string string "string option"
  | SetMediaIdentity string string string "int option" "string option" string
  | DeleteSelection string
  | DeleteItems "string list"

fun selection_step :: "selection_op \<Rightarrow> unit dbm" where
  "selection_step (Upsert w) = eff_bind (selection_upsert w) (\<lambda>_. eff_return ())"
| "selection_step (SetTorBoxId k t) = update_torbox_id k t"
| "selection_step (SetTorBoxIdentity k t h) = update_torbox_identity k t h"
| "selection_step (SetMediaIdentity k t title year poster a) = update_media_identity k t title year poster a"
| "selection_step (DeleteSelection k) = eff_bind (selection_delete k) (\<lambda>_. eff_return ())"
| "selection_step (DeleteItems ts) = eff_bind (delete_for_torbox_items ts) (\<lambda>_. eff_return ())"

definition run_selections :: "selection_op list \<Rightarrow> unit dbm" where
  "run_selections ops = eff_for ops selection_step"

definition selections_ok :: "db \<Rightarrow> bool" where
  "selections_ok d \<longleftrightarrow> table_ok ssel_stream_key ssel_id (db_seq d) (db_stream_selections d)"

fun deletes :: "selection_op \<Rightarrow> bool" where
  "deletes (DeleteSelection k) = True"
| "deletes (DeleteItems ts) = True"
| "deletes op = False"

text \<open>The operations that change the row of a key, unless a condition on the row forbids it.\<close>

lemma modify_run:
  assumes "selections_ok d"
  shows "eff_bind (selection_of k) (\<lambda>found. case found of None \<Rightarrow> eff_return ()
      | Some s \<Rightarrow> if P s then eff_return () else set_selection s f) d =
    (return (), d\<lparr>db_stream_selections := (case row_of ssel_stream_key (db_stream_selections d) k of
        None \<Rightarrow> db_stream_selections d
      | Some s \<Rightarrow> if P s then db_stream_selections d
          else update_where (\<lambda>r. ssel_id r = ssel_id s) f (db_stream_selections d))\<rparr>)"
  using assms by (simp add: selections_ok_def table_ok_def selection_of_run set_selection_def split: option.splits)

lemma modify_ok:
  assumes "selections_ok d" "\<And>r. ssel_stream_key (f r) = ssel_stream_key r" "\<And>r. ssel_id (f r) = ssel_id r"
  shows "selections_ok (snd (eff_bind (selection_of k) (\<lambda>found. case found of None \<Rightarrow> eff_return ()
      | Some s \<Rightarrow> if P s then eff_return () else set_selection s f) d))"
  unfolding modify_run [OF assms(1)]
  using assms table_ok_update [of ssel_stream_key ssel_id "db_seq d" "db_stream_selections d" f]
  by (simp add: selections_ok_def split: option.split)

lemma modify_row:
  assumes "selections_ok d" "\<And>r. ssel_stream_key (f r) = ssel_stream_key r"
    and "row_of ssel_stream_key (db_stream_selections d) j = Some s"
  shows "row_of ssel_stream_key (db_stream_selections (snd (eff_bind (selection_of k) (\<lambda>found. case found of None \<Rightarrow> eff_return ()
      | Some s \<Rightarrow> if P s then eff_return () else set_selection s f) d))) j =
    Some (if j = k \<and> \<not> P s then f s else s)"
proof (cases "row_of ssel_stream_key (db_stream_selections d) k")
  case None
  then show ?thesis using assms by (auto simp: modify_run)
next
  case (Some r)
  have d: "distinct (map ssel_stream_key (db_stream_selections d))" "distinct (map ssel_id (db_stream_selections d))"
    using assms(1) by (simp_all add: selections_ok_def table_ok_def)
  have r: "r \<in> set (db_stream_selections d)" "ssel_stream_key r = k" using row_of_Some [OF Some] by auto
  show ?thesis
    using row_of_update [of ssel_id _ r ssel_stream_key f, OF d(2) r(1) assms(2) d(1)] assms(3) Some r(2)
    by (auto simp: modify_run [OF assms(1)])
qed

lemmas modify_unguarded = modify_run [where P = "\<lambda>_. False", simplified if_False]
  modify_ok [where P = "\<lambda>_. False", simplified if_False] modify_row [where P = "\<lambda>_. False", simplified if_False]

lemma upsert_step: "selections_ok d \<Longrightarrow> selection_step (Upsert w) d = (return (), snd (selection_upsert w d))"
  using selections.upsert_returns [of d w]
  by (cases "selection_upsert w d"; cases "fst (selection_upsert w d)")
    (auto simp: selections.table_wf_def selections_ok_def eff_bind_def)

lemma delete_row_ok: "selections_ok d \<Longrightarrow> fst (delete_selection_row s d) = return () \<and> selections_ok (snd (delete_selection_row s d))"
  by (auto simp: delete_selection_row_def selections_ok_def table_ok_filter split: option.split)

lemma selection_step_ok:
  assumes "selections_ok d"
  shows "fst (selection_step op d) = return () \<and> selections_ok (snd (selection_step op d))"
proof (cases op)
  case (Upsert w)
  then show ?thesis
    using upsert_step [OF assms, of w] selections.upsert_wf [of d w] assms
    by (simp add: selections.table_wf_def selections_ok_def)
next
  case (SetTorBoxId k t)
  then show ?thesis using assms modify_unguarded(2) [OF assms, where f = "\<lambda>r. r\<lparr>ssel_torbox_torrent_id := t\<rparr>" and k = k]
    by (simp add: update_torbox_id_def modify_unguarded(1))
next
  case (SetTorBoxIdentity k t h)
  then show ?thesis using assms modify_unguarded(2) [OF assms, where f = "\<lambda>r. r\<lparr>ssel_torbox_torrent_id := Some t, ssel_info_hash := (if h \<noteq> None then normalize_info_hash h else ssel_info_hash r)\<rparr>" and k = k]
    by (simp add: update_torbox_identity_def modify_unguarded(1))
next
  case (SetMediaIdentity k t title year poster a)
  then show ?thesis using assms modify_ok [OF assms, where f = "\<lambda>r. r\<lparr>ssel_tmdb_id := Some t, ssel_media_title := Some title,
             ssel_media_year := year, ssel_media_poster_path := poster, ssel_identity_authority := a\<rparr>" and k = k and P = has_authoritative_identity]
    by (simp add: update_media_identity_def modify_run)
next
  case (DeleteSelection k)
  have "distinct (map ssel_stream_key (db_stream_selections d))" using assms by (simp add: selections_ok_def table_ok_def)
  then show ?thesis
    using DeleteSelection assms delete_row_ok
    by (auto simp: selection_delete_def selection_of_run eff_bind_run eff_then_def split: option.split sum.split)
next
  case (DeleteItems ts)
  have "fst (eff_for rs delete_selection_row d) = return () \<and> selections_ok (snd (eff_for rs delete_selection_row d))" for rs
    by (rule eff_for_returns [where Q = selections_ok, OF _ assms]) (rule delete_row_ok)
  then show ?thesis using DeleteItems assms
    by (auto simp: delete_for_torbox_items_def eff_then_def eff_bind_run)
qed

text \<open>What is known about the medium behind a selection.\<close>

definition selection_identity :: "stream_selection \<Rightarrow> string \<times> string \<times> string option \<times> string option \<times> int option \<times> string option \<times> string" where
  "selection_identity s = (ssel_media_type s, ssel_media_id s, ssel_tmdb_id s, ssel_media_title s, ssel_media_year s,
     ssel_media_poster_path s, ssel_identity_authority s)"

definition confirmed :: "string \<Rightarrow> stream_selection \<Rightarrow> db \<Rightarrow> bool" where
  "confirmed k s d \<longleftrightarrow> selections_ok d \<and> (\<exists>r. row_of ssel_stream_key (db_stream_selections d) k = Some r \<and>
     has_authoritative_identity r \<and> selection_identity r = selection_identity s)"

lemma selection_step_confirmed:
  assumes "confirmed k s d" "\<not> deletes op"
  shows "confirmed k s (snd (selection_step op d))"
proof -
  obtain r where d: "selections_ok d" and r: "row_of ssel_stream_key (db_stream_selections d) k = Some r"
    and a: "has_authoritative_identity r" "selection_identity r = selection_identity s"
    using assms(1) by (auto simp: confirmed_def)
  note ok = selection_step_ok [OF d, of op]
  have "\<exists>r'. row_of ssel_stream_key (db_stream_selections (snd (selection_step op d))) k = Some r' \<and>
      has_authoritative_identity r' \<and> selection_identity r' = selection_identity s"
  proof (cases op)
    case (Upsert w)
    have "row_of ssel_stream_key (db_stream_selections (snd (selection_upsert w d))) k =
        Some (if k = sw_stream_key w then rewritten_selection w r else r)"
      using selections.upsert_refines [of d w] d r by (auto simp: selections.table_wf_def selections_ok_def)
    moreover have "has_authoritative_identity (rewritten_selection w r)" "selection_identity (rewritten_selection w r) = selection_identity r"
      using a(1) by (simp_all add: rewritten_selection_def has_authoritative_identity_def selection_identity_def Let_def)
    ultimately show ?thesis using Upsert upsert_step [OF d] a by simp
  next
    case (SetTorBoxId j t)
    then show ?thesis using modify_unguarded(3) [OF d _ r, where f = "\<lambda>r. r\<lparr>ssel_torbox_torrent_id := t\<rparr>" and k = j] a
      by (simp add: update_torbox_id_def has_authoritative_identity_def selection_identity_def)
  next
    case (SetTorBoxIdentity j t h)
    let ?f = "\<lambda>r. r\<lparr>ssel_torbox_torrent_id := Some t,
      ssel_info_hash := (if h \<noteq> None then normalize_info_hash h else ssel_info_hash r)\<rparr>"
    have "row_of ssel_stream_key (db_stream_selections (snd (update_torbox_identity j t h d))) k =
        Some (if k = j then ?f r else r)"
      using modify_unguarded(3) [OF d _ r, where f = ?f and k = j] unfolding update_torbox_identity_def by simp
    then show ?thesis using SetTorBoxIdentity a by (auto simp: has_authoritative_identity_def selection_identity_def)
  next
    case (SetMediaIdentity j t title year poster au)
    then show ?thesis using modify_row [OF d _ r, where f = "\<lambda>r. r\<lparr>ssel_tmdb_id := Some t, ssel_media_title := Some title,
             ssel_media_year := year, ssel_media_poster_path := poster, ssel_identity_authority := au\<rparr>" and k = j and P = has_authoritative_identity] a
      by (simp add: update_media_identity_def)
  qed (use assms(2) in auto)
  with ok show ?thesis by (simp add: confirmed_def)
qed

section \<open>Properties\<close>

text \<open>C33. A confirmed identity stays: once a stream's selection carries a manual or search-confirmed
  identity, no sequence of later selections, TorBox updates and identity updates, for this stream or
  for others, changes the identity it has, and every operation returns.\<close>

theorem confirmed_identity_kept:
  assumes "selections_ok d" "row_of ssel_stream_key (db_stream_selections d) k = Some s"
    and "has_authoritative_identity s" "list_all (\<lambda>op. \<not> deletes op) ops"
  shows "fst (run_selections ops d) = return () \<and>
    (\<exists>r. row_of ssel_stream_key (db_stream_selections (snd (run_selections ops d))) k = Some r \<and>
       selection_identity r = selection_identity s)"
proof -
  have "confirmed k s d" using assms by (simp add: confirmed_def)
  then have "fst (run_selections ops d) = return () \<and> confirmed k s (snd (run_selections ops d))"
    unfolding run_selections_def
  proof (rule eff_for_returns [rotated])
    fix op and d :: db assume "op \<in> set ops" "confirmed k s d"
    then show "fst (selection_step op d) = Inr () \<and> confirmed k s (snd (selection_step op d))"
      using assms(4) selection_step_ok [of d op] selection_step_confirmed [of k s d op]
      by (auto simp: confirmed_def list_all_iff)
  qed
  then show ?thesis by (auto simp: confirmed_def)
qed

text \<open>C34. The repository is a map from stream keys to selections: from the empty database on, after any
  operations (deletions included), an upsert returns, replaces or creates the entry of its key with
  exactly the written values, leaves every other key alone, and reading the key back gives the
  record that the upsert returned.\<close>

theorem selection_upsert_refines:
  assumes "snd (run_selections ops empty_db) = d"
  shows "(\<exists>rec. fst (selection_upsert w d) = return rec \<and>
      fst (selection_get (sw_stream_key w) (snd (selection_upsert w d))) = return (Some rec)) \<and>
    row_of ssel_stream_key (db_stream_selections (snd (selection_upsert w d))) =
      (row_of ssel_stream_key (db_stream_selections d))(sw_stream_key w :=
        Some (case row_of ssel_stream_key (db_stream_selections d) (sw_stream_key w) of
          None \<Rightarrow> new_selection (db_seq d) w | Some r \<Rightarrow> rewritten_selection w r))"
proof -
  have "selections_ok empty_db" by (simp add: selections_ok_def table_ok_def empty_db_def)
  then have ok: "selections_ok d"
    using assms eff_for_keeps [where Q = selections_ok and f = selection_step and xs = ops] selection_step_ok
    by (auto simp: run_selections_def)
  then have wf: "selections.table_wf d" by (simp add: selections.table_wf_def selections_ok_def)
  have d: "distinct (map ssel_stream_key (db_stream_selections d))" using ok by (simp add: selections_ok_def table_ok_def)
  have d': "distinct (map ssel_stream_key (db_stream_selections (snd (selection_upsert w d))))"
    using selections.upsert_wf [OF wf, of w] by (simp add: selections.table_wf_def table_ok_def)
  note refines = selections.upsert_refines [OF wf, of w]
  have "fst (selection_upsert w d) = return (selection_record
      (case row_of ssel_stream_key (db_stream_selections d) (sw_stream_key w) of
          None \<Rightarrow> new_selection (db_seq d) w | Some r \<Rightarrow> rewritten_selection w r))"
    by (simp add: selection_upsert_def selection_of_run [OF d] set_selection_def eff_then_def split: option.split)
  moreover have "fst (selection_get (sw_stream_key w) (snd (selection_upsert w d))) =
      return (map_option selection_record (row_of ssel_stream_key
        (db_stream_selections (snd (selection_upsert w d))) (sw_stream_key w)))"
    by (simp add: selection_get_def selection_of_run [OF d'])
  ultimately show ?thesis using refines by simp
qed

text \<open>Removing a title removes its folder and nothing beside it: exactly the generated files at the
  prefix or below it lose their rows, their number is returned, and the characters that mean
  something to SQL's LIKE mean nothing special in a prefix.\<close>

theorem generated_files_removed:
  "fst (remove_generated_files p d) = return (length (filter (\<lambda>g. gf_relative_path g = p \<or>
      startswith (gf_relative_path g) (p @ ''/'')) (db_generated_files d))) \<and>
   db_generated_files (snd (remove_generated_files p d)) =
     filter (\<lambda>g. \<not> (gf_relative_path g = p \<or> startswith (gf_relative_path g) (p @ ''/''))) (db_generated_files d) \<and>
   snd (remove_generated_files p d) = d\<lparr>db_generated_files := db_generated_files (snd (remove_generated_files p d))\<rparr>"
  by (simp add: remove_generated_files_def path_within_prefix_iff)

definition demo_write :: "string \<Rightarrow> string \<Rightarrow> stream_selection_write" where
  "demo_write title authority = \<lparr>sw_stream_key = ''k'', sw_media_type = ''movie'', sw_media_id = ''tt1'', sw_title = title,
     sw_source_name = None, sw_info_hash = None, sw_torbox_torrent_id = Some ''7'', sw_tmdb_id = Some title,
     sw_media_title = Some title, sw_media_year = None, sw_media_poster_path = None,
     sw_identity_authority = authority, sw_status = ''selected''\<rparr>"

theorem confirmed_identity_kept_witness:
  "\<exists>r. row_of ssel_stream_key (db_stream_selections (snd (run_selections [Upsert (demo_write ''Other'' ''manual''),
      SetMediaIdentity ''k'' ''9'' ''x'' None None ''manual'']
      (snd (selection_upsert (demo_write ''Up'' ''search_confirmed'') empty_db))))) ''k'' = Some r \<and> ssel_tmdb_id r = Some ''Up''"
proof -
  let ?d = "snd (selection_upsert (demo_write ''Up'' ''search_confirmed'') empty_db)"
  let ?s = "new_selection 1 (demo_write ''Up'' ''search_confirmed'')"
  have d: "db_stream_selections ?d = [?s]" "db_seq ?d = 2"
    by (simp_all add: selection_upsert_def selection_of_def empty_db_def eff_then_def eff_bind_def)
  have "selections_ok ?d" by (simp add: selections_ok_def table_ok_def d new_selection_def)
  moreover have "row_of ssel_stream_key (db_stream_selections ?d) ''k'' = Some ?s"
    by (simp add: d row_of_def) (simp add: new_selection_def demo_write_def)
  moreover have "has_authoritative_identity ?s"
    by (simp add: has_authoritative_identity_def new_selection_def demo_write_def)
  ultimately obtain r where r: "row_of ssel_stream_key (db_stream_selections (snd (run_selections
      [Upsert (demo_write ''Other'' ''manual''), SetMediaIdentity ''k'' ''9'' ''x'' None None ''manual''] ?d))) ''k'' = Some r"
    "selection_identity r = selection_identity ?s"
    using confirmed_identity_kept [of ?d "''k''" ?s "[Upsert (demo_write ''Other'' ''manual''),
      SetMediaIdentity ''k'' ''9'' ''x'' None None ''manual'']"] by auto
  then have "ssel_tmdb_id r = Some ''Up''"
    by (simp add: selection_identity_def) (simp add: new_selection_def demo_write_def)
  with r show ?thesis by blast
qed

theorem selection_upsert_refines_witness:
  "\<exists>rec. fst (selection_upsert (demo_write ''B'' ''manual'') (snd (run_selections
     [Upsert (demo_write ''A'' ''fallback''), DeleteSelection ''k''] empty_db))) = return rec"
  using selection_upsert_refines [OF refl, of "demo_write ''B'' ''manual''"
    "[Upsert (demo_write ''A'' ''fallback''), DeleteSelection ''k'']"] by blast

end
