(* ===== verification/IdentityInputs.thy ===== *)
theory IdentityInputs
  imports IdentityMatch IdentityRepo Selections
begin

text \<open>
  The identities a synchronisation starts with (api/app/sync/identity_inputs.py): those of the streams a
  user selected, merged with the stored ones of sources and titles. The dictionaries the code
  changes in place are values here, taken and returned; \<open>update_media_identity\<close> runs on the database
  of the resolver's session.
\<close>

record identity_inputs =
  ii_by_torrent_id :: "(string, media_identity) odict"
  ii_by_info_hash :: "(string, media_identity) odict"
  ii_by_alias :: "(string \<times> string, media_identity) odict"

definition text_or :: "string option \<Rightarrow> string option \<Rightarrow> string option" where
  "text_or a b = (case a of Some (c # cs) \<Rightarrow> a | _ \<Rightarrow> b)"

section \<open>Stored identities\<close>

text \<open>\<open>_media_identity\<close>; the enums' constructors may raise.\<close>

definition stored_identity :: "persisted_identity \<Rightarrow> media_identity result" where
  "stored_identity p =
     bind_res (parse_authority (pi_authority p)) (\<lambda>authority.
     bind_res (case pi_library_category p of None \<Rightarrow> return None
       | Some c \<Rightarrow> bind_res (parse_library_category c) (\<lambda>c. return (Some c))) (\<lambda>category.
     return \<lparr>md_tmdb_id = pi_tmdb_id p, md_title = pi_title p, md_year = pi_year p,
       md_media_type = the (text_or (pi_provider_media_kind p)
         (Some (if pi_content_kind p = ''movie'' then ''movie'' else ''tv''))),
       md_poster_path = pi_poster_path p, md_authority = authority, md_status = Resolved, md_confidence = pi_confidence p,
       md_resolver_version = the (text_or (pi_resolver_version p) (Some ''persisted-v1'')), md_library_category = category\<rparr>))"

definition stored_media_identity :: "stream_selection_record \<Rightarrow> media_identity option result" where
  "stored_media_identity s = (case (sr_tmdb_id s, sr_media_title s) of
     (Some t, Some title) \<Rightarrow> bind_res (parse_authority (sr_identity_authority s)) (\<lambda>authority.
       return (Some ((media_identity_of (Some t) title (sr_media_year s) (if sr_media_type s = ''movie'' then ''movie'' else ''tv''))
         \<lparr>md_poster_path := sr_media_poster_path s, md_authority := authority,
          md_confidence := (if authoritative authority then Some 100 else None)\<rparr>)))
   | _ \<Rightarrow> return None)"

abbreviation strength :: "media_identity \<Rightarrow> nat" where
  "strength i \<equiv> identity_authority_priority (md_authority i)"

definition merge_source_identity :: "(string, media_identity) odict \<Rightarrow> string \<Rightarrow> media_identity \<Rightarrow> (string, media_identity) odict" where
  "merge_source_identity identities source_key i = (case map_of identities source_key of
     None \<Rightarrow> AList.update source_key i identities
   | Some current \<Rightarrow> if strength current \<le> strength i then AList.update source_key i identities else identities)"

text \<open>The key a record has in a dictionary of identities.\<close>

definition torrent_key :: "source_identity_binding \<Rightarrow> string option" where
  "torrent_key r = (if sib_source_kind r = ''torrents'' then sib_source_item_id r else None)"

definition hash_key :: "source_identity_binding \<Rightarrow> string option" where
  "hash_key r = map_option casefold (sib_info_hash r)"

definition known_at :: "(string, media_identity) odict \<Rightarrow> string option \<Rightarrow> media_identity list" where
  "known_at identities key = (case key of None \<Rightarrow> [] | Some k \<Rightarrow> (case map_of identities k of None \<Rightarrow> [] | Some i \<Rightarrow> [i]))"

definition merge_at :: "(string, media_identity) odict \<Rightarrow> string option \<Rightarrow> media_identity \<Rightarrow> (string, media_identity) odict" where
  "merge_at identities key i = (case key of None \<Rightarrow> identities | Some k \<Rightarrow> merge_source_identity identities k i)"

fun merge_source_bindings :: "(string, media_identity) odict \<Rightarrow> (string, media_identity) odict \<Rightarrow> source_identity_binding list \<Rightarrow>
    ((string, media_identity) odict \<times> (string, media_identity) odict) result" where
  "merge_source_bindings by_torrent_id by_info_hash [] = return (by_torrent_id, by_info_hash)"
| "merge_source_bindings by_torrent_id by_info_hash (r # rs) =
     bind_res (stored_identity (sib_identity r)) (\<lambda>stored.
       let i = max_by strength stored (known_at by_torrent_id (torrent_key r) @ known_at by_info_hash (hash_key r))
       in merge_source_bindings (merge_at by_torrent_id (torrent_key r) i) (merge_at by_info_hash (hash_key r) i) rs)"

text \<open>The first of the strongest candidates of a title, if they all belong to one item.\<close>

definition unique_winner :: "(int \<times> media_identity) list \<Rightarrow> media_identity option" where
  "unique_winner cs = (let highest = Max (set (map (strength \<circ> snd) cs));
       winners = filter (\<lambda>c. strength (snd c) = highest) cs
     in if length (remdups (map fst winners)) = 1 then Some (snd (hd winners)) else None)"

definition alias_identities :: "alias_identity_binding list \<Rightarrow> (string \<times> string, media_identity) odict result" where
  "alias_identities bindings =
     bind_res (mapM (\<lambda>b. bind_res (stored_identity (aib_identity b)) (\<lambda>i. return (b, i))) bindings) (\<lambda>bis.
     return (List.map_filter (\<lambda>(key, group). map_option (Pair key)
         (unique_winner (map (\<lambda>(b, i). (pi_media_item_id (aib_identity b), i)) group)))
       (group_by (\<lambda>(b, i). (pi_content_kind (aib_identity b), aib_normalized_alias b)) bis)))"

section \<open>Selected streams\<close>

type_synonym external_memory = "(string \<times> string, media_identity option) odict"

text \<open>The value of \<open>_selection_media_identity\<close> and the dictionary it fills.\<close>

definition selection_media_identity :: "'w resolver_env \<Rightarrow> stream_selection_record \<Rightarrow> external_memory \<Rightarrow>
    ('w, media_identity option \<times> external_memory) resolver" where
  "selection_media_identity env s memory = eff_bind (eff_lift (stored_media_identity s)) (\<lambda>stored. case stored of
     Some i \<Rightarrow> eff_return (Some i, memory)
   | None \<Rightarrow>
       let external_id = takeWhile (\<lambda>c. c \<noteq> CHR '':'') (sr_media_id s); key = (external_id, sr_media_type s)
       in eff_bind (case map_of memory key of
             Some i \<Rightarrow> eff_return (i, memory)
           | None \<Rightarrow> eff_bind (resolve_external_id env external_id (sr_media_type s)) (\<lambda>i. eff_return (i, AList.update key i memory)))
          (\<lambda>(i, memory). case i of
             None \<Rightarrow> eff_return (None, memory)
           | Some j \<Rightarrow> (case md_tmdb_id j of
               None \<Rightarrow> eff_return (i, memory)
             | Some t \<Rightarrow> eff_then (in_metadata (on_db (update_media_identity (sr_stream_key s) t (md_title j) (md_year j)
                   (md_poster_path j) (authority_str SearchConfirmed))))
                 (eff_return (Some (j\<lparr>md_authority := SearchConfirmed\<rparr>), memory)))))"

definition selected_step :: "'w resolver_env \<Rightarrow> (string, media_identity) odict \<times> (string, media_identity) odict \<times> external_memory \<Rightarrow>
    stream_selection_record \<Rightarrow> ('w, (string, media_identity) odict \<times> (string, media_identity) odict \<times> external_memory) resolver" where
  "selected_step env = (\<lambda>(by_torrent_id, by_info_hash, memory) s.
     eff_bind (selection_media_identity env s memory) (\<lambda>(i, memory). eff_return (case i of
         None \<Rightarrow> (by_torrent_id, by_info_hash, memory)
       | Some i \<Rightarrow> if md_tmdb_id i = None then (by_torrent_id, by_info_hash, memory) else
           (case sr_torbox_torrent_id s of None \<Rightarrow> by_torrent_id | Some t \<Rightarrow> AList.update t i by_torrent_id,
            case sr_info_hash s of None \<Rightarrow> by_info_hash | Some h \<Rightarrow> AList.update (casefold h) i by_info_hash,
            memory))))"

definition selected_media_identities :: "'w resolver_env \<Rightarrow> stream_selection_record list \<Rightarrow>
    ('w, (string, media_identity) odict \<times> (string, media_identity) odict) resolver" where
  "selected_media_identities env selections =
     eff_bind (eff_fold (selected_step env) ([], [], []) selections) (\<lambda>(by_torrent_id, by_info_hash, memory).
       eff_return (by_torrent_id, by_info_hash))"

section \<open>Missing metadata\<close>

definition enriched :: "media_identity \<Rightarrow> media_identity \<Rightarrow> media_identity" where
  "enriched i metadata = i\<lparr>md_year := (if md_year i \<noteq> None then md_year i else md_year metadata),
     md_poster_path := text_or (md_poster_path i) (md_poster_path metadata)\<rparr>"

definition enrich_one :: "'w resolver_env \<Rightarrow> external_memory \<times> ('k, media_identity) odict \<Rightarrow> 'k \<times> media_identity \<Rightarrow>
    ('w, external_memory \<times> ('k, media_identity) odict) resolver" where
  "enrich_one env = (\<lambda>(memory, identities) (key, i). case md_tmdb_id i of
     None \<Rightarrow> eff_return (memory, identities)
   | Some t \<Rightarrow> if md_year i \<noteq> None \<and> md_poster_path i \<noteq> None then eff_return (memory, identities)
       else eff_bind (case map_of memory (t, md_media_type i) of
           Some m \<Rightarrow> eff_return (m, memory)
         | None \<Rightarrow> eff_bind (metadata_for_tmdb_id env t (md_media_type i)) (\<lambda>m.
             eff_return (m, AList.update (t, md_media_type i) m memory)))
         (\<lambda>(m, memory). eff_return (memory, case m of
            None \<Rightarrow> identities | Some metadata \<Rightarrow> AList.update key (enriched i metadata) identities)))"

definition enrich_map :: "'w resolver_env \<Rightarrow> external_memory \<Rightarrow> ('k, media_identity) odict \<Rightarrow>
    ('w, external_memory \<times> ('k, media_identity) odict) resolver" where
  "enrich_map env memory identities = eff_fold (enrich_one env) (memory, identities) identities"

definition enrich_missing_metadata :: "'w resolver_env \<Rightarrow> identity_inputs \<Rightarrow> ('w, identity_inputs) resolver" where
  "enrich_missing_metadata env ii =
     eff_bind (enrich_map env [] (ii_by_torrent_id ii)) (\<lambda>(memory, by_torrent_id).
     eff_bind (enrich_map env memory (ii_by_info_hash ii)) (\<lambda>(memory, by_info_hash).
     eff_bind (enrich_map env memory (ii_by_alias ii)) (\<lambda>(memory, by_alias).
     eff_return \<lparr>ii_by_torrent_id = by_torrent_id, ii_by_info_hash = by_info_hash, ii_by_alias = by_alias\<rparr>)))"

definition gather_identity_inputs :: "'w resolver_env \<Rightarrow> stream_selection_record list \<Rightarrow> bool \<Rightarrow> ('w, identity_inputs) resolver" where
  "gather_identity_inputs env selected_streams enrich =
     eff_bind (selected_media_identities env selected_streams) (\<lambda>(by_torrent_id, by_info_hash).
     eff_bind (in_metadata (on_db source_bindings)) (\<lambda>persisted.
     eff_bind (eff_lift (merge_source_bindings by_torrent_id by_info_hash persisted)) (\<lambda>(by_torrent_id, by_info_hash).
     eff_bind (in_metadata (on_db alias_bindings)) (\<lambda>bindings.
     eff_bind (eff_lift (alias_identities bindings)) (\<lambda>by_alias.
     let ii = \<lparr>ii_by_torrent_id = by_torrent_id, ii_by_info_hash = by_info_hash, ii_by_alias = by_alias\<rparr>
     in if enrich then enrich_missing_metadata env ii else eff_return ii)))))"

section \<open>The strongest identity\<close>

lemma map_of_merge_source: "map_of (merge_source_identity d k i) =
    (case map_of d k of None \<Rightarrow> (map_of d)(k \<mapsto> i)
     | Some c \<Rightarrow> if strength c \<le> strength i then (map_of d)(k \<mapsto> i) else map_of d)"
  by (simp add: merge_source_identity_def update_conv' split: option.split)

text \<open>Every key has at least as strong an identity as before, and the merged key one as strong as the merged one.\<close>

definition stronger :: "(string, media_identity) odict \<Rightarrow> (string, media_identity) odict \<Rightarrow> bool" where
  "stronger d e \<longleftrightarrow> (\<forall>k i. map_of d k = Some i \<longrightarrow> (\<exists>j. map_of e k = Some j \<and> strength i \<le> strength j))"

definition holds_at :: "(string, media_identity) odict \<Rightarrow> string option \<Rightarrow> nat \<Rightarrow> bool" where
  "holds_at d key n \<longleftrightarrow> (\<forall>k. key = Some k \<longrightarrow> (\<exists>j. map_of d k = Some j \<and> n \<le> strength j))"

lemma stronger_refl [simp]: "stronger d d" by (simp add: stronger_def)

lemma stronger_trans: "stronger d e \<Longrightarrow> stronger e f \<Longrightarrow> stronger d f"
  unfolding stronger_def by (meson le_trans)

lemma holds_stronger: "holds_at d key n \<Longrightarrow> stronger d e \<Longrightarrow> holds_at e key n"
  unfolding stronger_def holds_at_def
proof (intro allI impI)
  fix k assume a: "\<forall>k. key = Some k \<longrightarrow> (\<exists>j. map_of d k = Some j \<and> n \<le> strength j)"
    "\<forall>k i. map_of d k = Some i \<longrightarrow> (\<exists>j. map_of e k = Some j \<and> strength i \<le> strength j)" "key = Some k"
  then obtain i where i: "map_of d k = Some i" "n \<le> strength i" by blast
  then obtain j where "map_of e k = Some j" "strength i \<le> strength j" using a(2) by blast
  then show "\<exists>j. map_of e k = Some j \<and> n \<le> strength j" using i(2) by (auto intro: le_trans)
qed

lemma merge_at_stronger: "stronger d (merge_at d key i)" "n \<le> strength i \<Longrightarrow> holds_at (merge_at d key i) key n"
  by (auto simp: merge_at_def stronger_def holds_at_def map_of_merge_source split: option.split)

lemma merge_at_values: "ran (map_of (merge_at d key i)) \<subseteq> insert i (ran (map_of d))"
  by (auto simp: merge_at_def ran_def map_of_merge_source split: option.splits if_splits)

lemma merge_bindings_strongest:
  assumes "\<And>r. r \<in> set rs \<Longrightarrow> stored_identity (sib_identity r) = return (f r)"
  shows "\<exists>bt' bh'. merge_source_bindings bt bh rs = return (bt', bh') \<and> stronger bt bt' \<and> stronger bh bh' \<and>
    (\<forall>r \<in> set rs. holds_at bt' (torrent_key r) (strength (f r)) \<and> holds_at bh' (hash_key r) (strength (f r))) \<and>
    ran (map_of bt') \<union> ran (map_of bh') \<subseteq> ran (map_of bt) \<union> ran (map_of bh) \<union> f ` set rs"
  using assms
proof (induction rs arbitrary: bt bh)
  case (Cons r rs)
  let ?known = "known_at bt (torrent_key r) @ known_at bh (hash_key r)"
  define i where "i = max_by strength (f r) ?known"
  have i: "strength (f r) \<le> strength i" unfolding i_def by (rule max_by_above)
  have "i \<in> insert (f r) (set ?known)" unfolding i_def by (rule max_by_in)
  moreover have "set ?known \<subseteq> ran (map_of bt) \<union> ran (map_of bh)"
    by (auto simp: known_at_def ran_def split: option.splits)
  ultimately have v: "i \<in> insert (f r) (ran (map_of bt) \<union> ran (map_of bh))" by blast
  obtain bt' bh' where m: "merge_source_bindings (merge_at bt (torrent_key r) i) (merge_at bh (hash_key r) i) rs = return (bt', bh')"
    "stronger (merge_at bt (torrent_key r) i) bt'" "stronger (merge_at bh (hash_key r) i) bh'"
    "\<forall>r \<in> set rs. holds_at bt' (torrent_key r) (strength (f r)) \<and> holds_at bh' (hash_key r) (strength (f r))"
    "ran (map_of bt') \<union> ran (map_of bh') \<subseteq> ran (map_of (merge_at bt (torrent_key r) i)) \<union>
       ran (map_of (merge_at bh (hash_key r) i)) \<union> f ` set rs"
    using Cons.IH [of "merge_at bt (torrent_key r) i" "merge_at bh (hash_key r) i"] Cons.prems by auto
  have "merge_source_bindings bt bh (r # rs) = return (bt', bh')"
    using m(1) Cons.prems [of r] by (simp add: Let_def flip: i_def)
  moreover have "stronger bt bt'" "stronger bh bh'"
    using stronger_trans merge_at_stronger(1) m(2,3) by blast+
  moreover have "holds_at bt' (torrent_key r) (strength (f r))" "holds_at bh' (hash_key r) (strength (f r))"
    using holds_stronger merge_at_stronger(2) [OF i] m(2,3) by blast+
  moreover have "ran (map_of bt') \<union> ran (map_of bh') \<subseteq> ran (map_of bt) \<union> ran (map_of bh) \<union> f ` set (r # rs)"
    using m(5) v merge_at_values [of bt "torrent_key r" i] merge_at_values [of bh "hash_key r" i] by auto
  ultimately show ?case using m(4) by auto
qed simp

section \<open>Titles\<close>

definition binding_key :: "alias_identity_binding \<Rightarrow> string \<times> string" where
  "binding_key b = (pi_content_kind (aib_identity b), aib_normalized_alias b)"

definition binding_owner :: "alias_identity_binding \<Rightarrow> int" where
  "binding_owner b = pi_media_item_id (aib_identity b)"

text \<open>What a title names, said directly: the bindings of the title than which none is stronger; if they
  belong to one item, the identity of the first.\<close>

definition alias_reference :: "(alias_identity_binding \<times> media_identity) list \<Rightarrow> string \<times> string \<Rightarrow> media_identity option" where
  "alias_reference bis key =
     (case filter (\<lambda>(b, i). binding_key b = key \<and>
         (\<forall>(c, j) \<in> set bis. binding_key c = key \<longrightarrow> strength j \<le> strength i)) bis of
        [] \<Rightarrow> None
      | (b, i) # rest \<Rightarrow> if \<forall>(c, j) \<in> set rest. binding_owner c = binding_owner b then Some i else None)"

lemma one_value: "length (remdups xs) = 1 \<longleftrightarrow> (case xs of [] \<Rightarrow> False | y # ys \<Rightarrow> \<forall>z \<in> set ys. z = y)"
proof (cases xs)
  case (Cons y ys)
  have "length (remdups xs) = card (set xs)" by (rule length_remdups_card_conv)
  also have "\<dots> = 1 \<longleftrightarrow> (\<forall>z \<in> set ys. z = y)"
    using Cons by (auto simp: card_1_singleton_iff)
  finally show ?thesis using Cons by simp
qed simp

lemma unique_winner_reference:
  assumes "key \<in> (\<lambda>(b, i). binding_key b) ` set bis"
  shows "unique_winner (map (\<lambda>(b, i). (binding_owner b, i)) (filter (\<lambda>(b, i). binding_key b = key) bis)) = alias_reference bis key"
proof -
  define gs where "gs = filter (\<lambda>(b, i). binding_key b = key) bis"
  define own where "own = (\<lambda>(b, i :: media_identity). (binding_owner b, i))"
  have ne: "gs \<noteq> []" using assms by (auto simp: gs_def filter_empty_conv)
  have str: "(strength \<circ> snd) \<circ> own = strength \<circ> snd" by (auto simp: own_def)
  let ?hi = "Max (set (map (strength \<circ> snd) (map own gs)))"
  have hi: "?hi = Max ((strength \<circ> snd) ` set gs)" by (simp add: image_image own_def case_prod_unfold comp_def)
  have top: "strength (snd p) = ?hi \<longleftrightarrow> (\<forall>q \<in> set gs. strength (snd q) \<le> strength (snd p))" if "p \<in> set gs" for p
  proof -
    have "strength (snd p) = ?hi \<longleftrightarrow> ?hi \<le> strength (snd p)"
    proof -
      have "(strength \<circ> snd) p \<in> (strength \<circ> snd) ` set gs" using that by (rule imageI)
      then have "strength (snd p) \<le> ?hi" unfolding hi using Max_ge [of "(strength \<circ> snd) ` set gs" "(strength \<circ> snd) p"] by simp
      then show ?thesis by linarith
    qed
    also have "\<dots> \<longleftrightarrow> (\<forall>q \<in> set gs. strength (snd q) \<le> strength (snd p))"
      unfolding hi using ne by (simp add: Max_le_iff)
    finally show ?thesis .
  qed
  define ws where "ws = filter (\<lambda>p. strength (snd p) = ?hi) gs"
  have winners: "filter (\<lambda>c. strength (snd c) = ?hi) (map own gs) = map own ws"
    by (simp add: ws_def filter_map comp_def own_def case_prod_unfold)
  have ref: "filter (\<lambda>(b, i). binding_key b = key \<and> (\<forall>(c, j) \<in> set bis. binding_key c = key \<longrightarrow> strength j \<le> strength i)) bis = ws"
    unfolding ws_def gs_def filter_filter
    by (rule filter_cong [OF refl]) (use top in \<open>auto simp: gs_def\<close>)
  have "unique_winner (map own gs) = (if length (remdups (map fst (map own ws))) = 1 then Some (snd (hd (map own ws))) else None)"
    unfolding unique_winner_def Let_def winners ..
  also have "\<dots> = alias_reference bis key"
    unfolding alias_reference_def ref one_value
    by (cases ws) (auto simp: own_def case_prod_unfold)
  finally show ?thesis by (simp add: gs_def own_def)
qed

lemma map_of_map_filter:
  assumes "distinct (map fst d)"
  shows "map_of (List.map_filter (\<lambda>(k, v). map_option (Pair k) (f v)) d) k = Option.bind (map_of d k) f"
  using assms
proof (induction d)
  case Nil
  then show ?case by (simp add: List.map_filter_def)
next
  case (Cons kv d)
  obtain k' v where kv: "kv = (k', v)" by force
  have none: "map_of d k' = None" using Cons.prems kv by (simp add: map_of_eq_None_iff)
  show ?case
  proof (cases "f v")
    case None
    then have "List.map_filter (\<lambda>(k, v). map_option (Pair k) (f v)) (kv # d) = List.map_filter (\<lambda>(k, v). map_option (Pair k) (f v)) d"
      by (simp add: kv List.map_filter_def)
    then show ?thesis using Cons kv None none by auto
  next
    case (Some w)
    then have "List.map_filter (\<lambda>(k, v). map_option (Pair k) (f v)) (kv # d) = (k', w) # List.map_filter (\<lambda>(k, v). map_option (Pair k) (f v)) d"
      by (simp add: kv List.map_filter_def)
    then show ?thesis using Cons kv Some by auto
  qed
qed

lemma alias_reference_none: "key \<notin> (\<lambda>(b, i). binding_key b) ` set bis \<Longrightarrow> alias_reference bis key = None"
proof -
  assume "key \<notin> (\<lambda>(b, i). binding_key b) ` set bis"
  then have "filter (\<lambda>(b, i). binding_key b = key \<and> Q b i) bis = []" for Q by (force simp: filter_empty_conv)
  then show ?thesis by (simp add: alias_reference_def)
qed

text \<open>C19. The grouping pass that finds what the known titles name agrees with the direct definition, for every title: the
  bindings of highest authority decide, and a title that they give to two different items names nothing.\<close>

theorem alias_identities_equivalent:
  assumes "\<And>b. b \<in> set bindings \<Longrightarrow> stored_identity (aib_identity b) = return (f b)"
  shows "\<exists>d. alias_identities bindings = return d \<and>
    (\<forall>key. map_of d key = alias_reference (map (\<lambda>b. (b, f b)) bindings) key)"
proof -
  let ?bis = "map (\<lambda>b. (b, f b)) bindings"
  have m: "mapM (\<lambda>b. bind_res (stored_identity (aib_identity b)) (\<lambda>i. return (b, i))) bindings = return ?bis"
    using assms by (intro mapM_ok) simp
  let ?gs = "group_by (\<lambda>(b, i). binding_key b) ?bis"
  have eq: "(\<lambda>(b :: alias_identity_binding, i :: media_identity). (pi_content_kind (aib_identity b), aib_normalized_alias b)) = (\<lambda>(b, i). binding_key b)"
    "(\<lambda>(b :: alias_identity_binding, i :: media_identity). (pi_media_item_id (aib_identity b), i)) = (\<lambda>(b, i). (binding_owner b, i))"
    by (auto simp: binding_key_def binding_owner_def fun_eq_iff)
  let ?d = "List.map_filter (\<lambda>(key, group). map_option (Pair key) (unique_winner (map (\<lambda>(b, i). (binding_owner b, i)) group))) ?gs"
  have "alias_identities bindings = return ?d" by (simp add: alias_identities_def m eq)
  moreover have "map_of ?d key = alias_reference ?bis key" for key
  proof -
    have "distinct (map fst ?gs)" using group_by_ok [of "\<lambda>(b, i). binding_key b" ?bis] by (simp add: od_ok_def)
    then have "map_of ?d key = Option.bind (map_of ?gs key) (\<lambda>group. unique_winner (map (\<lambda>(b, i). (binding_owner b, i)) group))"
      by (rule map_of_map_filter [where f = "\<lambda>group. unique_winner (map (\<lambda>(b, i). (binding_owner b, i)) group)"])
    also have "\<dots> = alias_reference ?bis key"
      unfolding group_by_lookup using unique_winner_reference [of key ?bis] alias_reference_none [of key ?bis]
      by (auto simp: case_prod_unfold)
    finally show ?thesis .
  qed
  ultimately show ?thesis by blast
qed

text \<open>C20. Merging the stored bindings of sources into the selected identities never weakens what is known: every source keeps
  an identity at least as authoritative as before, every stored binding's source ends with one at least as authoritative as
  the binding, and no identity is made up.\<close>

theorem source_bindings_merged:
  assumes "\<And>r. r \<in> set rs \<Longrightarrow> stored_identity (sib_identity r) = return (f r)"
  shows "\<exists>bt' bh'. merge_source_bindings bt bh rs = return (bt', bh') \<and> stronger bt bt' \<and> stronger bh bh' \<and>
    (\<forall>r \<in> set rs. holds_at bt' (torrent_key r) (strength (f r)) \<and> holds_at bh' (hash_key r) (strength (f r))) \<and>
    ran (map_of bt') \<union> ran (map_of bh') \<subseteq> ran (map_of bt) \<union> ran (map_of bh) \<union> f ` set rs"
  using merge_bindings_strongest [OF assms] .

section \<open>Enriching\<close>

text \<open>An identity with a year or a poster filled in.\<close>

definition fills :: "media_identity \<Rightarrow> media_identity \<Rightarrow> bool" where
  "fills i j \<longleftrightarrow> (\<exists>y p. j = i\<lparr>md_year := y, md_poster_path := p\<rparr> \<and> (md_year i \<noteq> None \<longrightarrow> y = md_year i) \<and>
     (md_poster_path i \<noteq> None \<and> md_poster_path i \<noteq> Some [] \<longrightarrow> p = md_poster_path i))"

lemma fills_refl [simp]: "fills i i"
  unfolding fills_def by (intro exI [of _ "md_year i"] exI [of _ "md_poster_path i"]) simp

lemma fills_enriched [simp]: "fills i (enriched i m)"
  unfolding fills_def enriched_def
  by (intro exI [of _ "if md_year i \<noteq> None then md_year i else md_year m"] exI [of _ "text_or (md_poster_path i) (md_poster_path m)"])
    (auto simp: text_or_def split: option.splits list.splits)

definition filled :: "('k, media_identity) odict \<Rightarrow> ('k, media_identity) odict \<Rightarrow> bool" where
  "filled d e \<longleftrightarrow> dom (map_of e) = dom (map_of d) \<and> (\<forall>k i j. map_of d k = Some i \<and> map_of e k = Some j \<longrightarrow> fills i j)"

lemma ensures_metadata:
  assumes "transport_ok (rv_metadata env)"
  shows "ensures (\<lambda>_. False) (\<lambda>_. True) (metadata_for_tmdb_id env t k)"
  unfolding metadata_for_tmdb_id_def
  by (auto split: option.split intro!: ensures_catch [where P = any_exception] ensures_bind [where R = "\<lambda>_. True"]
      ensures_get_json [OF assms])

lemma ensures_enrich_one:
  assumes "transport_ok (rv_metadata env)" "map_of d k = Some i" "filled d (snd acc)"
  shows "ensures (\<lambda>_. False) (\<lambda>acc. filled d (snd acc)) (enrich_one env acc (k, i))"
proof -
  obtain memory e where acc: "acc = (memory, e)" by force
  have upd: "filled d (AList.update k (enriched i m) e)" for m
    using assms(2,3) by (auto simp: filled_def acc update_conv' split: if_splits)
  have look: "ensures (\<lambda>_. False) (\<lambda>_. True) (case map_of memory (t, md_media_type i) of
           Some m \<Rightarrow> eff_return (m, memory)
         | None \<Rightarrow> eff_bind (metadata_for_tmdb_id env t (md_media_type i)) (\<lambda>m.
             eff_return (m, AList.update (t, md_media_type i) m memory)))" for t
    by (auto split: option.split intro!: ensures_bind [OF ensures_metadata [OF assms(1)]])
  have step: "ensures (\<lambda>_. False) (\<lambda>acc. filled d (snd acc)) (eff_bind (case map_of memory (t, md_media_type i) of
           Some m \<Rightarrow> eff_return (m, memory)
         | None \<Rightarrow> eff_bind (metadata_for_tmdb_id env t (md_media_type i)) (\<lambda>m.
             eff_return (m, AList.update (t, md_media_type i) m memory)))
       (\<lambda>(m, memory). eff_return (memory, case m of
            None \<Rightarrow> e | Some metadata \<Rightarrow> AList.update k (enriched i metadata) e)))" for t
    using assms(3) upd by (intro ensures_bind [OF look]) (auto simp: acc split: option.split)
  show ?thesis
    using assms(3) step unfolding enrich_one_def acc prod.case by (simp split: option.split)
qed

lemma ensures_enrich_map:
  assumes "transport_ok (rv_metadata env)" "od_ok d"
  shows "ensures (\<lambda>_. False) (\<lambda>acc. filled d (snd acc)) (enrich_map env memory d)"
proof -
  have "filled d (snd (memory, d))" by (auto simp: filled_def)
  moreover have "ensures (\<lambda>_. False) (\<lambda>acc. filled d (snd acc)) (enrich_one env acc x)"
    if "filled d (snd acc)" "x \<in> set d" for acc x
  proof -
    obtain k i where x: "x = (k, i)" by force
    then have "map_of d k = Some i" using that(2) assms(2) by (simp add: od_ok_def)
    from ensures_enrich_one [OF assms(1) this that(1)] show ?thesis by (simp add: x)
  qed
  ultimately show ?thesis unfolding enrich_map_def by (rule_tac ensures_fold)
qed

text \<open>Enriching the identities never fails, whatever TMDB answers, and replaces nothing established: the same sources and
  titles stay known, and each identity keeps every field but a missing year and a missing poster.\<close>

theorem metadata_enriched:
  assumes "transport_ok (rv_metadata env)" "od_ok (ii_by_torrent_id ii)" "od_ok (ii_by_info_hash ii)" "od_ok (ii_by_alias ii)"
  shows "\<exists>out s'. enrich_missing_metadata env ii s = (return out, s') \<and>
    filled (ii_by_torrent_id ii) (ii_by_torrent_id out) \<and> filled (ii_by_info_hash ii) (ii_by_info_hash out) \<and>
    filled (ii_by_alias ii) (ii_by_alias out)"
proof -
  have "ensures (\<lambda>_. False) (\<lambda>out. filled (ii_by_torrent_id ii) (ii_by_torrent_id out) \<and>
      filled (ii_by_info_hash ii) (ii_by_info_hash out) \<and> filled (ii_by_alias ii) (ii_by_alias out)) (enrich_missing_metadata env ii)"
    unfolding enrich_missing_metadata_def
    by (rule ensures_bind [OF ensures_enrich_map [OF assms(1,2)]], clarsimp,
        rule ensures_bind [OF ensures_enrich_map [OF assms(1,3)]], clarsimp,
        rule ensures_bind [OF ensures_enrich_map [OF assms(1,4)]], clarsimp)
  from ensures_returns [OF this, of s] show ?thesis by blast
qed

section \<open>Witnesses\<close>

definition demo_persisted :: "int \<Rightarrow> identity_authority \<Rightarrow> persisted_identity" where
  "demo_persisted owner a = \<lparr>pi_media_item_id = owner, pi_content_kind = ''movie'', pi_title = ''Dune'', pi_year = Some 2021,
     pi_tmdb_id = Some ''438631'', pi_provider_media_kind = Some ''movie'', pi_authority = authority_str a,
     pi_authoritative = authoritative a, pi_confidence = None, pi_resolver_version = None,
     pi_library_category = Some ''movies'', pi_poster_path = None\<rparr>"

definition demo_stored :: "identity_authority \<Rightarrow> media_identity" where
  "demo_stored a = \<lparr>md_tmdb_id = Some ''438631'', md_title = ''Dune'', md_year = Some 2021, md_media_type = ''movie'',
     md_poster_path = None, md_authority = a, md_status = Resolved, md_confidence = None,
     md_resolver_version = ''persisted-v1'', md_library_category = Some Movies\<rparr>"

lemma demo_stored_identity: "stored_identity (demo_persisted owner a) = return (demo_stored a)"
  by (simp add: stored_identity_def demo_persisted_def demo_stored_def text_or_def parse_library_category_def)

definition demo_aliases :: "alias_identity_binding list" where
  "demo_aliases = [\<lparr>aib_normalized_alias = ''dune'', aib_identity = demo_persisted 1 Fallback\<rparr>,
     \<lparr>aib_normalized_alias = ''dune'', aib_identity = demo_persisted 2 Manual\<rparr>]"

theorem alias_identities_equivalent_witness:
  "\<exists>d. alias_identities demo_aliases = return d \<and> map_of d (''movie'', ''dune'') = Some (demo_stored Manual)"
proof -
  let ?f = "\<lambda>b. demo_stored (if pi_media_item_id (aib_identity b) = 1 then Fallback else Manual)"
  have f: "stored_identity (aib_identity b) = return (?f b)" if "b \<in> set demo_aliases" for b
    using that by (auto simp: demo_aliases_def demo_stored_identity) (simp_all add: demo_persisted_def)
  have "alias_reference (map (\<lambda>b. (b, ?f b)) demo_aliases) (''movie'', ''dune'') = Some (demo_stored Manual)"
    by (simp add: alias_reference_def demo_aliases_def binding_key_def binding_owner_def demo_persisted_def demo_stored_def)
  then show ?thesis using alias_identities_equivalent [of demo_aliases ?f, OF f] by auto
qed

theorem source_bindings_merged_witness:
  "\<exists>bt bh. merge_source_bindings [] [] [\<lparr>sib_source_kind = ''torrents'', sib_source_item_id = Some ''7'', sib_info_hash = None,
       sib_identity = demo_persisted 1 Manual\<rparr>] = return (bt, bh) \<and> (\<exists>j. map_of bt ''7'' = Some j \<and> 50 \<le> strength j)"
  using source_bindings_merged [of "[\<lparr>sib_source_kind = ''torrents'', sib_source_item_id = Some ''7'', sib_info_hash = None,
       sib_identity = demo_persisted 1 Manual\<rparr>]" "\<lambda>_. demo_stored Manual" "[]" "[]"]
  by (auto simp: demo_stored_identity holds_at_def torrent_key_def demo_stored_def)

theorem metadata_enriched_witness:
  "\<exists>out s'. enrich_missing_metadata demo_resolver_env \<lparr>ii_by_torrent_id = [(''7'', demo_stored Manual)], ii_by_info_hash = [],
      ii_by_alias = []\<rparr> demo_resolver_state = (return out, s') \<and> dom (map_of (ii_by_torrent_id out)) = {''7''}"
  using metadata_enriched [OF demo_transport, of "\<lparr>ii_by_torrent_id = [(''7'', demo_stored Manual)], ii_by_info_hash = [],
      ii_by_alias = []\<rparr>" demo_resolver_state]
  by (auto simp: od_ok_def filled_def)

end
