(* ===== verification/Naming.thy ===== *)
theory Naming
  imports LibraryPaths
begin

text \<open>
  Library entries from release names (api/app/library/naming.py), with the module's patterns
  written out as terms of \<open>Regex\<close>.
\<close>

section \<open>The patterns\<close>

definition sep :: regex where "sep = Chr (\<lambda>c. is_space c \<or> c \<in> set ''._-'')"
definition start_or_sep :: regex where "start_or_sep = Alt Bol sep"

definition SEASON_EPISODE :: regex where
  "SEASON_EPISODE = seqs [start_or_sep, lit_ci ''s'', Grp ''season'' (rep 1 2 digit), Star sep,
     lit_ci ''e'', Grp ''episode'' (rep 1 3 digit), Alt not_digit Eol]"

definition FOLDER_SEASON :: regex where
  "FOLDER_SEASON = seqs [start_or_sep, Alt (Seq (lit_ci ''season'') (Star sep)) (lit_ci ''s''),
     Grp ''season'' (rep 1 2 digit), Ahead (Alt not_digit Eol)]"

definition LEADING_EPISODE :: regex where
  "LEADING_EPISODE = seqs [Bol, opt (Seq (lit_ci ''episode'') (Star sep)),
     Grp ''episode'' (rep 1 3 digit), Alt not_digit Eol]"

definition PACK_EPISODE :: regex where
  "PACK_EPISODE = seqs [start_or_sep, Grp ''episode'' (rep 1 3 digit), opt (Seq (lit_ci ''v'') (plus digit)),
     Ahead (seqs [plus sep, alts (map lit_ci [''web'', ''webrip'', ''bd'', ''bluray'', ''hi10'',
       ''2160p'', ''1080p'', ''720p'', ''480p'']), WordB])]"

definition BARE_ANIME_EPISODE :: regex where
  "BARE_ANIME_EPISODE = seqs [start_or_sep, Grp ''episode'' (rep 1 3 digit),
     Ahead (seqs [plus sep, alts (map lit_ci [''jp'', ''jpn'', ''bd'', ''bluray'', ''hi10'']), WordB])]"

definition year_digits :: regex where
  "year_digits = Seq (Alt (lit ''19'') (lit ''20'')) (exactly 2 digit)"

definition YEAR :: regex where
  "YEAR = seqs [Alt Bol not_digit, Grp ''year'' year_digits, Alt not_digit Eol]"

definition QUALITY_TERMS :: "regex list" where
  "QUALITY_TERMS = map lit_ci [''2160p'', ''1080p'', ''720p'', ''480p''] @
     [seqs [lit_ci ''web'', opt (one_of ''-_. ''), lit_ci ''dl'']] @
     map lit_ci [''webrip'', ''bluray'', ''brrip'', ''hdtv'', ''hdrip'', ''x264'', ''x265'', ''h264'',
       ''h265'', ''hevc'', ''10bit'', ''aac'', ''dts'', ''atmos'', ''remux'', ''proper'', ''repack'']"

definition TRAILING_QUALITY :: regex where
  "TRAILING_QUALITY = seqs [WordB, Grp ''1'' (alts QUALITY_TERMS), WordB, Star any_but_newline, Eol]"

definition LEADING_RELEASE_GROUPS :: regex where
  "LEADING_RELEASE_GROUPS = seqs [Bol, plus (seqs [chr (CHR ''[''), rep 1 24 (Chr (\<lambda>c. c \<noteq> CHR '']'')),
     chr (CHR '']''), Star (Chr is_space)])]"

section \<open>Cleaning\<close>

definition clean_release_name :: "string \<Rightarrow> string" where
  "clean_release_name v =
     (let v1 = strip (sub LEADING_RELEASE_GROUPS [] v);
          cleaned = replace_char (CHR '']'') '' '' (replace_char (CHR ''['') '' '' v1);
          cleaned = replace_char (CHR '')'') '' '' (replace_char (CHR ''('') '' '' cleaned)
      in strip (sub (plus (Chr is_space)) '' '' cleaned))"

definition humanize_title :: "string \<Rightarrow> string" where
  "humanize_title v =
     (let title = sub (plus (one_of ''._-'')) '' '' v;
          title = sub (plus (Chr is_space)) '' '' title
      in strip_by (\<lambda>c. c \<in> set '' .-_'') title)"

text \<open>\<open>int(match.group(n))\<close>; the group is one that the pattern always sets.\<close>

definition group_int :: "string \<Rightarrow> re_match \<Rightarrow> string \<Rightarrow> int" where
  "group_int s m n = (case group s m n of None \<Rightarrow> 0 | Some t \<Rightarrow> int_of_decimal t)"

definition group_start :: "re_match \<Rightarrow> string \<Rightarrow> nat" where
  "group_start m n = (case group_span m n of None \<Rightarrow> 0 | Some (i, j) \<Rightarrow> i)"

definition year_of :: "string \<Rightarrow> int option" where
  "year_of name = map_option (\<lambda>m. group_int name m ''year'') (search YEAR name)"

definition year_from_folder :: "string \<Rightarrow> int option" where
  "year_from_folder folder_name =
     (if folder_name = [] then None
      else year_of (clean_release_name (path_name (parse_path folder_name))))"

definition title_from_folder :: "string \<Rightarrow> string" where
  "title_from_folder folder_name =
     (if folder_name = [] then []
      else
        let cleaned = clean_release_name (path_name (parse_path folder_name));
            starts = (case search SEASON_EPISODE cleaned of None \<Rightarrow> [] | Some m \<Rightarrow> [m_start m]) @
                     (case search FOLDER_SEASON cleaned of None \<Rightarrow> [] | Some m \<Rightarrow> [m_start m]) @
                     (case search YEAR cleaned of None \<Rightarrow> [] | Some m \<Rightarrow> [group_start m ''year'']);
            cleaned = (if starts = [] then cleaned else take (Min (set starts)) cleaned)
        in humanize_title (sub TRAILING_QUALITY [] cleaned))"

section \<open>The parts of an entry\<close>

definition category_of :: "string \<Rightarrow> string \<Rightarrow> bool \<Rightarrow> library_category" where
  "category_of name folder_name has_episode =
     (let source = casefold (folder_name @ '' '' @ name)
      in if contains ''anime'' source then Anime else if has_episode then Shows else Movies)"

definition title_of :: "string \<Rightarrow> string \<Rightarrow> re_match option \<Rightarrow> bool \<Rightarrow> string \<times> bool" where
  "title_of name folder_name season_episode use_folder_title =
     (let fallback = title_from_folder folder_name;
          fallback_title = (if fallback = [] then ''Unknown'' else fallback)
      in if use_folder_title then (fallback_title, True)
         else
           let title_source = (case season_episode of None \<Rightarrow> name | Some m \<Rightarrow> take (m_start m) name);
               title_source = (case search YEAR title_source of None \<Rightarrow> title_source
                               | Some m \<Rightarrow> take (group_start m ''year'') title_source);
               title = humanize_title (sub TRAILING_QUALITY [] title_source)
           in if title \<noteq> [] then (title, False) else (fallback_title, True))"

definition folder_episode :: "string \<Rightarrow> string \<Rightarrow> re_match option \<Rightarrow> (int \<times> int) option" where
  "folder_episode name folder_name season_episode =
     (if season_episode \<noteq> None then None
      else
        let folder = clean_release_name (path_name (parse_path folder_name))
        in case search FOLDER_SEASON folder of None \<Rightarrow> None
           | Some season \<Rightarrow>
               (case (case search LEADING_EPISODE name of None \<Rightarrow> search PACK_EPISODE name | m \<Rightarrow> m) of
                  None \<Rightarrow> None
                | Some episode \<Rightarrow> Some (group_int folder season ''season'', group_int name episode ''episode'')))"

definition bare_anime_episode :: "string \<Rightarrow> re_match option \<Rightarrow> (int \<times> int) option \<Rightarrow> (nat \<times> int) option" where
  "bare_anime_episode name season_episode folder_ep =
     (if season_episode \<noteq> None \<or> folder_ep \<noteq> None then None
      else map_option (\<lambda>m. (group_start m ''episode'', group_int name m ''episode''))
             (search BARE_ANIME_EPISODE name))"

definition season_number :: "string \<Rightarrow> re_match option \<Rightarrow> (int \<times> int) option \<Rightarrow> int result" where
  "season_number name season_episode folder_ep =
     (case season_episode of Some m \<Rightarrow> return (group_int name m ''season'')
      | None \<Rightarrow> (case folder_ep of Some (s, e) \<Rightarrow> return s
          | None \<Rightarrow> raise (ValueError ''Series entries require season numbers.'')))"

definition episode_number :: "string \<Rightarrow> re_match option \<Rightarrow> (int \<times> int) option \<Rightarrow> int result" where
  "episode_number name season_episode folder_ep =
     (case season_episode of Some m \<Rightarrow> return (group_int name m ''episode'')
      | None \<Rightarrow> (case folder_ep of Some (s, e) \<Rightarrow> return e
          | None \<Rightarrow> raise (ValueError ''Series entries require episode numbers.'')))"

definition library_entry_from_file_name :: "string \<Rightarrow> string \<Rightarrow> string \<Rightarrow> library_entry result" where
  "library_entry_from_file_name file_name playback_url folder_name =
     (let cleaned_name = clean_release_name (path_stem (parse_path file_name));
          se = search SEASON_EPISODE cleaned_name;
          fe = folder_episode cleaned_name folder_name se;
          be = bare_anime_episode cleaned_name se fe;
          category = category_of cleaned_name folder_name (se \<noteq> None \<or> fe \<noteq> None \<or> be \<noteq> None);
          file_year = year_of cleaned_name;
          title = fst (title_of cleaned_name folder_name se (fe \<noteq> None));
          year = (case file_year of Some y \<Rightarrow> Some y | None \<Rightarrow> year_from_folder folder_name)
      in case be of
        Some (start, episode) \<Rightarrow>
          let title = humanize_title (take start cleaned_name)
          in check_entry \<lparr>le_category = category, le_title = (if title = [] then ''Unknown'' else title),
               le_resolver_url = playback_url, le_year = year,
               le_season_number = Some 1, le_episode_number = Some episode\<rparr>
      | None \<Rightarrow>
          if se = None \<and> fe = None
          then check_entry \<lparr>le_category = Movies, le_title = title, le_resolver_url = playback_url,
                 le_year = year, le_season_number = None, le_episode_number = None\<rparr>
          else bind_res (season_number cleaned_name se fe) (\<lambda>s.
               bind_res (episode_number cleaned_name se fe) (\<lambda>e.
                 check_entry \<lparr>le_category = category, le_title = title, le_resolver_url = playback_url,
                   le_year = year, le_season_number = Some s, le_episode_number = Some e\<rparr>)))"

section \<open>Groups and titles\<close>

lemma search_steps_of: "search r s = Some m \<Longrightarrow> search_steps (Suc (length s)) r s 0 False = Some m"
  by (simp add: search_def search_from_def)

lemma group_int_bound:
  assumes "search r s = Some m" "g \<in> sure_groups r" "0 < a" "a \<le> b"
    and "\<And>r0. (g, r0) \<in> groups_in r \<Longrightarrow> r0 = rep a b digit"
  shows "0 \<le> group_int s m g \<and> group_int s m g < 10 ^ b"
proof -
  obtain i j c0 where g: "group s m g = Some (slice s i j)"
    "j \<in> fst ` set (results (rep a b digit) s i c0)"
    using match_group [OF search_steps_of [OF assms(1)] assms(2)] assms(5) by blast
  have "i + a \<le> j \<and> j \<le> i + b \<and> j \<le> length s \<and> list_all is_digit (slice s i j)"
    using rep_results [OF _ assms(3,4)] g(2) by (simp add: digit_def)
  then have "list_all is_digit (slice s i j)" "length (slice s i j) \<le> b" by (auto simp: slice_def)
  then have "int_of_decimal (slice s i j) < 10 ^ b"
    using int_of_decimal_bound [of "slice s i j"] power_increasing [of "length (slice s i j)" b "10::int"]
    by linarith
  with g(1) show ?thesis by (simp add: group_int_def)
qed

lemma slice_Suc: "i < length s \<Longrightarrow> slice s i (Suc (i + n)) = s ! i # slice s (Suc i) (Suc (i + n))"
  by (simp add: slice_def Cons_nth_drop_Suc [symmetric])

lemma year_digits_value:
  assumes "j \<in> fst ` set (results year_digits s i c)"
  shows "1900 \<le> int_of_decimal (slice s i j) \<and> int_of_decimal (slice s i j) \<le> 2099"
proof -
  have j: "j = Suc (Suc (Suc (Suc i)))" "Suc (Suc (Suc i)) < length s"
    and d: "is_digit (s ! Suc (Suc i))" "is_digit (s ! Suc (Suc (Suc i)))"
    and p: "s ! i = CHR ''1'' \<and> s ! Suc i = CHR ''9'' \<or> s ! i = CHR ''2'' \<and> s ! Suc i = CHR ''0''"
    using assms
    by (auto simp: year_digits_def lit_def chr_def digit_def numeral_2_eq_2 split: if_splits)
  have "slice s i j = [s ! i, s ! Suc i, s ! Suc (Suc i), s ! Suc (Suc (Suc i))]"
    using j(2) by (simp add: j(1) slice_def Cons_nth_drop_Suc [symmetric])
  moreover have "digit_val (s ! Suc (Suc i)) \<le> 9" "digit_val (s ! Suc (Suc (Suc i))) \<le> 9"
    using d by (auto simp: is_digit_def digit_val_def)
  ultimately show ?thesis using p
    by (auto simp: int_of_decimal_def digit_val_def [of "CHR ''1''"] digit_val_def [of "CHR ''9''"]
        digit_val_def [of "CHR ''2''"] digit_val_def [of "CHR ''0''"] code_def)
qed

lemma year_of_bounds: "year_of name = Some y \<Longrightarrow> 1900 \<le> y \<and> y \<le> 2099"
proof -
  assume "year_of name = Some y"
  then obtain m where m: "search YEAR name = Some m" and y: "y = group_int name m ''year''"
    by (auto simp: year_of_def)
  have "''year'' \<in> sure_groups YEAR" by (simp add: YEAR_def)
  from match_group [OF search_steps_of [OF m] this]
  obtain i j r0 c0 where g: "group name m ''year'' = Some (slice name i j)"
    "(''year'', r0) \<in> groups_in YEAR" "j \<in> fst ` set (results r0 name i c0)" by blast
  have "r0 = year_digits"
    using g(2) by (auto simp: YEAR_def not_digit_def year_digits_def lit_def chr_def digit_def numeral_2_eq_2)
  with g year_digits_value show ?thesis by (simp add: y group_int_def)
qed

lemma strip_nonempty: "strip s \<noteq> [] \<longleftrightarrow> (\<exists>c\<in>set s. \<not> is_space c)"
  by (auto simp: strip_def strip_by_Nil_iff list_all_iff)

lemma set_sub_runs_space: "c \<in> set (sub_runs P '' '' s) \<Longrightarrow> c = CHR '' '' \<or> \<not> P c"
proof (induction P "'' ''" s rule: sub_runs.induct)
  case (2 P x xs)
  then show ?case by (auto split: if_splits)
qed simp

text \<open>A title is either empty or not blank: what is left of a name begins with a visible character.\<close>

lemma humanize_visible: "humanize_title v = [] \<or> strip (humanize_title v) \<noteq> []"
proof (cases "humanize_title v = []")
  case False
  define t where "t = sub (plus (Chr is_space)) '' '' (sub (plus (one_of ''._-'')) '' '' v)"
  let ?P = "\<lambda>c. c \<in> set '' .-_''"
  have h: "humanize_title v = strip_by ?P t" by (simp add: humanize_title_def t_def)
  have "strip_by ?P t \<noteq> []" using False unfolding h .
  then have "\<not> ?P (hd (strip_by ?P t))" by (rule hd_strip_by)
  then have "\<not> ?P (hd (humanize_title v))" by (simp only: h not_False_eq_True)
  moreover have "hd (humanize_title v) \<in> set t"
    using False set_strip_by [of ?P t] by (simp only: h) (meson hd_in_set subsetD)
  then have "hd (humanize_title v) = CHR '' '' \<or> \<not> is_space (hd (humanize_title v))"
    by (simp add: t_def sub_plus set_sub_runs_space)
  ultimately have "\<not> is_space (hd (humanize_title v))" by auto
  with False show ?thesis by (auto simp: strip_nonempty intro!: bexI [of _ "hd (humanize_title v)"])
qed simp

lemma strip_unknown [simp]: "strip ''Unknown'' \<noteq> []"
  by (simp add: strip_nonempty is_space_def code_def)

lemma title_visible: "strip (fst (title_of name folder se use)) \<noteq> []"
  using humanize_visible
  by (auto simp: title_of_def title_from_folder_def Let_def)

lemma groups_in_seqs: "groups_in (seqs rs) = \<Union> (groups_in ` set rs)"
  by (induction rs rule: seqs.induct) auto

lemma groups_in_repeat: "groups_in r = {} \<Longrightarrow> groups_in (rep m n r) = {}"
proof -
  assume r: "groups_in r = {}"
  have "groups_in (exactly k r) = {}" for k using r by (induction k) auto
  moreover have "groups_in (up_to k r) = {}" for k using r by (induction k) (auto simp: opt_def)
  ultimately show ?thesis by (simp add: rep_def)
qed

lemma groups_in_atoms [simp]:
  "groups_in (lit_ci t) = {}" "groups_in (lit t) = {}" "groups_in digit = {}" "groups_in not_digit = {}"
  "groups_in sep = {}" "groups_in start_or_sep = {}" "groups_in (rep m n digit) = {}"
  by (auto simp: lit_ci_def lit_def groups_in_seqs chr_def digit_def not_digit_def sep_def
      start_or_sep_def groups_in_repeat)

lemma episode_groups:
  "search SEASON_EPISODE s = Some m \<Longrightarrow>
     0 \<le> group_int s m ''season'' \<and> group_int s m ''season'' < 100 \<and>
     0 \<le> group_int s m ''episode'' \<and> group_int s m ''episode'' < 1000"
  using group_int_bound [of SEASON_EPISODE s m "''season''" 1 2]
    group_int_bound [of SEASON_EPISODE s m "''episode''" 1 3]
  by (simp add: SEASON_EPISODE_def)


lemma episode_start_groups:
  "search FOLDER_SEASON s = Some m \<Longrightarrow> 0 \<le> group_int s m ''season'' \<and> group_int s m ''season'' < 100"
  "search LEADING_EPISODE s = Some m \<Longrightarrow> 0 \<le> group_int s m ''episode'' \<and> group_int s m ''episode'' < 1000"
  "search PACK_EPISODE s = Some m \<Longrightarrow> 0 \<le> group_int s m ''episode'' \<and> group_int s m ''episode'' < 1000"
  "search BARE_ANIME_EPISODE s = Some m \<Longrightarrow> 0 \<le> group_int s m ''episode'' \<and> group_int s m ''episode'' < 1000"
  using group_int_bound [of FOLDER_SEASON s m "''season''" 1 2]
    group_int_bound [of LEADING_EPISODE s m "''episode''" 1 3]
    group_int_bound [of PACK_EPISODE s m "''episode''" 1 3]
    group_int_bound [of BARE_ANIME_EPISODE s m "''episode''" 1 3]
  by (simp_all add: FOLDER_SEASON_def LEADING_EPISODE_def PACK_EPISODE_def BARE_ANIME_EPISODE_def
      opt_def plus_def)

lemma folder_episode_bounds:
  "folder_episode name folder se = Some (s, e) \<Longrightarrow> 0 \<le> s \<and> s < 100 \<and> 0 \<le> e \<and> e < 1000"
  using episode_start_groups
  by (fastforce simp: folder_episode_def Let_def split: option.splits if_splits)

lemma bare_episode_bounds:
  "bare_anime_episode name se fe = Some (i, e) \<Longrightarrow> se = None \<and> fe = None \<and> 0 \<le> e \<and> e < 1000"
  using episode_start_groups by (cases fe) (auto simp: bare_anime_episode_def split: if_splits)

text \<open>C9. Every TorBox file name becomes a valid library entry, whatever the release is called: no
  name makes the parser raise, the title is never blank, season and episode numbers come together
  and stay in the range the patterns read, and a recognised year lies between 1900 and 2099.\<close>

theorem file_name_entry:
  assumes "strip playback_url \<noteq> []"
  shows "\<exists>e. library_entry_from_file_name file_name playback_url folder_name = return e \<and>
     check_entry e = return e \<and> le_resolver_url e = playback_url \<and>
     (case (le_season_number e, le_episode_number e) of
        (None, None) \<Rightarrow> le_category e = Movies
      | (Some s, Some n) \<Rightarrow> le_category e \<noteq> Movies \<and> 0 \<le> s \<and> s < 100 \<and> 0 \<le> n \<and> n < 1000
      | _ \<Rightarrow> False) \<and>
     (case le_year e of None \<Rightarrow> True | Some y \<Rightarrow> 1900 \<le> y \<and> y \<le> 2099)"
proof -
  define name where "name = clean_release_name (path_stem (parse_path file_name))"
  define se where "se = search SEASON_EPISODE name"
  define fe where "fe = folder_episode name folder_name se"
  define be where "be = bare_anime_episode name se fe"
  define cat where "cat = category_of name folder_name (se \<noteq> None \<or> fe \<noteq> None \<or> be \<noteq> None)"
  define title where "title = fst (title_of name folder_name se (fe \<noteq> None))"
  define year where "year = (case year_of name of Some y \<Rightarrow> Some y | None \<Rightarrow> year_from_folder folder_name)"
  have e: "library_entry_from_file_name file_name playback_url folder_name = (case be of
        Some (start, episode) \<Rightarrow>
          let title = humanize_title (take start name)
          in check_entry \<lparr>le_category = cat, le_title = (if title = [] then ''Unknown'' else title),
               le_resolver_url = playback_url, le_year = year,
               le_season_number = Some 1, le_episode_number = Some episode\<rparr>
      | None \<Rightarrow>
          if se = None \<and> fe = None
          then check_entry \<lparr>le_category = Movies, le_title = title, le_resolver_url = playback_url,
                 le_year = year, le_season_number = None, le_episode_number = None\<rparr>
          else bind_res (season_number name se fe) (\<lambda>s.
               bind_res (episode_number name se fe) (\<lambda>e.
                 check_entry \<lparr>le_category = cat, le_title = title, le_resolver_url = playback_url,
                   le_year = year, le_season_number = Some s, le_episode_number = Some e\<rparr>)))"
    by (simp only: library_entry_from_file_name_def Let_def name_def se_def fe_def be_def cat_def
        title_def year_def)
  have y: "case year of None \<Rightarrow> True | Some y \<Rightarrow> 1900 \<le> y \<and> y \<le> 2099"
    using year_of_bounds
    by (auto simp: year_def year_from_folder_def split: option.splits if_splits)
  have t: "strip title \<noteq> []" by (simp add: title_def title_visible)
  have cat: "cat \<noteq> Movies" if "se \<noteq> None \<or> fe \<noteq> None \<or> be \<noteq> None"
    using that by (auto simp: cat_def category_of_def Let_def)
  show ?thesis
  proof (cases be)
    case (Some p)
    obtain i ep where p: "p = (i, ep)" by (cases p)
    from bare_episode_bounds Some p have "0 \<le> ep" "ep < 1000" by (auto simp: be_def)
    moreover have "strip (if humanize_title (take i name) = [] then ''Unknown'' else humanize_title (take i name)) \<noteq> []"
      using humanize_visible [of "take i name"] by auto
    ultimately show ?thesis
      using assms cat y Some by (simp add: e p check_entry_def Let_def)
  next
    case None
    show ?thesis
    proof (cases "se = None \<and> fe = None")
      case True
      then show ?thesis using None assms t y by (simp add: e check_entry_def)
    next
      case False
      obtain s n where sn: "season_number name se fe = return s" "episode_number name se fe = return n"
        "0 \<le> s" "s < 100" "0 \<le> n" "n < 1000"
      proof (cases se)
        case (Some m)
        with episode_groups [of name m] that show ?thesis
          by (simp add: season_number_def episode_number_def se_def [symmetric])
      next
        case None
        with False obtain p where p: "fe = Some p" by auto
        obtain s n where sn: "p = (s, n)" by (cases p)
        have "0 \<le> s \<and> s < 100 \<and> 0 \<le> n \<and> n < 1000"
          using folder_episode_bounds p sn by (simp add: fe_def)
        with that [of s n] None p sn show ?thesis
          by (simp add: season_number_def episode_number_def)
      qed
      with None False assms t y cat show ?thesis by (simp add: e check_entry_def)
    qed
  qed
qed

theorem file_name_entry_witness:
  "\<exists>e. library_entry_from_file_name ''Anime.S01E04.mkv'' ''http://x'' ''''
        = return e \<and> check_entry e = return e \<and> le_season_number e = Some 1 \<and> le_category e = Anime"
proof -
  have v: "library_entry_from_file_name ''Anime.S01E04.mkv'' ''http://x'' ''''
      = return \<lparr>le_category = Anime, le_title = ''Anime'', le_resolver_url = ''http://x'', le_year = None,
         le_season_number = Some 1, le_episode_number = Some 4\<rparr>"
    by code_simp
  have "strip ''http://x'' \<noteq> []" by code_simp
  from file_name_entry [OF this, of "''Anime.S01E04.mkv''" "''''"] v
  show ?thesis by auto
qed

end
