(* ===== verification/ResolverManifest.thy ===== *)
theory ResolverManifest
  imports LibraryFiles JsonText TorBoxFiles
begin

text \<open>
  The resolver manifest (api/app/resolver/manifest.py): a JSON file below the library root that maps
  opaque entry ids to download URLs. SHA-256 is a parameter.
\<close>

record manifest_entry =
  me_entry_id :: string
  me_target_url :: string

definition resolver_entry_id :: "(string \<Rightarrow> string) \<Rightarrow> torbox_file \<Rightarrow> string" where
  "resolver_entry_id sha256_hex f =
     take 24 (sha256_hex (download_kind_str (tf_kind f) @ '':'' @ tf_item_id f @ '':'' @ tf_file_id f))"

definition resolver_playback_url :: "string \<Rightarrow> string \<Rightarrow> string \<Rightarrow> string" where
  "resolver_playback_url base_url token entry_id =
     rstrip_by (\<lambda>c. c = CHR ''/'') base_url @ ''/play/'' @ entry_id @ ''?token='' @ token"

definition resolver_manifest_path :: "fs \<Rightarrow> path \<Rightarrow> fpath result" where
  "resolver_manifest_path s library_root =
     ensure_within_root s library_root (join_path library_root (Rel MANIFEST_RELATIVE_PATH))"

fun typed_entries_onto :: "(string, string) odict \<Rightarrow> (string, json) odict \<Rightarrow> (string, string) odict result" where
  "typed_entries_onto entries [] = return entries"
| "typed_entries_onto entries ((key, v) # raw) = (case jstr v of
     None \<Rightarrow> raise (ResolverManifestError ''Resolver manifest contained an invalid entry.'')
   | Some t \<Rightarrow> typed_entries_onto (AList.update key t entries) raw)"

definition typed_entries :: "(string, json) odict \<Rightarrow> (string, string) odict result" where
  "typed_entries raw = typed_entries_onto [] raw"

definition entries_of_text :: "string \<Rightarrow> (string, string) odict result" where
  "entries_of_text text = bind_res (json_loads text) (\<lambda>v. case jobj v of
     None \<Rightarrow> raise (ResolverManifestError ''Resolver manifest was not a JSON object.'')
   | Some p \<Rightarrow> (case jobj (jget p ''entries'') of
        None \<Rightarrow> raise (ResolverManifestError ''Resolver manifest entries were invalid.'')
      | Some raw \<Rightarrow> typed_entries raw))"

definition read_entries :: "fpath \<Rightarrow> (string, string) odict io" where
  "read_entries p = (\<lambda>s. if \<not> path_exists s p then (return [], s)
     else eff_bind (read_file p) (\<lambda>text. eff_lift (entries_of_text text)) s)"

text \<open>\<open>json.dumps({"version": 1, "entries": d}, indent=2, sort_keys=True) + "\n"\<close>\<close>

definition entry_text :: "string \<times> string \<Rightarrow> string" where
  "entry_text = (\<lambda>(k, v). ''    '' @ json_str k @ '': '' @ json_str v)"

definition manifest_text :: "(string, string) odict \<Rightarrow> string" where
  "manifest_text d =
     ''{'' @ [CHR 0x0A] @ ''  '' @ json_str ''entries'' @ '': '' @
     (if d = [] then ''{}''
      else ''{'' @ [CHR 0x0A] @ join ('','' @ [CHR 0x0A]) (map entry_text (sort_key fst d)) @
           [CHR 0x0A] @ ''  }'') @
     '','' @ [CHR 0x0A] @ ''  '' @ json_str ''version'' @ '': 1'' @ [CHR 0x0A] @ ''}'' @ [CHR 0x0A]"

definition merge_entries :: "(string, string) odict \<Rightarrow> manifest_entry list \<Rightarrow> (string, string) odict" where
  "merge_entries existing entries =
     foldl (\<lambda>d e. AList.update (me_entry_id e) (me_target_url e) d) existing entries"

definition write_manifest_entries :: "path \<Rightarrow> manifest_entry list \<Rightarrow> (fpath \<Rightarrow> unit io) option \<Rightarrow> bool \<Rightarrow> fpath io" where
  "write_manifest_entries library_root entries before_write replace_existing = (\<lambda>s0.
     eff_bind (eff_lift (resolver_manifest_path s0 library_root)) (\<lambda>p.
     eff_bind (if replace_existing then eff_return [] else read_entries p) (\<lambda>existing s.
       let content = manifest_text (merge_entries existing entries)
       in if file_content s p = Some content then (return p, s)
          else eff_then (case before_write of None \<Rightarrow> eff_return () | Some f \<Rightarrow> f p)
            (eff_then (atomic_write_text p content) (eff_return p)) s)) s0)"

definition resolve_manifest_target :: "path \<Rightarrow> string \<Rightarrow> string io" where
  "resolve_manifest_target library_root entry_id = (\<lambda>s0.
     eff_bind (eff_lift (resolver_manifest_path s0 library_root)) (\<lambda>p.
     eff_bind (read_entries p) (\<lambda>entries. case map_of entries entry_id of
       None \<Rightarrow> eff_raise (ResolverManifestError ''Resolver entry was not found.'')
     | Some url \<Rightarrow> eff_return url)) s0)"

section \<open>The written text is read back\<close>

lemma json_str_body: "json_str k @ s = CHR 0x22 # concat (map escape_json k) @ CHR 0x22 # s"
  by (simp add: json_str_def)

lemma json_space_simps [simp]:
  "\<not> json_space (CHR 0x22)" "\<not> json_space (CHR '':'')" "\<not> json_space (CHR '','')"
  "\<not> json_space (CHR ''}'')" "\<not> json_space (CHR ''{'')" "\<not> json_space (CHR ''1'')"
  "json_space (CHR '' '')" "json_space (CHR 0x0A)"
  by (simp_all add: json_space_def)

lemma value_string: "json_value (Suc n) (json_str v @ s) = Some (JStr v, s)"
  by (simp add: json_str_body string_body_written)

lemma members_step:
  assumes "json_value n (skip_ws w) = Some (v, s3)"
  shows "json_members (Suc n) (json_str k @ CHR '':'' # w) =
    (case skip_ws s3 of
       c # s4 \<Rightarrow> if c = CHR '','' then map_option (\<lambda>(ms, s'). ((k, v) # ms, s')) (json_members n (skip_ws s4))
                  else if c = CHR ''}'' then Some ([(k, v)], s4) else None
     | [] \<Rightarrow> None)"
  using assms by (simp add: json_str_body string_body_written del: json_value.simps)

lemma entry_members:
  "json_members (Suc (Suc n)) (json_str k @ CHR '':'' # CHR '' '' # json_str v @ s) =
    (case skip_ws s of
       c # s4 \<Rightarrow> if c = CHR '','' then map_option (\<lambda>(ms, s'). ((k, JStr v) # ms, s')) (json_members (Suc n) (skip_ws s4))
                  else if c = CHR ''}'' then Some ([(k, JStr v)], s4) else None
     | [] \<Rightarrow> None)"
  using members_step [of "Suc n" "CHR '' '' # json_str v @ s" "JStr v" s k] value_string [of n v s]
  by (simp add: json_str_body del: json_value.simps json_members.simps)

lemma skip_entry_text: "skip_ws (entry_text (k, v) @ s) = json_str k @ CHR '':'' # CHR '' '' # json_str v @ s"
  by (simp add: entry_text_def json_str_body)

lemma entries_parse:
  "d \<noteq> [] \<Longrightarrow> length d < n \<Longrightarrow>
   json_members n (skip_ws (join ('','' @ [CHR 0x0A]) (map entry_text d) @ CHR 0x0A # CHR '' '' # CHR '' '' # CHR ''}'' # s)) =
     Some (map (\<lambda>(k, v). (k, JStr v)) d, s)"
proof (induction d arbitrary: n)
  case (Cons e d)
  obtain k v where e: "e = (k, v)" by force
  obtain m where n: "n = Suc (Suc m)" using Cons.prems by (cases n; cases "n - 1") auto
  show ?case
  proof (cases "d = []")
    case True
    then show ?thesis by (simp add: e n skip_entry_text entry_members del: json_members.simps dropWhile.simps)
      (simp del: json_members.simps)
  next
    case False
    then obtain e' d' where d: "d = e' # d'" by (cases d) auto
    have "join ('','' @ [CHR 0x0A]) (map entry_text (e # d)) = entry_text (k, v) @ CHR '','' # CHR 0x0A # join ('','' @ [CHR 0x0A]) (map entry_text d)"
      by (simp add: d e)
    moreover have "length d < Suc m" using Cons.prems n by simp
    ultimately show ?thesis
      using Cons.IH [OF False, of "Suc m"]
      by (simp add: n e skip_entry_text entry_members del: json_members.simps join.simps dropWhile.simps)
        (simp del: json_members.simps join.simps)
  qed
qed simp

lemma update_fresh: "k \<notin> fst ` set d \<Longrightarrow> AList.update k v d = d @ [(k, v)]"
  by (induction d) auto

lemma foldl_update_distinct:
  "distinct (map fst a @ map fst d) \<Longrightarrow> foldl (\<lambda>d (k, v). AList.update k (h v) d) a d = a @ map (\<lambda>(k, v). (k, h v)) d"
  by (induction d arbitrary: a) (auto simp: update_fresh)

lemma typed_entries_onto_strings:
  "distinct (map fst a @ map fst d) \<Longrightarrow> typed_entries_onto a (map (\<lambda>(k, v). (k, JStr v)) d) = return (a @ d)"
  by (induction d arbitrary: a) (auto simp: update_fresh)

lemma typed_entries_strings: "distinct (map fst d) \<Longrightarrow> typed_entries (map (\<lambda>(k, v). (k, JStr v)) d) = return d"
  using typed_entries_onto_strings [of "[]" d] by (simp add: typed_entries_def)

lemma typed_entries_onto_ok: "od_ok a \<Longrightarrow> typed_entries_onto a raw = Inr d \<Longrightarrow> od_ok d"
  by (induction a raw rule: typed_entries_onto.induct) (auto split: option.splits)

lemma length_join_entries: "length d \<le> length (join ('','' @ [CHR 0x0A]) (map entry_text d))"
proof (induction d)
  case (Cons e d)
  then show ?case by (cases d; cases e) (auto simp: entry_text_def)
qed simp

lemma entries_value:
  "length d < n \<Longrightarrow>
   json_value (Suc n) ((if d = [] then ''{}''
      else ''{'' @ [CHR 0x0A] @ join ('','' @ [CHR 0x0A]) (map entry_text d) @ [CHR 0x0A] @ ''  }'') @ s) =
   Some (JObj (foldl (\<lambda>o1 (k, v). AList.update k v o1) [] (map (\<lambda>(k, v). (k, JStr v)) d)), s)"
proof (cases "d = []")
  case False
  assume n: "length d < n"
  obtain k v d' where d: "d = (k, v) # d'" using False by (cases d) auto
  let ?t = "join ('','' @ [CHR 0x0A]) (map entry_text d) @ CHR 0x0A # CHR '' '' # CHR '' '' # CHR ''}'' # s"
  obtain r where r: "skip_ws ?t = CHR 0x22 # r"
    by (cases d') (auto simp: d entry_text_def json_str_body)
  show ?thesis
    using entries_parse [OF False n, of s] r False
    by (simp add: dropWhile_append del: json_members.simps)
qed simp

lemma version_value: "json_value (Suc n) (CHR ''1'' # CHR 0x0A # s) = Some (JInt 1, CHR 0x0A # s)"
  by (simp add: json_word_def json_number_def startswith_def digits_of_def number_frac_def number_exp_def
      is_digit_def code_def int_of_decimal_def digit_val_def)

lemma object_step:
  assumes "json_members n (skip_ws r) = Some (ms, s')" "skip_ws r = CHR 0x22 # r'"
  shows "json_value (Suc n) (CHR ''{'' # r) = Some (JObj (foldl (\<lambda>o1 (k, v). AList.update k v o1) [] ms), s')"
  using assms by (simp del: json_members.simps)

lemma manifest_parsed:
  assumes "od_ok d"
  shows "json_loads (manifest_text d) =
    return (JObj [(''entries'', JObj (map (\<lambda>(k, v). (k, JStr v)) (sort_key fst d))), (''version'', JInt 1)])"
proof -
  define e where "e = sort_key fst d"
  define V where "V = (if e = [] then ''{}''
      else ''{'' @ [CHR 0x0A] @ join ('','' @ [CHR 0x0A]) (map entry_text e) @ [CHR 0x0A] @ ''  }'')"
  define T where "T = CHR 0x0A # CHR '' '' # CHR '' '' # json_str ''version'' @ CHR '':'' # CHR '' '' # CHR ''1'' # CHR 0x0A # CHR ''}'' # [CHR 0x0A]"
  define body where "body = CHR 0x0A # CHR '' '' # CHR '' '' # json_str ''entries'' @ CHR '':'' # CHR '' '' # V @ CHR '','' # T"
  have e: "d = [] \<longleftrightarrow> e = []" by (simp add: e_def flip: length_0_conv)
  have mt: "manifest_text d = CHR ''{'' # body"
    by (simp add: manifest_text_def e_def [symmetric] e V_def T_def body_def)
  have dist: "distinct (map fst e)" using assms by (simp add: od_ok_def e_def distinct_map)
  define N where "N = length (manifest_text d)"
  have "length e \<le> length V" using length_join_entries [of e] by (simp add: V_def)
  moreover have "length V + 4 < N" by (simp add: N_def mt body_def T_def)
  ultimately have "length e < N - 3" "N = Suc (Suc (Suc (N - 3)))" by simp_all
  then obtain m where N: "N = Suc (Suc (Suc m))" "length e < m" by blast
  have spaces: "skip_ws (CHR '' '' # V @ CHR '','' # T) = V @ CHR '','' # T"
    by (simp add: V_def)
  have "json_members (Suc (Suc m)) (json_str ''version'' @ CHR '':'' # CHR '' '' # CHR ''1'' # CHR 0x0A # CHR ''}'' # [CHR 0x0A])
      = Some ([(''version'', JInt 1)], [CHR 0x0A])"
    by (subst members_step [where v = "JInt 1" and ?s3.0 = "CHR 0x0A # CHR ''}'' # [CHR 0x0A]"])
      (simp_all add: version_value del: json_members.simps json_value.simps)
  then have T: "json_members (Suc (Suc m)) (skip_ws T) = Some ([(''version'', JInt 1)], [CHR 0x0A])"
    by (simp add: T_def json_str_body del: json_members.simps)
  have V: "json_value (Suc (Suc m)) (V @ CHR '','' # T) =
      Some (JObj (map (\<lambda>(k, v). (k, JStr v)) e), CHR '','' # T)"
    using entries_value [of e "Suc m" "CHR '','' # T"] N(2) foldl_update_distinct [of "[]" e JStr] dist
    by (simp add: V_def foldl_map split_def del: json_value.simps cong: if_cong)
  have V': "json_value (Suc (Suc m)) (skip_ws (CHR '' '' # V @ CHR '','' # T)) =
      Some (JObj (map (\<lambda>(k, v). (k, JStr v)) e), CHR '','' # T)"
    by (simp only: spaces V)
  have comma: "skip_ws (CHR '','' # T) = CHR '','' # T" by simp
  have b: "skip_ws body = json_str ''entries'' @ CHR '':'' # CHR '' '' # V @ CHR '','' # T"
    unfolding body_def json_str_body by simp
  have "json_members (Suc (Suc (Suc m))) (skip_ws body) =
      Some ([(''entries'', JObj (map (\<lambda>(k, v). (k, JStr v)) e)), (''version'', JInt 1)], [CHR 0x0A])"
    unfolding b members_step [OF V'] comma by (simp add: T del: json_members.simps json_value.simps)
  from object_step [OF this, of "concat (map escape_json ''entries'') @ CHR 0x22 # CHR '':'' # CHR '' '' # V @ CHR '','' # T"] b
  have "json_value (Suc N) (manifest_text d) =
      Some (JObj (foldl (\<lambda>o1 (k, v). AList.update k v o1) []
        [(''entries'', JObj (map (\<lambda>(k, v). (k, JStr v)) e)), (''version'', JInt 1)]), [CHR 0x0A])"
    unfolding mt N(1) json_str_body by blast
  moreover have "skip_ws (manifest_text d) = manifest_text d" by (simp add: mt)
  ultimately show ?thesis by (simp add: json_loads_def N_def [symmetric] e_def del: json_value.simps)
qed

lemma manifest_text_read: "od_ok d \<Longrightarrow> entries_of_text (manifest_text d) = return (sort_key fst d)"
  by (simp add: entries_of_text_def manifest_parsed jget_def typed_entries_strings od_ok_def distinct_map)

lemma map_of_sort_key: "od_ok d \<Longrightarrow> map_of (sort_key fst d) = map_of d"
proof -
  assume "od_ok d"
  then have "distinct (map fst d)" "distinct (map fst (sort_key fst d))" by (simp_all add: od_ok_def distinct_map)
  then show ?thesis by (metis map_of_inject_set set_sort)
qed

lemma read_entries_file: "file_content s p = Some c \<Longrightarrow> read_entries p s = (entries_of_text c, s)"
  by (auto simp: read_entries_def path_exists_def read_file_def file_content_def eff_bind_def split: option.splits node.splits sum.splits)

lemma read_entries_keeps: "snd (read_entries p s) = s"
  by (auto simp: read_entries_def read_file_def eff_bind_def split: option.splits node.splits sum.splits prod.splits)

lemma entries_of_text_ok: "entries_of_text c = Inr d \<Longrightarrow> od_ok d"
  by (auto simp: entries_of_text_def typed_entries_def bind_res_Inr_iff split: option.splits
      intro: typed_entries_onto_ok [OF od_ok_Nil])

lemma read_entries_ok: "fst (read_entries p s) = Inr d \<Longrightarrow> od_ok d"
  by (auto simp: read_entries_def eff_bind_run split: if_splits sum.splits intro: entries_of_text_ok)

lemma merge_entries_ok: "od_ok d \<Longrightarrow> od_ok (merge_entries d es)"
  unfolding merge_entries_def by (induction es arbitrary: d) auto

lemma merge_entries_map:
  "map_of (merge_entries d es) k =
     (case map_of (rev (map (\<lambda>e. (me_entry_id e, me_target_url e)) es)) k of Some u \<Rightarrow> Some u | None \<Rightarrow> map_of d k)"
proof (induction es rule: rev_induct)
  case (snoc e es)
  then show ?case by (auto simp: merge_entries_def update_conv')
qed (simp add: merge_entries_def)

lemma resolve_from_content:
  assumes "resolver_manifest_path s root_dir = return p" "file_content s p = Some (manifest_text d)" "od_ok d"
  shows "fst (resolve_manifest_target root_dir k s) = (case map_of d k of
     Some u \<Rightarrow> return u | None \<Rightarrow> raise (ResolverManifestError ''Resolver entry was not found.''))"
  using assms by (simp add: resolve_manifest_target_def read_entries_file manifest_text_read map_of_sort_key eff_bind_run
      split: option.splits)

lemma manifest_path_cwd: "fs_cwd s' = fs_cwd s \<Longrightarrow> resolver_manifest_path s' r = resolver_manifest_path s r"
  by (simp add: resolver_manifest_path_def ensure_within_root_def resolve_def split: path.splits)

text \<open>C35. What \<open>write_manifest_entries\<close> stores is what \<open>resolve_manifest_target\<close> returns, for every text of
  ids and URLs: the last URL written for an id, else the URL the manifest already held (none with
  \<open>replace_existing\<close>), else the not-found error; no other file changes.\<close>

theorem manifest_roundtrip:
  assumes "wf_fs s" "resolver_manifest_path s library_root = return p" "writable s p"
    and "if replace_existing then old = [] else fst (read_entries p s) = return old"
  shows "\<exists>s'. write_manifest_entries library_root entries None replace_existing s = (return p, s') \<and>
    (\<forall>i. fst (resolve_manifest_target library_root i s') =
       (case map_of (rev (map (\<lambda>e. (me_entry_id e, me_target_url e)) entries)) i of
          Some u \<Rightarrow> return u
        | None \<Rightarrow> (case map_of old i of
            Some u \<Rightarrow> return u | None \<Rightarrow> raise (ResolverManifestError ''Resolver entry was not found.'')))) \<and>
    (\<forall>q. q \<noteq> p \<longrightarrow> file_content s' q = file_content s q)"
proof -
  define m where "m = merge_entries old entries"
  have ok: "od_ok m" using assms(4) read_entries_ok [of p s old] merge_entries_ok by (auto simp: m_def split: if_splits)
  have old: "(if replace_existing then eff_return [] else read_entries p) s = (return old, s)"
    using assms(4) read_entries_keeps [of p s] by (auto simp: prod_eq_iff split: if_splits)
  obtain t where t: "atomic_write_bytes p (manifest_text m) s = (return (), t)" "fs_cwd t = fs_cwd s"
      "file_content t = (file_content s)(p := Some (manifest_text m))"
    using content_atomic_write [OF assms(1,3)] by blast
  define s' where "s' = (if file_content s p = Some (manifest_text m) then s else t)"
  have run: "write_manifest_entries library_root entries None replace_existing s = (return p, s')"
    using old t(1) by (simp add: write_manifest_entries_def assms(2) s'_def m_def Let_def eff_then_def eff_bind_run atomic_write_text_def)
  have c: "file_content s' = (file_content s)(p := Some (manifest_text m))" "fs_cwd s' = fs_cwd s"
    using t by (auto simp: s'_def)
  have "resolver_manifest_path s' library_root = return p" using manifest_path_cwd [OF c(2)] assms(2) by simp
  then have "fst (resolve_manifest_target library_root i s') = (case map_of m i of
     Some u \<Rightarrow> return u | None \<Rightarrow> raise (ResolverManifestError ''Resolver entry was not found.''))" for i
    using resolve_from_content ok c(1) by simp
  then show ?thesis using run c(1)
    by (intro exI [of _ s']) (auto simp: m_def merge_entries_map split: option.splits)
qed

theorem manifest_roundtrip_witness:
  "let s = \<lparr>fs_cwd = [''w''], fs_nodes = []\<rparr>;
       t = snd (write_manifest_entries (Abs [''lib''])
         [\<lparr>me_entry_id = ''a'', me_target_url = ''http://x/?q=%22''\<rparr>] None False s)
   in fst (resolve_manifest_target (Abs [''lib'']) ''a'' t) = return ''http://x/?q=%22''"
proof -
  let ?s = "\<lparr>fs_cwd = [''w''], fs_nodes = []\<rparr>"
  have "resolver_manifest_path ?s (Abs [''lib'']) = return [''lib'', ''.strmline'', ''resolver_manifest.json'']"
    by (simp add: resolver_manifest_path_def MANIFEST_RELATIVE_PATH_def ensure_within_root_def resolve_def is_prefix_def
        Let_def)
  moreover have "wf_fs ?s" "writable ?s [''lib'', ''.strmline'', ''resolver_manifest.json'']"
    by (simp_all add: wf_fs_def od_ok_def writable_def node_at_def below_file_def)
  moreover have "fst (read_entries [''lib'', ''.strmline'', ''resolver_manifest.json''] ?s) = return []"
    by (simp add: read_entries_def path_exists_def node_at_def)
  ultimately show ?thesis
    using manifest_roundtrip [of ?s "Abs [''lib'']" "[''lib'', ''.strmline'', ''resolver_manifest.json'']" False "[]"
        "[\<lparr>me_entry_id = ''a'', me_target_url = ''http://x/?q=%22''\<rparr>]"]
    by (auto dest: spec [of _ "''a''"])
qed

end
