(* ===== verification/Playback.thy ===== *)
theory Playback
  imports TorBoxClient FailureGuard ResolverManifest Tables
begin

text \<open>
  Playback: the resolver repository (api/app/db/repositories/resolver.py) and the play endpoint
  (api/app/api/resolver.py) over the modelled TorBox client, target cache, failure guard, metrics,
  manifest and tables. A request has a database session of its own: it starts from the committed
  database and what it does not commit is rolled back when it ends. SHA-256, the stored API key and the
  TorBox service are parameters; errors of the database itself come only from the stored key.
\<close>

section \<open>Saved and recovered files\<close>

definition PLAYBACK_RECOVERY_ATTEMPTS :: nat where "PLAYBACK_RECOVERY_ATTEMPTS = 30"
definition PLAYBACK_RECOVERY_INTERVAL_SECONDS :: time where "PLAYBACK_RECOVERY_INTERVAL_SECONDS = 2"

definition playback_kind :: "string \<Rightarrow> download_kind option" where
  "playback_kind kind = find (\<lambda>k. download_kind_str k = kind) [Torrents, Usenet, WebDl]"

definition or_text :: "string option \<Rightarrow> string \<Rightarrow> string" where
  "or_text v d = (case v of None \<Rightarrow> d | Some t \<Rightarrow> if t = [] then d else t)"

definition stored_file_of :: "db \<Rightarrow> library_entry_row \<Rightarrow> (torbox_stored_file \<times> torbox_item) option" where
  "stored_file_of d e = (case ler_torbox_file_id e of
     None \<Rightarrow> None
   | Some i \<Rightarrow> (case find (\<lambda>f. tsf_id f = i) (db_torbox_files d) of
        None \<Rightarrow> None
      | Some f \<Rightarrow> map_option (\<lambda>t. (f, t)) (find (\<lambda>t. ti_id t = tsf_torbox_item_id f) (db_torbox_items d))))"

definition saved_torbox_file :: "db \<Rightarrow> library_entry_row \<Rightarrow> torbox_file option" where
  "saved_torbox_file d e = (case stored_file_of d e of
     Some (f, t) \<Rightarrow> map_option (\<lambda>kind. \<lparr>tf_kind = kind, tf_item_id = ti_external_id t, tf_file_id = tsf_external_id f,
         tf_folder_name = ti_name t, tf_file_name = tsf_file_name f, tf_path = tsf_path f,
         tf_mime_type = tsf_mime_type f, tf_size = tsf_size f\<rparr>) (playback_kind (ti_kind t))
   | None \<Rightarrow> (case (playback_kind (or_text (ler_source_kind e) []), ler_source_item_id e, ler_source_file_id e, ler_source_file_name e) of
        (Some kind, Some item_id, Some file_id, Some file_name) \<Rightarrow>
          Some \<lparr>tf_kind = kind, tf_item_id = item_id, tf_file_id = file_id,
            tf_folder_name = or_text (ler_source_item_name e) [], tf_file_name = file_name,
            tf_path = or_text (ler_source_file_path e) file_name,
            tf_mime_type = or_text (ler_source_file_mime_type e) [], tf_size = ler_source_file_size e\<rparr>
      | _ \<Rightarrow> None))"

definition normalized_path :: "string \<Rightarrow> string" where
  "normalized_path value = casefold (strip_by (\<lambda>c. c = CHR ''/'') (replace_char (CHR 0x5C) ''/'' value))"

definition same_name :: "torbox_file \<Rightarrow> torbox_file \<Rightarrow> bool" where
  "same_name saved f \<longleftrightarrow> casefold (tf_file_name f) = casefold (tf_file_name saved)"

definition matching_file :: "payload \<Rightarrow> torbox_file \<Rightarrow> torbox_file option" where
  "matching_file torrent saved =
     (let candidates = ef_files (extract_torbox_files [torrent] Torrents)
      in case find (\<lambda>f. normalized_path (tf_path f) = normalized_path (tf_path saved)) candidates of
           Some f \<Rightarrow> Some f
         | None \<Rightarrow>
             let matching_names = filter (same_name saved) candidates;
                 same_size = filter (\<lambda>f. tf_size f = tf_size saved) matching_names
             in if tf_size saved \<noteq> None \<and> length same_size = 1 then Some (hd same_size)
                else if length matching_names = 1 then Some (hd matching_names) else None)"

definition torrent_is_ready :: "payload \<Rightarrow> bool" where
  "torrent_is_ready torrent = (case jget torrent ''download_finished'' of
     JBool b \<Rightarrow> b
   | _ \<Rightarrow> (case jstr (jget torrent ''download_state'') of
        Some state \<Rightarrow> if strip state \<noteq> [] then casefold state \<in> {''cached'', ''completed'', ''uploading''}
          else jget torrent ''cached'' \<noteq> JBool False \<and> jlist (jget torrent ''files'') \<noteq> None
      | None \<Rightarrow> jget torrent ''cached'' \<noteq> JBool False \<and> jlist (jget torrent ''files'') \<noteq> None))"

definition string_id :: "json \<Rightarrow> string option" where
  "string_id v = (case v of
     JInt i \<Rightarrow> Some (str_int i)
   | JBool b \<Rightarrow> Some (if b then ''True'' else ''False'')
   | JStr t \<Rightarrow> if strip t = [] then None else Some (strip t)
   | _ \<Rightarrow> None)"

definition torrent_item_id :: "payload option \<Rightarrow> string option" where
  "torrent_item_id item = (case item of None \<Rightarrow> None | Some d \<Rightarrow> string_id (jget d ''id''))"

definition created_torrent_id :: "payload \<Rightarrow> string option" where
  "created_torrent_id item = (case string_id (jget item ''torrent_id'') of
     Some i \<Rightarrow> Some i | None \<Rightarrow> string_id (jget item ''id''))"

section \<open>Recovery\<close>

definition duplicate_item :: "exn \<Rightarrow> bool" where
  "duplicate_item e = (case e of TorBoxAPIError _ c \<Rightarrow> c = Some ''DUPLICATE_ITEM'' | _ \<Rightarrow> False)"

definition find_or_create_torrent :: "nat \<Rightarrow> 'w torbox_env \<Rightarrow> torbox_client \<Rightarrow> string \<Rightarrow> string \<Rightarrow>
    ('w, payload option \<times> string option) torbox" where
  "find_or_create_torrent fuel env c info_hash title =
     eff_bind (find_torrent_by_hash fuel env c info_hash) (\<lambda>torrent.
       if torrent \<noteq> None then eff_return (torrent, torrent_item_id torrent)
       else eff_catch duplicate_item
         (eff_bind (create_torrent env c (''magnet:?xt=urn:btih:'' @ info_hash) (Some title) True)
            (\<lambda>created. eff_return (None, created_torrent_id created)))
         (\<lambda>_. eff_return (None, None)))"

definition recovery_error :: exn where
  "recovery_error = ResolverRecoveryError ''TorBox playback recovery did not produce the saved media file.''"

definition recovery_sleep :: "'w torbox_env \<Rightarrow> ('w, unit) torbox" where
  "recovery_sleep env = eff_modify (\<lambda>s. s\<lparr>ts_world :=
     te_wake env (te_sleep env (te_now env (ts_world s)) PLAYBACK_RECOVERY_INTERVAL_SECONDS) (ts_world s)\<rparr>)"

definition poll_torrent :: "nat \<Rightarrow> 'w torbox_env \<Rightarrow> torbox_client \<Rightarrow> string \<Rightarrow> string option \<Rightarrow>
    ('w, payload option \<times> string option) torbox" where
  "poll_torrent fuel env c info_hash torrent_id = (case torrent_id of
     Some i \<Rightarrow> eff_bind (get_download env c Torrents i) (\<lambda>t. eff_return (t, Some i))
   | None \<Rightarrow> eff_bind (find_torrent_by_hash fuel env c info_hash) (\<lambda>t. eff_return (t, torrent_item_id t)))"

definition ready_match :: "payload option \<Rightarrow> torbox_file \<Rightarrow> torbox_file option" where
  "ready_match torrent saved = (case torrent of
     None \<Rightarrow> None | Some t \<Rightarrow> if torrent_is_ready t then matching_file t saved else None)"

text \<open>The rest of the loop: \<open>n\<close> attempts are left.\<close>

fun recovery_attempts :: "nat \<Rightarrow> nat \<Rightarrow> 'w torbox_env \<Rightarrow> torbox_client \<Rightarrow> string \<Rightarrow> torbox_file \<Rightarrow>
    payload option \<times> string option \<Rightarrow> ('w, torbox_file) torbox" where
  "recovery_attempts 0 fuel env c info_hash saved found = eff_raise recovery_error"
| "recovery_attempts (Suc n) fuel env c info_hash saved found =
     (case ready_match (fst found) saved of
        Some f \<Rightarrow> eff_return f
      | None \<Rightarrow> if n = 0 then eff_raise recovery_error
          else eff_then (recovery_sleep env)
            (eff_bind (poll_torrent fuel env c info_hash (snd found)) (recovery_attempts n fuel env c info_hash saved)))"

definition recover_torrent_file :: "nat \<Rightarrow> 'w torbox_env \<Rightarrow> torbox_client \<Rightarrow> string \<Rightarrow> string \<Rightarrow> torbox_file \<Rightarrow>
    ('w, torbox_file) torbox" where
  "recover_torrent_file fuel env c info_hash title saved =
     eff_bind (find_or_create_torrent fuel env c info_hash title)
       (recovery_attempts PLAYBACK_RECOVERY_ATTEMPTS fuel env c info_hash saved)"

definition is_recovery_or_api_error :: "exn \<Rightarrow> bool" where
  "is_recovery_or_api_error e = (case e of ResolverRecoveryError _ \<Rightarrow> True | TorBoxAPIError _ _ \<Rightarrow> True | _ \<Rightarrow> False)"

definition with_metrics :: "(metrics \<Rightarrow> metrics) \<Rightarrow> ('w, unit) torbox" where
  "with_metrics f = eff_modify (\<lambda>s. s\<lparr>ts_metrics := f (ts_metrics s)\<rparr>)"

definition recovered_target :: "nat \<Rightarrow> 'w torbox_env \<Rightarrow> torbox_client \<Rightarrow> torbox_file \<Rightarrow> string \<Rightarrow> ('w, string) torbox" where
  "recovered_target fuel env c saved info_hash =
     eff_then (with_metrics resolver_recovery_started)
     (eff_bind (eff_catch is_recovery_or_api_error
         (eff_bind (recover_torrent_file fuel env c info_hash
             (if tf_folder_name saved = [] then tf_file_name saved else tf_folder_name saved) saved)
           (request_download_link env c))
         (\<lambda>e. eff_then (with_metrics (resolver_recovery_finished False))
            (case e of ResolverRecoveryError _ \<Rightarrow> eff_raise e
             | _ \<Rightarrow> eff_raise (ResolverRecoveryError ''TorBox playback recovery failed.''))))
       (\<lambda>target_url. eff_then (with_metrics (resolver_recovery_finished True)) (eff_return target_url)))"

definition playback_target :: "nat \<Rightarrow> 'w torbox_env \<Rightarrow> torbox_client option \<Rightarrow> torbox_file \<Rightarrow> string option \<Rightarrow>
    string \<Rightarrow> string \<Rightarrow> ('w, string) torbox" where
  "playback_target fuel env client saved info_hash api_key torbox_base_url = (case (client, info_hash) of
     (Some c, Some h) \<Rightarrow>
       if tf_kind saved \<noteq> Torrents then eff_return (request_download_url torbox_base_url api_key saved)
       else (\<lambda>s. case request_download_link env c saved s of
           (Inl (TorBoxAPIError _ _), s') \<Rightarrow> recovered_target fuel env c saved h s'
         | r \<Rightarrow> r)
   | _ \<Rightarrow> eff_return (request_download_url torbox_base_url api_key saved))"

section \<open>The repository\<close>

record 'w playback_env =
  pe_torbox :: "'w torbox_env"
  pe_list_fuel :: nat
  pe_torbox_base_url :: string
  pe_resolver_token :: "string option"
  pe_torbox_api_key :: "string option"
  pe_stored_api_key :: "db \<Rightarrow> string option result"
  pe_has_database :: bool
  pe_library_root :: path
  pe_sha256 :: "string \<Rightarrow> string"

record 'w playback_state =
  py_torbox :: "'w torbox_state"
  py_db :: db
  py_saved :: db
  py_targets :: target_cache
  py_guard :: guard
  py_fs :: fs

type_synonym ('w, 'a) playback = "('w playback_state, 'a) eff"

definition in_torbox :: "('w, 'a) torbox \<Rightarrow> ('w, 'a) playback" where
  "in_torbox m = (\<lambda>s. case m (py_torbox s) of (r, t) \<Rightarrow> (r, s\<lparr>py_torbox := t\<rparr>))"

definition in_session :: "'a dbm \<Rightarrow> ('w, 'a) playback" where
  "in_session m = (\<lambda>s. case m (py_db s) of (r, d) \<Rightarrow> (r, s\<lparr>py_db := d\<rparr>))"

definition session_commit :: "('w, unit) playback" where
  "session_commit = eff_modify (\<lambda>s. s\<lparr>py_saved := py_db s\<rparr>)"

definition resolver_token_is_stored :: "(string \<Rightarrow> string) \<Rightarrow> string \<Rightarrow> bool dbm" where
  "resolver_token_is_stored sha256_hex token = (\<lambda>d.
     (bind_res (scalar_one_or_none (filter (\<lambda>t. rtk_token_hash t = sha256_hex token \<and> rtk_revoked_at t = None) (db_resolver_tokens d)))
        (\<lambda>found. return (found \<noteq> None)), d))"

definition library_entry_of :: "string \<Rightarrow> library_entry_row option dbm" where
  "library_entry_of entry_id = (\<lambda>d. (scalar_one_or_none (filter (\<lambda>e. ler_opaque_id e = entry_id) (db_library_entries d)), d))"

definition record_attempt :: "string \<Rightarrow> library_entry_row option \<Rightarrow> string \<Rightarrow> string option \<Rightarrow> unit dbm" where
  "record_attempt entry_id e status failure_reason =
     eff_bind fresh_id (\<lambda>i. eff_modify (\<lambda>d. d\<lparr>db_playback_attempts := db_playback_attempts d @
       [\<lparr>pa_id = i, pa_library_entry_id = map_option ler_id e, pa_entry_opaque_id = entry_id, pa_status = status,
         pa_failure_reason = failure_reason\<rparr>]\<rparr>))"

definition resolve_torbox_target :: "'w playback_env \<Rightarrow> string \<Rightarrow> string \<Rightarrow> torbox_client option \<Rightarrow> ('w, string) playback" where
  "resolve_torbox_target env entry_id api_key client =
     eff_bind (in_session (library_entry_of entry_id)) (\<lambda>found. case found of
       None \<Rightarrow> eff_then (in_session (record_attempt entry_id None ''not_found'' (Some ''library_entry_not_found'')))
                 (eff_raise (ResolverLookupError ''Resolver entry was not found.''))
     | Some e \<Rightarrow> eff_bind (eff_get (\<lambda>s. saved_torbox_file (py_db s) e)) (\<lambda>saved. case saved of
         None \<Rightarrow> eff_then (in_session (record_attempt entry_id (Some e) ''failed'' (Some ''unsupported_provider'')))
                   (eff_raise (ResolverLookupError ''Resolver entry provider is not supported.''))
       | Some f \<Rightarrow>
           eff_bind (eff_catch is_recovery_or_api_error
               (in_torbox (playback_target (pe_list_fuel env) (pe_torbox env) client f (ler_info_hash e) api_key (pe_torbox_base_url env)))
               (\<lambda>err. eff_then (in_session (record_attempt entry_id (Some e) ''failed'' (Some ''torbox_recovery_failed'')))
                        (eff_raise err)))
             (\<lambda>target_url. eff_then (in_session (record_attempt entry_id (Some e) ''redirect'' None)) (eff_return target_url))))"

section \<open>The endpoint\<close>

definition RESOLVED_TARGET_CACHE_TTL_SECONDS :: time where "RESOLVED_TARGET_CACHE_TTL_SECONDS = 30"
definition RESOLVED_TARGET_CACHE_MAX_ENTRIES :: int where "RESOLVED_TARGET_CACHE_MAX_ENTRIES = 1024"

definition play_now :: "'w playback_env \<Rightarrow> 'w playback_state \<Rightarrow> time" where
  "play_now env s = te_now (pe_torbox env) (ts_world (py_torbox s))"

definition clear_resolved_target_cache :: "('w, unit) playback" where
  "clear_resolved_target_cache = eff_modify (\<lambda>s. s\<lparr>py_targets := target_clear (py_targets s), py_guard := guard_clear (py_guard s)\<rparr>)"

definition configure_resolver_failure_guard :: "time \<Rightarrow> int \<Rightarrow> time \<Rightarrow> time \<Rightarrow> ('w, unit) playback" where
  "configure_resolver_failure_guard negative_cache failure_limit window cooldown = (\<lambda>s.
     case reconfigure (default_guard_config\<lparr>negative_cache_seconds := negative_cache, circuit_failures := failure_limit,
         circuit_window_seconds := window, circuit_cooldown_seconds := cooldown\<rparr>) (py_guard s) of
       Inl e \<Rightarrow> (Inl e, s) | Inr g \<Rightarrow> (return (), s\<lparr>py_guard := g\<rparr>))"

text \<open>\<open>secrets.compare_digest\<close> on strings: both must be ASCII.\<close>

definition compare_digest :: "string \<Rightarrow> string \<Rightarrow> bool result" where
  "compare_digest a b =
     (if (\<forall>c \<in> set (a @ b). (of_char c :: nat) < 128) then return (a = b)
      else raise (TypeError ''comparing strings with non-ASCII characters is not supported''))"

definition resolver_token_is_valid :: "'w playback_env \<Rightarrow> string \<Rightarrow> ('w, bool) playback" where
  "resolver_token_is_valid env token =
     eff_bind (eff_lift (case pe_resolver_token env of None \<Rightarrow> return False | Some expected \<Rightarrow> compare_digest token expected))
     (\<lambda>equal. if equal then eff_return True
      else if \<not> pe_has_database env
      then (if pe_resolver_token env = None then eff_raise (HTTPException 503 ''Resolver is not configured.'') else eff_return False)
      else eff_catch (\<lambda>e. case e of OSError _ \<Rightarrow> True | SQLAlchemyError _ \<Rightarrow> True | _ \<Rightarrow> False)
             (in_session (resolver_token_is_stored (pe_sha256 env) token))
             (\<lambda>_. eff_raise (HTTPException 503 ''Resolver is not available.'')))"

definition check_resolver_guard :: "'w playback_env \<Rightarrow> string \<Rightarrow> ('w, unit) playback" where
  "check_resolver_guard env entry_id = (\<lambda>s.
     case check (play_now env s) entry_id (py_guard s) (ts_metrics (py_torbox s)) of
       (r, g, m) \<Rightarrow>
         (case r of Inl (ResolverTemporarilyUnavailableError msg) \<Rightarrow> raise (HTTPException 503 msg) | _ \<Rightarrow> r,
          s\<lparr>py_guard := g, py_torbox := (py_torbox s)\<lparr>ts_metrics := m\<rparr>\<rparr>))"

definition torbox_api_key_of :: "'w playback_env \<Rightarrow> ('w, string option) playback" where
  "torbox_api_key_of env = (case pe_torbox_api_key env of
     Some k \<Rightarrow> eff_return (Some k) | None \<Rightarrow> (\<lambda>s. (pe_stored_api_key env (py_db s), s)))"

definition request_database_target :: "'w playback_env \<Rightarrow> string \<Rightarrow> ('w, string) playback" where
  "request_database_target env entry_id =
     eff_bind (torbox_api_key_of env) (\<lambda>key. case key of
       None \<Rightarrow> eff_raise (HTTPException 503 ''TorBox API key is not configured.'')
     | Some api_key \<Rightarrow> resolve_torbox_target env entry_id api_key (Some (client_init api_key (pe_torbox_base_url env))))"

definition guard_failure :: "'w playback_env \<Rightarrow> string \<Rightarrow> ('w, unit) playback" where
  "guard_failure env entry_id = eff_modify (\<lambda>s. s\<lparr>py_guard := record_failure (play_now env s) entry_id (py_guard s)\<rparr>)"

definition guard_success :: "string \<Rightarrow> ('w, unit) playback" where
  "guard_success entry_id = eff_modify (\<lambda>s. s\<lparr>py_guard := record_success entry_id (py_guard s)\<rparr>)"

fun target_failure :: "'w playback_env \<Rightarrow> string \<Rightarrow> exn \<Rightarrow> ('w, string) playback" where
  "target_failure env entry_id (ResolverLookupError _) =
     eff_then session_commit (eff_raise (HTTPException 404 ''Resolver entry was not found.''))"
| "target_failure env entry_id (ResolverRecoveryError m) =
     eff_then (guard_failure env entry_id) (eff_raise (HTTPException 503 m))"
| "target_failure env entry_id (TorBoxAPIError m _) =
     eff_then (guard_failure env entry_id) (eff_raise (HTTPException 503 m))"
| "target_failure env entry_id (OSError _) =
     eff_then (guard_failure env entry_id) (eff_raise (HTTPException 503 ''Resolver is not available.''))"
| "target_failure env entry_id (HttpxError _) =
     eff_then (guard_failure env entry_id) (eff_raise (HTTPException 503 ''Resolver is not available.''))"
| "target_failure env entry_id (SQLAlchemyError _) = eff_raise (HTTPException 503 ''Resolver is not available.'')"
| "target_failure env entry_id e = eff_raise e"

definition database_resolver_target :: "'w playback_env \<Rightarrow> string \<Rightarrow> ('w, string) playback" where
  "database_resolver_target env entry_id =
     eff_then (check_resolver_guard env entry_id) (\<lambda>s.
       case request_database_target env entry_id s of
         (Inl e, s') \<Rightarrow> target_failure env entry_id e s'
       | (Inr target_url, s') \<Rightarrow>
           eff_then (guard_success entry_id) (eff_then session_commit (eff_return target_url)) s')"

definition cached_database_resolver_target :: "'w playback_env \<Rightarrow> string \<Rightarrow> ('w, string option) playback" where
  "cached_database_resolver_target env entry_id =
     (if \<not> pe_has_database env then eff_return None
      else (\<lambda>s. case target_get (play_now env s) entry_id (py_targets s) of
          (Some t, cache) \<Rightarrow> eff_then (in_torbox (with_metrics resolver_cache_hit)) (eff_return (Some t)) (s\<lparr>py_targets := cache\<rparr>)
        | (None, cache) \<Rightarrow> eff_then (in_torbox (with_metrics resolver_cache_miss))
            (eff_bind (database_resolver_target env entry_id) (\<lambda>t s.
               (return (Some t), s\<lparr>py_targets := target_put (play_now env s) entry_id t (py_targets s)\<rparr>)))
            (s\<lparr>py_targets := cache\<rparr>)))"

definition manifest_resolver_target :: "'w playback_env \<Rightarrow> string \<Rightarrow> ('w, string) playback" where
  "manifest_resolver_target env entry_id = (\<lambda>s.
     (case fst (resolve_manifest_target (pe_library_root env) entry_id (py_fs s)) of
        Inl (ResolverManifestError _) \<Rightarrow> raise (HTTPException 404 ''Resolver entry was not found.'') | r \<Rightarrow> r,
      s\<lparr>py_fs := snd (resolve_manifest_target (pe_library_root env) entry_id (py_fs s))\<rparr>))"

definition play_request :: "'w playback_env \<Rightarrow> string \<Rightarrow> string \<Rightarrow> ('w, string) playback" where
  "play_request env entry_id token =
     eff_bind (resolver_token_is_valid env token) (\<lambda>valid.
       if \<not> valid then eff_raise (HTTPException 403 ''Invalid resolver token.'')
       else eff_bind (cached_database_resolver_target env entry_id) (\<lambda>target. case target of
           Some t \<Rightarrow> eff_return t
         | None \<Rightarrow> manifest_resolver_target env entry_id))"

text \<open>The request with its session: what is not committed is rolled back. The value is the redirect's URL.\<close>

definition play :: "'w playback_env \<Rightarrow> string \<Rightarrow> string \<Rightarrow> ('w, string) playback" where
  "play env entry_id token = (\<lambda>s. case play_request env entry_id token (s\<lparr>py_db := py_saved s\<rparr>) of
     (r, s') \<Rightarrow> (r, s'\<lparr>py_db := py_saved s'\<rparr>))"

section \<open>The attempts a request leaves behind\<close>

text \<open>What resolving can do to the session's database: nothing, or one attempt appended.\<close>

definition attempt_of :: "db \<Rightarrow> string \<Rightarrow> int option \<Rightarrow> string \<Rightarrow> string option \<Rightarrow> playback_attempt" where
  "attempt_of d entry_id i status reason = \<lparr>pa_id = db_seq d, pa_library_entry_id = i, pa_entry_opaque_id = entry_id,
     pa_status = status, pa_failure_reason = reason\<rparr>"

definition with_attempt :: "playback_attempt \<Rightarrow> db \<Rightarrow> db" where
  "with_attempt a d = d\<lparr>db_seq := db_seq d + 1, db_playback_attempts := db_playback_attempts d @ [a]\<rparr>"

lemma record_attempt_run:
  "record_attempt entry_id e status reason d =
     (return (), with_attempt (attempt_of d entry_id (map_option ler_id e) status reason) d)"
  by (simp add: record_attempt_def fresh_id_def eff_bind_def eff_modify_def with_attempt_def attempt_of_def)

definition status_for :: "string result \<Rightarrow> string set" where
  "status_for r = (case r of Inr _ \<Rightarrow> {''redirect''} | Inl (ResolverLookupError _) \<Rightarrow> {''not_found'', ''failed''} | Inl _ \<Rightarrow> {''failed''})"

lemma in_torbox_keeps: "in_torbox m s = (r, s') \<Longrightarrow> py_db s' = py_db s \<and> py_saved s' = py_saved s \<and> py_targets s' = py_targets s \<and> py_guard s' = py_guard s"
  by (auto simp: in_torbox_def split: prod.splits)

lemma in_session_keeps: "in_session m s = (r, s') \<Longrightarrow> py_saved s' = py_saved s \<and> py_targets s' = py_targets s \<and> py_guard s' = py_guard s
    \<and> py_torbox s' = py_torbox s"
  by (auto simp: in_session_def split: prod.splits)

lemma record_in_session:
  "eff_then (in_session (record_attempt entry_id e status reason)) m s =
     m (s\<lparr>py_db := with_attempt (attempt_of (py_db s) entry_id (map_option ler_id e) status reason) (py_db s)\<rparr>)"
  by (simp add: eff_then_def eff_bind_def in_session_def record_attempt_run)

definition resolved :: "string \<Rightarrow> 'w playback_state \<Rightarrow> string result \<Rightarrow> 'w playback_state \<Rightarrow> bool" where
  "resolved entry_id s r s' \<longleftrightarrow> py_saved s' = py_saved s \<and> py_targets s' = py_targets s \<and> py_guard s' = py_guard s \<and>
    ((\<exists>e. r = Inl e) \<and> py_db s' = py_db s \<or>
     (\<exists>i status reason. py_db s' = with_attempt (attempt_of (py_db s) entry_id i status reason) (py_db s) \<and>
        status \<in> status_for r \<and> (reason = Some ''torbox_recovery_failed'' \<longrightarrow> (\<exists>e. r = Inl e \<and> is_recovery_or_api_error e))))"

lemma status_for_simps [simp]:
  "status_for (Inr u) = {''redirect''}" "status_for (Inl (ResolverLookupError m)) = {''not_found'', ''failed''}"
  "''failed'' \<in> status_for (Inl e)"
  by (simp_all add: status_for_def split: exn.split)

lemma resolved_recorded:
  assumes "py_saved s1 = py_saved s" "py_targets s1 = py_targets s" "py_guard s1 = py_guard s" "py_db s1 = py_db s"
    and "status \<in> status_for r" "reason = Some ''torbox_recovery_failed'' \<Longrightarrow> \<exists>e. r = Inl e \<and> is_recovery_or_api_error e"
  shows "resolved entry_id s r (s1\<lparr>py_db := with_attempt (attempt_of (py_db s1) entry_id i status reason) (py_db s1)\<rparr>)"
proof -
  let ?s = "s1\<lparr>py_db := with_attempt (attempt_of (py_db s1) entry_id i status reason) (py_db s1)\<rparr>"
  have "py_db ?s = with_attempt (attempt_of (py_db s) entry_id i status reason) (py_db s)" using assms(4) by simp
  then show ?thesis unfolding resolved_def using assms by (intro conjI disjI2 exI) auto
qed

lemma resolved_unrecorded:
  assumes "py_saved s1 = py_saved s" "py_targets s1 = py_targets s" "py_guard s1 = py_guard s" "py_db s1 = py_db s"
  shows "resolved entry_id s (Inl e) s1"
  unfolding resolved_def using assms by blast

lemma resolve_outcome:
  assumes "resolve_torbox_target env entry_id key client s = (r, s')"
  shows "resolved entry_id s r s'"
proof (cases "fst (library_entry_of entry_id (py_db s))")
  case (Inl e)
  then show ?thesis using assms
    by (auto simp: resolve_torbox_target_def eff_bind_run in_session_def library_entry_of_def resolved_def)
next
  case (Inr found)
  have found: "in_session (library_entry_of entry_id) s = (Inr found, s)"
    using Inr by (simp add: in_session_def library_entry_of_def)
  show ?thesis
  proof (cases found)
    case None
    have "r = Inl (ResolverLookupError ''Resolver entry was not found.'')"
      "s' = s\<lparr>py_db := with_attempt (attempt_of (py_db s) entry_id (map_option ler_id None) ''not_found'' (Some ''library_entry_not_found'')) (py_db s)\<rparr>"
      using assms found None by (simp_all add: resolve_torbox_target_def eff_bind_def record_in_session eff_raise_def)
    then show ?thesis by (auto intro!: resolved_recorded)
  next
    case (Some e)
    show ?thesis
    proof (cases "saved_torbox_file (py_db s) e")
      case None
      have "r = Inl (ResolverLookupError ''Resolver entry provider is not supported.'')"
        "s' = s\<lparr>py_db := with_attempt (attempt_of (py_db s) entry_id (map_option ler_id (Some e)) ''failed'' (Some ''unsupported_provider'')) (py_db s)\<rparr>"
        using assms found Some None by (simp_all add: resolve_torbox_target_def eff_bind_def record_in_session eff_raise_def eff_get_def)
      then show ?thesis by (auto intro!: resolved_recorded)
    next
      case (Some f)
      let ?m = "in_torbox (playback_target (pe_list_fuel env) (pe_torbox env) client f (ler_info_hash e) key (pe_torbox_base_url env))"
      obtain r1 s1 where m: "?m s = (r1, s1)" by fastforce
      note run = assms [unfolded resolve_torbox_target_def eff_bind_def found sum.case prod.case \<open>found = Some e\<close> option.case
          eff_get_def Some eff_catch_def m]
      note keeps = in_torbox_keeps [OF m]
      show ?thesis
      proof (cases r1)
        case (Inl err)
        show ?thesis
        proof (cases "is_recovery_or_api_error err")
          case True
          then have "r = Inl err" "s' = s1\<lparr>py_db := with_attempt (attempt_of (py_db s1) entry_id (map_option ler_id (Some e))
              ''failed'' (Some ''torbox_recovery_failed'')) (py_db s1)\<rparr>"
            using run Inl by (simp_all add: record_in_session eff_raise_def)
          moreover have "resolved entry_id s (Inl err) (s1\<lparr>py_db := with_attempt (attempt_of (py_db s1) entry_id
              (map_option ler_id (Some e)) ''failed'' (Some ''torbox_recovery_failed'')) (py_db s1)\<rparr>)"
            by (rule resolved_recorded) (use keeps True in simp_all)
          ultimately show ?thesis by simp
        next
          case False
          then show ?thesis using run Inl keeps by (auto intro: resolved_unrecorded)
        qed
      next
        case (Inr url)
        then have "r = Inr url" "s' = s1\<lparr>py_db := with_attempt (attempt_of (py_db s1) entry_id (map_option ler_id (Some e))
            ''redirect'' None) (py_db s1)\<rparr>"
          using run by (simp_all add: record_in_session eff_return_def)
        moreover have "resolved entry_id s (Inr url) (s1\<lparr>py_db := with_attempt (attempt_of (py_db s1) entry_id
            (map_option ler_id (Some e)) ''redirect'' None) (py_db s1)\<rparr>)"
          by (rule resolved_recorded) (use keeps in simp_all)
        ultimately show ?thesis by simp
      qed
    qed
  qed
qed

text \<open>The endpoint commits only after a redirect and after a failed lookup.\<close>

definition kept_attempt :: "string \<Rightarrow> string result \<Rightarrow> playback_attempt \<Rightarrow> bool" where
  "kept_attempt entry_id r a \<longleftrightarrow> pa_entry_opaque_id a = entry_id \<and> pa_failure_reason a \<noteq> Some ''torbox_recovery_failed'' \<and>
     (case r of Inr _ \<Rightarrow> pa_status a = ''redirect''
      | Inl e \<Rightarrow> e = HTTPException 404 ''Resolver entry was not found.'' \<and> pa_status a \<in> {''not_found'', ''failed''})"

lemma kept_redirect:
  assumes "resolved entry_id s (Inr u) s'"
  shows "\<exists>a. py_db s' = with_attempt a (py_db s) \<and> kept_attempt entry_id (Inr u) a"
  using assms unfolding resolved_def
proof (elim conjE disjE exE, goal_cases)
  case (2 i status reason)
  then have "kept_attempt entry_id (Inr u) (attempt_of (py_db s) entry_id i status reason)"
    by (auto simp: kept_attempt_def attempt_of_def)
  with 2 show ?case by blast
qed simp

lemma kept_lookup:
  assumes "resolved entry_id s (Inl (ResolverLookupError m)) s'"
  shows "py_db s' = py_db s \<or> (\<exists>a. py_db s' = with_attempt a (py_db s) \<and>
    kept_attempt entry_id (Inl (HTTPException 404 ''Resolver entry was not found.'')) a)"
  using assms unfolding resolved_def is_recovery_or_api_error_def
proof (elim conjE disjE exE, goal_cases)
  case (2 i status reason)
  then have "kept_attempt entry_id (Inl (HTTPException 404 ''Resolver entry was not found.''))
      (attempt_of (py_db s) entry_id i status reason)"
    by (auto simp: kept_attempt_def attempt_of_def)
  with 2 show ?case by blast
qed simp

lemma request_outcome:
  assumes "request_database_target env entry_id s = (r, s')"
  shows "resolved entry_id s r s'"
proof (cases "torbox_api_key_of env s")
  case (Pair k s1)
  then have s1: "s1 = s" by (auto simp: torbox_api_key_of_def eff_return_def split: option.splits)
  show ?thesis
  proof (cases k)
    case (Inl e)
    then show ?thesis using Pair assms s1 by (auto simp: request_database_target_def eff_bind_def resolved_def)
  next
    case (Inr key)
    then show ?thesis using Pair assms s1
      by (cases key) (auto simp: request_database_target_def eff_bind_def eff_raise_def resolved_def [of _ _ "Inl _"] intro: resolve_outcome)
  qed
qed

lemma target_failure_keeps:
  "py_targets (snd (target_failure env entry_id e s)) = py_targets s"
  "py_saved (snd (target_failure env entry_id e s)) =
     (case e of ResolverLookupError _ \<Rightarrow> py_db s | _ \<Rightarrow> py_saved s)"
  "\<exists>e'. fst (target_failure env entry_id e s) = Inl e' \<and>
     (case e of ResolverLookupError _ \<Rightarrow> e' = HTTPException 404 ''Resolver entry was not found.'' | _ \<Rightarrow> True)"
  by (cases e; simp add: eff_then_def eff_bind_def session_commit_def guard_failure_def eff_modify_def eff_raise_def)+

lemma database_target_outcome:
  assumes "database_resolver_target env entry_id s = (r, s')" "py_db s = py_saved s"
  shows "py_saved s' = py_saved s \<and> (\<exists>e. r = Inl e) \<or>
    (\<exists>a. py_saved s' = with_attempt a (py_saved s) \<and> kept_attempt entry_id r a)"
proof -
  obtain c s1 where c: "check_resolver_guard env entry_id s = (c, s1)" by fastforce
  then have same: "py_db s1 = py_saved s1" "py_saved s1 = py_saved s"
    using assms(2) by (auto simp: check_resolver_guard_def split: prod.splits)
  obtain r2 s2 where r2: "request_database_target env entry_id s1 = (r2, s2)" by fastforce
  note o = request_outcome [OF r2, unfolded resolved_def same]
  show ?thesis
  proof (cases c)
    case (Inl e)
    then show ?thesis using assms c same by (auto simp: database_resolver_target_def)
  next
    case c': (Inr u)
    show ?thesis
    proof (cases r2)
      case (Inl e)
      have run: "(r, s') = target_failure env entry_id e s2"
        using assms c c' r2 Inl by (simp add: database_resolver_target_def)
      note tf = target_failure_keeps [of env entry_id e s2, folded run, unfolded fst_conv snd_conv]
      show ?thesis
      proof (cases "\<exists>m. e = ResolverLookupError m")
        case True
        then have "r = Inl (HTTPException 404 ''Resolver entry was not found.'')" "py_saved s' = py_db s2"
          using tf by auto
        then show ?thesis using kept_lookup [of entry_id s1] request_outcome [OF r2] Inl True same by auto
      next
        case False
        then have "py_saved s' = py_saved s2" using tf(2) by (cases e) auto
        then have "py_saved s' = py_saved s" using o by simp
        then show ?thesis using tf(3) by blast
      qed
    next
      case (Inr url)
      then have "r = Inr url" "py_saved s' = py_db s2"
        using assms c c' r2 by (auto simp: database_resolver_target_def eff_then_def eff_bind_def guard_success_def
            session_commit_def eff_modify_def eff_return_def)
      then show ?thesis using kept_redirect [of entry_id s1] request_outcome [OF r2] Inr same by auto
    qed
  qed
qed

lemma database_target_keeps_cache:
  assumes "database_resolver_target env entry_id s = (r, s')"
  shows "py_targets s' = py_targets s"
proof -
  obtain c s1 where c: "check_resolver_guard env entry_id s = (c, s1)" by fastforce
  then have s1: "py_targets s1 = py_targets s" by (auto simp: check_resolver_guard_def split: prod.splits)
  obtain r2 s2 where r2: "request_database_target env entry_id s1 = (r2, s2)" by fastforce
  have s2: "py_targets s2 = py_targets s1" using request_outcome [OF r2] by (simp add: resolved_def)
  show ?thesis
  proof (cases c)
    case (Inl e)
    then show ?thesis using assms c s1 by (simp add: database_resolver_target_def)
  next
    case c': (Inr u)
    show ?thesis
    proof (cases r2)
      case (Inl e)
      then have "(r, s') = target_failure env entry_id e s2" using assms c c' r2 by (simp add: database_resolver_target_def)
      from target_failure_keeps(1) [of env entry_id e s2, folded this] show ?thesis using s1 s2 by simp
    next
      case (Inr url)
      then show ?thesis using assms c c' r2 s1 s2
        by (auto simp: database_resolver_target_def eff_then_def eff_bind_def guard_success_def
            session_commit_def eff_modify_def eff_return_def)
    qed
  qed
qed

lemma token_check_pure: "resolver_token_is_valid env token s = (fst (resolver_token_is_valid env token s), s)"
proof (cases "case pe_resolver_token env of None \<Rightarrow> return False | Some expected \<Rightarrow> compare_digest token expected")
  case (Inl e)
  then show ?thesis by (simp add: resolver_token_is_valid_def eff_bind_def)
next
  case (Inr equal)
  have "snd (in_session (resolver_token_is_stored (pe_sha256 env) token) s) = s"
    by (simp add: in_session_def resolver_token_is_stored_def)
  with Inr show ?thesis
    by (cases "fst (in_session (resolver_token_is_stored (pe_sha256 env) token) s)";
        cases "in_session (resolver_token_is_stored (pe_sha256 env) token) s")
      (auto simp: resolver_token_is_valid_def eff_bind_def eff_catch_def eff_return_def eff_raise_def)
qed

lemma play_run:
  "play env entry_id token s =
     (case fst (resolver_token_is_valid env token (s\<lparr>py_db := py_saved s\<rparr>)) of
        Inl e \<Rightarrow> (Inl e, s\<lparr>py_db := py_saved s\<rparr>)
      | Inr False \<Rightarrow> (Inl (HTTPException 403 ''Invalid resolver token.''), s\<lparr>py_db := py_saved s\<rparr>)
      | Inr True \<Rightarrow> (case eff_bind (cached_database_resolver_target env entry_id)
            (\<lambda>target. case target of Some t \<Rightarrow> eff_return t | None \<Rightarrow> manifest_resolver_target env entry_id)
            (s\<lparr>py_db := py_saved s\<rparr>) of (r, s') \<Rightarrow> (r, s'\<lparr>py_db := py_saved s'\<rparr>)))"
proof -
  let ?s = "s\<lparr>py_db := py_saved s\<rparr>"
  have *: "play_request env entry_id token ?s = (case fst (resolver_token_is_valid env token ?s) of
        Inl e \<Rightarrow> (Inl e, ?s) | Inr valid \<Rightarrow> (if \<not> valid then eff_raise (HTTPException 403 ''Invalid resolver token.'')
       else eff_bind (cached_database_resolver_target env entry_id) (\<lambda>target. case target of
           Some t \<Rightarrow> eff_return t
         | None \<Rightarrow> manifest_resolver_target env entry_id)) ?s)"
    using token_check_pure [of env token ?s]
    by (auto simp: play_request_def eff_bind_run [of "resolver_token_is_valid env token"] prod_eq_iff split: sum.split)
  show ?thesis unfolding play_def *
    by (cases "fst (resolver_token_is_valid env token ?s)") (auto split: bool.split simp: eff_raise_def)
qed

lemma miss_run:
  assumes "pe_has_database env" "target_get (play_now env s) entry_id (py_targets s) = (None, cache)"
  shows "cached_database_resolver_target env entry_id s =
    (case database_resolver_target env entry_id
       (s\<lparr>py_targets := cache, py_torbox := (py_torbox s)\<lparr>ts_metrics := resolver_cache_miss (ts_metrics (py_torbox s))\<rparr>\<rparr>) of
       (Inl e, s') \<Rightarrow> (Inl e, s')
     | (Inr t, s') \<Rightarrow> (Inr (Some t), s'\<lparr>py_targets := target_put (play_now env s') entry_id t (py_targets s')\<rparr>))"
  using assms by (simp add: cached_database_resolver_target_def eff_then_def eff_bind_def in_torbox_def with_metrics_def
      eff_modify_def split: sum.split prod.split)

lemma hit_run:
  assumes "pe_has_database env" "target_get (play_now env s) entry_id (py_targets s) = (Some t, cache)"
  shows "cached_database_resolver_target env entry_id s =
    (Inr (Some t), s\<lparr>py_targets := cache, py_torbox := (py_torbox s)\<lparr>ts_metrics := resolver_cache_hit (ts_metrics (py_torbox s))\<rparr>\<rparr>)"
  using assms by (simp add: cached_database_resolver_target_def eff_then_def eff_bind_def in_torbox_def with_metrics_def
      eff_modify_def eff_return_def)

lemma cached_target_outcome:
  assumes "cached_database_resolver_target env entry_id s = (r, s')" "py_db s = py_saved s"
  shows "py_saved s' = py_saved s \<and> (fst (target_get (play_now env s) entry_id (py_targets s)) = None \<longrightarrow> pe_has_database env \<longrightarrow> (\<exists>e. r = Inl e)) \<or>
    (\<exists>a. py_saved s' = with_attempt a (py_saved s) \<and> pe_has_database env \<and>
       (case r of Inl e \<Rightarrow> kept_attempt entry_id (Inl e) a | Inr t \<Rightarrow> \<exists>u. t = Some u \<and> kept_attempt entry_id (Inr u) a))"
proof (cases "pe_has_database env")
  case db: True
  obtain hit cache where h: "target_get (play_now env s) entry_id (py_targets s) = (hit, cache)" by fastforce
  show ?thesis
  proof (cases hit)
    case None
    let ?s = "s\<lparr>py_targets := cache, py_torbox := (py_torbox s)\<lparr>ts_metrics := resolver_cache_miss (ts_metrics (py_torbox s))\<rparr>\<rparr>"
    obtain r2 s2 where d: "database_resolver_target env entry_id ?s = (r2, s2)" by fastforce
    from database_target_outcome [OF d] assms(2)
    have o: "py_saved s2 = py_saved s \<and> (\<exists>e. r2 = Inl e) \<or>
        (\<exists>a. py_saved s2 = with_attempt a (py_saved s) \<and> kept_attempt entry_id r2 a)" by simp
    show ?thesis
    proof (cases r2)
      case (Inl e)
      then have "r = Inl e" "s' = s2" using assms(1) miss_run [OF db h [unfolded None]] d by simp_all
      then show ?thesis using o Inl db by auto
    next
      case (Inr t)
      then have "r = Inr (Some t)" "py_saved s' = py_saved s2"
        using assms(1) miss_run [OF db h [unfolded None]] d by auto
      then show ?thesis using o Inr db by auto
    qed
  next
    case (Some t)
    then show ?thesis using assms(1) hit_run [OF db h [unfolded Some]] h by auto
  qed
next
  case False
  then show ?thesis using assms(1) by (simp add: cached_database_resolver_target_def eff_return_def)
qed

section \<open>Properties\<close>

text \<open>C8. The play endpoint sends nobody anywhere without a valid token: when the token is neither the
  configured one nor the digest of a stored token that is not revoked, the request fails, and it changes
  nothing: no request to TorBox, no cache entry, no attempt, no failure held against the entry.\<close>

theorem play_requires_token:
  assumes "pe_resolver_token env \<noteq> Some token"
    and "\<And>t. t \<in> set (db_resolver_tokens (py_saved s)) \<Longrightarrow> rtk_token_hash t = pe_sha256 env token \<Longrightarrow> rtk_revoked_at t \<noteq> None"
  shows "returned (fst (play env entry_id token s)) = False \<and> snd (play env entry_id token s) = s\<lparr>py_db := py_saved s\<rparr>"
proof -
  have none: "filter (\<lambda>t. rtk_token_hash t = pe_sha256 env token \<and> rtk_revoked_at t = None) (db_resolver_tokens (py_saved s)) = []"
    using assms(2) by (auto simp: filter_empty_conv)
  have "fst (resolver_token_is_valid env token (s\<lparr>py_db := py_saved s\<rparr>)) \<noteq> Inr True"
  proof (cases "pe_resolver_token env")
    case None
    then show ?thesis
      by (simp add: resolver_token_is_valid_def eff_raise_def eff_return_def eff_catch_def in_session_def
          resolver_token_is_stored_def none)
  next
    case (Some expected)
    then show ?thesis using assms(1)
      by (cases "compare_digest token expected")
        (auto simp: resolver_token_is_valid_def compare_digest_def eff_raise_def eff_return_def eff_catch_def in_session_def
          resolver_token_is_stored_def none eff_bind_def eff_lift_def split: if_splits)
  qed
  then show ?thesis by (auto simp: play_run split: sum.split bool.split)
qed


text \<open>C14. A resolved playback target is reused: after a play that was answered by TorBox, a play of the
  same entry with a valid token before the cached target expires gives the same URL and sends no
  request, whatever targets of fewer other entries than the cache holds were looked up or stored in
  between.\<close>

theorem second_play_cached:
  assumes "play env entry_id token s = (return url, s1)" "pe_has_database env"
    and "fst (target_get (play_now env s) entry_id (py_targets s)) = None"
    and "od_ok (tc_entries (py_targets s))" "length (tc_entries (py_targets s)) \<le> nat (tc_max_entries (py_targets s))"
    and "py_targets s2 = run_cache target_get target_put ops (py_targets s1)"
    and "entry_id \<notin> op_key ` set ops" "card (op_key ` set ops) < nat (tc_max_entries (py_targets s))"
    and "play_now env s2 < play_now env s1 + tc_ttl_seconds (py_targets s)"
    and "fst (resolver_token_is_valid env token' (s2\<lparr>py_db := py_saved s2\<rparr>)) = return True"
  shows "\<exists>cache m. play env entry_id token' s2 = (return url, s2\<lparr>py_db := py_saved s2, py_targets := cache,
    py_torbox := (py_torbox s2)\<lparr>ts_metrics := m\<rparr>\<rparr>)"
proof -
  let ?s = "s\<lparr>py_db := py_saved s\<rparr>"
  obtain cache where h: "target_get (play_now env s) entry_id (py_targets s) = (None, cache)"
    using assms(3) by (cases "target_get (play_now env s) entry_id (py_targets s)") auto
  have h': "target_get (play_now env ?s) entry_id (py_targets ?s) = (None, cache)" using h by (simp add: play_now_def)
  have cache: "target.bounded cache" "tc_ttl_seconds cache = tc_ttl_seconds (py_targets s)"
    "tc_max_entries cache = tc_max_entries (py_targets s)"
    using target.bounded_get [of "py_targets s" "play_now env s" entry_id] assms(4,5) h
    by (auto simp: target.bounded_def target_get_def split: option.splits if_splits)
  let ?missed = "?s\<lparr>py_targets := cache, py_torbox := (py_torbox ?s)\<lparr>ts_metrics := resolver_cache_miss (ts_metrics (py_torbox ?s))\<rparr>\<rparr>"
  obtain r0 s0 where d: "database_resolver_target env entry_id ?missed = (r0, s0)" by fastforce
  have tg: "py_targets s0 = cache" using database_target_keeps_cache [OF d] by simp
  have valid: "fst (resolver_token_is_valid env token ?s) = Inr True"
    using assms(1) by (auto simp: play_run split: sum.splits bool.splits)
  have r0: "r0 = Inr url" "py_targets s1 = target_put (play_now env s1) entry_id url cache"
    using assms(1) valid miss_run [OF assms(2) h'] d tg
    by (cases r0; auto simp: play_run eff_bind_def eff_return_def play_now_def)+
  have "fst (target_get (play_now env s2) entry_id (py_targets s2)) = Some url"
    using target.put_then_get [OF cache(1) assms(7), of "play_now env s2" url "play_now env s1"] assms(6,8,9) r0 cache by simp
  then obtain cache2 where "target_get (play_now env s2) entry_id (py_targets s2) = (Some url, cache2)"
    by (cases "target_get (play_now env s2) entry_id (py_targets s2)") auto
  then have "cached_database_resolver_target env entry_id (s2\<lparr>py_db := py_saved s2\<rparr>) =
      (Inr (Some url), s2\<lparr>py_db := py_saved s2, py_targets := cache2,
        py_torbox := (py_torbox s2)\<lparr>ts_metrics := resolver_cache_hit (ts_metrics (py_torbox s2))\<rparr>\<rparr>)"
    using hit_run [OF assms(2), of "s2\<lparr>py_db := py_saved s2\<rparr>" entry_id url cache2] by (simp add: play_now_def)
  then have "play env entry_id token' s2 = (return url, s2\<lparr>py_db := py_saved s2, py_targets := cache2,
    py_torbox := (py_torbox s2)\<lparr>ts_metrics := resolver_cache_hit (ts_metrics (py_torbox s2))\<rparr>\<rparr>)"
    using assms(10) by (simp add: play_run eff_bind_def eff_return_def)
  then show ?thesis by blast
qed

text \<open>C25. Recovery never plays another file: the file of the restored torrent that playback continues
  with is a file that the extraction accepts, and its path or its name is that of the saved file.\<close>

theorem recovered_file_matches:
  assumes "recover_torrent_file fuel env c info_hash title saved s = (return f, s')"
  shows "(normalized_path (tf_path f) = normalized_path (tf_path saved) \<or> same_name saved f) \<and>
    (\<exists>torrent. torrent_is_ready torrent \<and> f \<in> set (ef_files (extract_torbox_files [torrent] Torrents)))"
proof -
  let ?Q = "\<lambda>f. (normalized_path (tf_path f) = normalized_path (tf_path saved) \<or> same_name saved f) \<and>
    (\<exists>torrent. torrent_is_ready torrent \<and> f \<in> set (ef_files (extract_torbox_files [torrent] Torrents)))"
  have one: "hd (filter P xs) \<in> set xs \<and> P (hd (filter P xs))" if "length (filter P xs) = 1" for P and xs :: "torbox_file list"
  proof -
    have "hd (filter P xs) \<in> set (filter P xs)" using that by (intro list.set_sel(1)) auto
    then show ?thesis by simp
  qed
  have match: "?Q f" if "torrent_is_ready t" "matching_file t saved = Some f" for t f
    using that one [of "\<lambda>f. tf_size f = tf_size saved" "filter (same_name saved) (ef_files (extract_torbox_files [t] Torrents))"]
      one [of "same_name saved" "ef_files (extract_torbox_files [t] Torrents)"]
    by (auto simp: matching_file_def Let_def find_Some_iff split: option.splits if_splits)
  have loop: "ensures (\<lambda>_. True) ?Q (recovery_attempts n fuel env c info_hash saved found)" for n found
  proof (induction n arbitrary: found)
    case (Suc n)
    show ?case
    proof (cases "ready_match (fst found) saved")
      case None
      have "ensures (\<lambda>_. True) ?Q (eff_bind (poll_torrent fuel env c info_hash (snd found)) (recovery_attempts n fuel env c info_hash saved))"
        by (rule ensures_bind [where R = "\<lambda>_. True"]) (simp_all add: Suc.IH)
      then have "ensures (\<lambda>_. True) ?Q (eff_then (recovery_sleep env)
          (eff_bind (poll_torrent fuel env c info_hash (snd found)) (recovery_attempts n fuel env c info_hash saved)))"
        by (rule ensures_then [where R = "\<lambda>_. True", rotated]) simp
      then show ?thesis using None by simp
    next
      case (Some g)
      then have "?Q g" using match by (auto simp: ready_match_def split: option.splits if_splits)
      then show ?thesis unfolding recovery_attempts.simps Some option.case ensures_simps(1) .
    qed
  qed simp
  have "ensures (\<lambda>_. True) ?Q (recover_torrent_file fuel env c info_hash title saved)"
    unfolding recover_torrent_file_def
    by (rule ensures_bind [where R = "\<lambda>_. True", OF ensures_any]) (rule loop)
  then show ?thesis using assms by (rule ensuresD)
qed

section \<open>Witnesses\<close>

definition demo_playback_env :: "time playback_env" where
  "demo_playback_env = \<lparr>pe_torbox = demo_env [], pe_list_fuel = 2, pe_torbox_base_url = ''u'', pe_resolver_token = Some ''t'',
     pe_torbox_api_key = Some ''k'', pe_stored_api_key = (\<lambda>_. return None), pe_has_database = True,
     pe_library_root = Abs [], pe_sha256 = id\<rparr>"

definition demo_entry :: library_entry_row where
  "demo_entry = \<lparr>ler_id = 1, ler_opaque_id = ''e'', ler_media_item_id = 1, ler_torbox_file_id = None, ler_info_hash = None,
     ler_source_kind = Some ''webdl'', ler_source_item_id = Some ''2'', ler_source_item_name = None,
     ler_source_file_id = Some ''3'', ler_source_file_name = Some ''f.mkv'', ler_source_file_path = None,
     ler_source_file_mime_type = None, ler_source_file_size = None, ler_category = ''movies'',
     ler_season_number = None, ler_episode_number = None\<rparr>"

definition demo_playback_state :: "time playback_state" where
  "demo_playback_state = \<lparr>py_torbox = demo_state, py_db = empty_db, py_saved = empty_db\<lparr>db_library_entries := [demo_entry]\<rparr>,
     py_targets = \<lparr>tc_ttl_seconds = 30, tc_max_entries = 2, tc_entries = []\<rparr>,
     py_guard = \<lparr>g_config = default_guard_config, negative_until = [], failure_states = []\<rparr>,
     py_fs = \<lparr>fs_cwd = [''w''], fs_nodes = []\<rparr>\<rparr>"

lemma demo_env_simps [simp]:
  "pe_has_database demo_playback_env" "pe_torbox_api_key demo_playback_env = Some ''k''"
  "pe_resolver_token demo_playback_env = Some ''t''" "play_now demo_playback_env s = ts_world (py_torbox s)"
  by (simp_all add: demo_playback_env_def play_now_def demo_env_def)

lemma demo_token: "fst (resolver_token_is_valid demo_playback_env ''t'' s) = return True"
  by (simp add: resolver_token_is_valid_def demo_playback_env_def compare_digest_def eff_return_def)

lemma demo_resolved:
  "resolve_torbox_target demo_playback_env ''e'' ''k'' c s =
     (return (request_download_url ''u'' ''k'' \<lparr>tf_kind = WebDl, tf_item_id = ''2'', tf_file_id = ''3'', tf_folder_name = [],
        tf_file_name = ''f.mkv'', tf_path = ''f.mkv'', tf_mime_type = [], tf_size = None\<rparr>),
      s\<lparr>py_db := with_attempt (attempt_of (py_db s) ''e'' (Some 1) ''redirect'' None) (py_db s)\<rparr>)"
  if "db_library_entries (py_db s) = [demo_entry]"
  using that by (cases c) (simp_all add: resolve_torbox_target_def eff_bind_run in_session_def library_entry_of_def demo_entry_def
      saved_torbox_file_def stored_file_of_def playback_kind_def or_text_def playback_target_def in_torbox_def eff_catch_def
      record_in_session eff_return_def eff_then_def demo_playback_env_def record_attempt_run)

lemma demo_played:
  obtains url s1 where "play demo_playback_env ''e'' ''t'' demo_playback_state = (return url, s1)"
    "play_now demo_playback_env s1 = 0" "py_targets s1 = target_put 0 ''e'' url (py_targets demo_playback_state)"
proof -
  have "\<exists>url s1. play demo_playback_env ''e'' ''t'' demo_playback_state = (return url, s1) \<and>
    play_now demo_playback_env s1 = 0 \<and> py_targets s1 = target_put 0 ''e'' url (py_targets demo_playback_state)"
    by (simp add: play_run demo_token cached_database_resolver_target_def database_resolver_target_def check_resolver_guard_def
        request_database_target_def torbox_api_key_of_def target_get_def demo_resolved eff_then_def eff_bind_def
        in_torbox_def with_metrics_def eff_return_def eff_modify_def guard_success_def session_commit_def
        demo_playback_state_def demo_state_def
        check_def negative_deadline_def circuit_open_def)
  then show ?thesis using that by blast
qed

theorem play_requires_token_witness:
  "snd (play demo_playback_env ''e'' ''x'' demo_playback_state) = demo_playback_state\<lparr>py_db := py_saved demo_playback_state\<rparr>"
  using play_requires_token [of demo_playback_env "''x''" demo_playback_state "''e''"]
  by (simp add: demo_playback_state_def empty_db_def)


theorem second_play_cached_witness:
  "\<exists>url s1 s' cache m. play demo_playback_env ''e'' ''t'' demo_playback_state = (return url, s1) \<and>
     play demo_playback_env ''e'' ''t'' s1 = (return url, s1\<lparr>py_db := py_saved s1, py_targets := cache,
       py_torbox := (py_torbox s1)\<lparr>ts_metrics := m\<rparr>\<rparr>)"
proof -
  obtain url s1 where run: "play demo_playback_env ''e'' ''t'' demo_playback_state = (return url, s1)"
    "play_now demo_playback_env s1 = 0" by (rule demo_played)
  have "\<exists>cache m. play demo_playback_env ''e'' ''t'' s1 = (return url, s1\<lparr>py_db := py_saved s1, py_targets := cache,
       py_torbox := (py_torbox s1)\<lparr>ts_metrics := m\<rparr>\<rparr>)"
    by (rule second_play_cached [OF run(1), where ops = "[]"])
      (use run(2) in \<open>simp_all add: target_get_def demo_playback_state_def demo_token\<close>)
  then show ?thesis using run(1) by blast
qed

text \<open>A torrent that is finished and holds the saved file.\<close>

definition demo_torrent :: payload where
  "demo_torrent = [(''id'', JInt 7), (''name'', JStr ''n''), (''hash'', JStr ''ab''), (''download_finished'', JBool True), (''cached'', JBool True),
     (''files'', JArr [JObj [(''id'', JInt 1), (''name'', JStr ''n/f.mkv''), (''short_name'', JStr ''f.mkv''), (''mimetype'', JStr ''video/x-matroska''), (''size'', JInt 5)]])]"

definition demo_saved :: torbox_file where
  "demo_saved = \<lparr>tf_kind = Torrents, tf_item_id = ''7'', tf_file_id = ''1'', tf_folder_name = ''n'',
     tf_file_name = ''f.mkv'', tf_path = ''n/f.mkv'', tf_mime_type = [], tf_size = None\<rparr>"

theorem recovered_file_matches_witness:
  "\<exists>f s'. recover_torrent_file 3 (demo_env [demo_torrent]) (client_init ''k'' ''u'') ''ab'' ''n'' demo_saved demo_state = (return f, s') \<and>
    tf_size f = Some 5 \<and> (normalized_path (tf_path f) = normalized_path (tf_path demo_saved) \<or> same_name demo_saved f)"
proof -
  have found: "fst (find_torrent_by_hash 3 (demo_env [demo_torrent]) (client_init ''k'' ''u'') ''ab'' demo_state) = return (Some demo_torrent)"
    by code_simp
  have match: "ready_match (Some demo_torrent) demo_saved = Some (demo_saved\<lparr>tf_mime_type := ''video/x-matroska'', tf_size := Some 5\<rparr>)"
    by code_simp
  obtain s' where run: "recover_torrent_file 3 (demo_env [demo_torrent]) (client_init ''k'' ''u'') ''ab'' ''n'' demo_saved demo_state =
      (return (demo_saved\<lparr>tf_mime_type := ''video/x-matroska'', tf_size := Some 5\<rparr>), s')"
    using found match by (simp add: recover_torrent_file_def find_or_create_torrent_def eff_bind_run PLAYBACK_RECOVERY_ATTEMPTS_def
        eval_nat_numeral)
  from recovered_file_matches [OF run] show ?thesis using run by auto
qed

end
