(* ===== verification/SeasonRanking.thy ===== *)
theory SeasonRanking
  imports Json Grouping "HOL-Library.List_Lexorder" "HOL-Library.Char_ord" "HOL-Library.Product_Lexorder"
begin

text \<open>
  Season completion without its effects: release families and the choice of the sources that cover
  the missing episodes (api/app/season_completion/ranking.py), and the match of a release label with a
  show title (api/app/season_completion/matching.py).
\<close>

section \<open>Episodes\<close>

datatype episode_ref = EpisodeRef (er_season: int) (er_episode: int)

instantiation episode_ref :: linorder
begin

definition less_eq_episode_ref :: "episode_ref \<Rightarrow> episode_ref \<Rightarrow> bool" where
  "less_eq_episode_ref a b \<longleftrightarrow> (er_season a, er_episode a) \<le> (er_season b, er_episode b)"

definition less_episode_ref :: "episode_ref \<Rightarrow> episode_ref \<Rightarrow> bool" where
  "less_episode_ref a b \<longleftrightarrow> (er_season a, er_episode a) < (er_season b, er_episode b)"

instance
  by standard (auto simp: less_eq_episode_ref_def less_episode_ref_def intro: episode_ref.expand)

end

record completion_candidate =
  cc_source_id :: string
  cc_info_hash :: "string option"
  cc_title :: string
  cc_release_family :: "string option"
  cc_episodes :: "episode_ref set"
  cc_cached :: bool
  cc_action_url :: "string option"
  cc_match_labels :: "string list"

section \<open>Release families\<close>

definition episode_ahead :: regex where
  "episode_ahead = Ahead (Seq (rep 1 3 digit) (Alt not_digit Eol))"

definition RANK_SEASON_EPISODE :: regex where
  "RANK_SEASON_EPISODE = seqs [lit_ci ''s'', rep 1 2 digit, lit_ci ''e'', episode_ahead]"

definition ALT_SEASON_EPISODE :: regex where
  "ALT_SEASON_EPISODE = seqs [rep 1 2 digit, lit_ci ''x'', episode_ahead]"

definition EPISODE_ONLY :: regex where
  "EPISODE_ONLY = Seq (lit_ci ''e'') episode_ahead"

definition lower_alnum :: "char \<Rightarrow> bool" where
  "lower_alnum c \<longleftrightarrow> is_lower c \<or> is_digit c"

definition SEPARATORS :: regex where
  "SEPARATORS = plus (Chr (\<lambda>c. \<not> lower_alnum c))"

definition release_family :: "string option \<Rightarrow> string option" where
  "release_family file_name = (case file_name of None \<Rightarrow> None | Some name \<Rightarrow>
     if name = [] then None
     else case (case search RANK_SEASON_EPISODE name of Some m \<Rightarrow> Some m
                | None \<Rightarrow> (case search ALT_SEASON_EPISODE name of Some m \<Rightarrow> Some m
                    | None \<Rightarrow> search EPISODE_ONLY name)) of
       None \<Rightarrow> None
     | Some m \<Rightarrow>
         let normalized = strip (sub SEPARATORS '' '' (casefold (take (m_end m) name)))
         in if normalized = [] then None else Some normalized)"

definition dominant_release_family :: "string list \<Rightarrow> string option" where
  "dominant_release_family filenames =
     (let families = List.map_filter (\<lambda>f. release_family (Some f)) filenames;
          counts = map (\<lambda>(f, g). (f, length g)) (group_by (\<lambda>f. f) families)
      in case counts of
           [] \<Rightarrow> None
         | p # ps \<Rightarrow> Some (fst (min_by (\<lambda>(f, n). (- int n, f)) p ps)))"

section \<open>The choice of the sources\<close>

definition rank :: "episode_ref set \<Rightarrow> string option \<Rightarrow> completion_candidate \<Rightarrow> nat \<times> nat \<times> int \<times> string" where
  "rank remaining dominant_family c =
     (if cc_cached c then 0 else 1,
      if dominant_family \<noteq> None \<and> cc_release_family c = dominant_family then 0 else 1,
      - int (card (cc_episodes c \<inter> remaining)),
      casefold (cc_title c))"

definition useful_candidates :: "episode_ref set \<Rightarrow> completion_candidate list \<Rightarrow> completion_candidate list" where
  "useful_candidates remaining available = filter (\<lambda>c. cc_episodes c \<inter> remaining \<noteq> {}) available"

definition best :: "episode_ref set \<Rightarrow> string option \<Rightarrow> completion_candidate list \<Rightarrow> completion_candidate" where
  "best remaining family cs = hd (sort_key (rank remaining family) cs)"

lemma best_in: "cs \<noteq> [] \<Longrightarrow> best remaining family cs \<in> set cs"
  unfolding best_def by (metis hd_in_set length_0_conv length_sort set_sort)

function choose_loop :: "string option \<Rightarrow> episode_ref set \<Rightarrow> completion_candidate list \<Rightarrow> completion_candidate list" where
  "choose_loop family remaining available =
     (if remaining = {} then []
      else let useful = useful_candidates remaining available
           in if useful = [] then []
              else let chosen = best remaining family useful
                   in chosen # choose_loop family (remaining - cc_episodes chosen)
                        (filter (\<lambda>c. cc_source_id c \<noteq> cc_source_id chosen) available))"
  by pat_completeness auto
termination
proof (relation "measure (\<lambda>(family, remaining, available). length available)", goal_cases)
  case (2 family remaining available useful chosen)
  then have "chosen \<in> set available" using best_in [of useful remaining family] by (auto simp: useful_candidates_def)
  then show ?case by (auto intro!: length_filter_less)
qed simp

declare choose_loop.simps [simp del]

definition available_candidates :: "bool \<Rightarrow> completion_candidate list \<Rightarrow> completion_candidate list" where
  "available_candidates allow_uncached candidates = filter (\<lambda>c. cc_cached c \<or> allow_uncached) candidates"

definition choose_candidates ::
  "completion_candidate list \<Rightarrow> episode_ref set \<Rightarrow> string option \<Rightarrow> bool \<Rightarrow> completion_candidate list" where
  "choose_candidates candidates missing dominant_family allow_uncached =
     (let available = available_candidates allow_uncached candidates;
          complete = filter (\<lambda>c. missing \<subseteq> cc_episodes c) available
      in if complete \<noteq> [] then [best missing dominant_family complete]
         else choose_loop dominant_family missing available)"

section \<open>Titles\<close>

definition SHOW_TITLE_TOKEN :: regex where "SHOW_TITLE_TOKEN = plus (Chr lower_alnum)"

definition not_lower_alnum :: regex where "not_lower_alnum = Chr (\<lambda>c. \<not> lower_alnum c)"

definition SEASON_OR_EPISODE :: regex where
  "SEASON_OR_EPISODE = seqs [Alt Bol not_lower_alnum,
     Alt (seqs [chr (CHR ''s''), rep 1 2 digit, opt (Seq (chr (CHR ''e'')) (rep 1 3 digit))])
         (seqs [rep 1 2 digit, chr (CHR ''e''), rep 1 3 digit]),
     Ahead (Alt Eol not_lower_alnum)]"

definition title_tokens :: "string \<Rightarrow> string list" where
  "title_tokens value = findall SHOW_TITLE_TOKEN (casefold value)"

fun title_pattern :: "string list \<Rightarrow> regex list" where
  "title_pattern [] = []"
| "title_pattern [t] = [lit t]"
| "title_pattern (t # ts) = lit t # SEPARATORS # title_pattern ts"

definition title_matches_show :: "string \<Rightarrow> string \<Rightarrow> bool" where
  "title_matches_show show_title candidate_title =
     (let show_tokens = title_tokens show_title;
          normalized_candidate = casefold candidate_title
      in if show_tokens = [] then False
         else (case match_prefix (seqs (title_pattern show_tokens @ [Ahead (Alt Eol not_lower_alnum)])) normalized_candidate of
             None \<Rightarrow> False
           | Some m \<Rightarrow> search_from SEASON_OR_EPISODE normalized_candidate (m_end m) \<noteq> None))"

section \<open>What is chosen\<close>

definition covered :: "completion_candidate list \<Rightarrow> episode_ref set" where
  "covered cs = (\<Union>c\<in>set cs. cc_episodes c)"

lemma covered_simps [simp]:
  "covered [] = {}" "covered (c # cs) = cc_episodes c \<union> covered cs"
  by (auto simp: covered_def)

lemma useful_Nil: "useful_candidates remaining available = [] \<longleftrightarrow> covered available \<inter> remaining = {}"
  by (auto simp: useful_candidates_def covered_def filter_empty_conv)

lemma best_useful:
  fixes family :: "string option"
  assumes "useful_candidates remaining available \<noteq> []"
  defines "c \<equiv> best remaining family (useful_candidates remaining available)"
  shows "c \<in> set available" "cc_episodes c \<inter> remaining \<noteq> {}"
  using best_in [OF assms(1), of remaining family] by (auto simp: useful_candidates_def c_def)

lemma best_rank: "c \<in> set cs \<Longrightarrow> rank remaining family (best remaining family cs) \<le> rank remaining family c"
proof -
  assume "c \<in> set cs"
  then have c: "c \<in> set (sort_key (rank remaining family) cs)" by simp
  then obtain d ds where d: "sort_key (rank remaining family) cs = d # ds" by (cases "sort_key (rank remaining family) cs") auto
  have "sorted (map (rank remaining family) (d # ds))" unfolding d [symmetric] by (rule sorted_sort_key)
  then show ?thesis using c by (auto simp: best_def d)
qed

lemma choose_loop_subset: "set (choose_loop family remaining available) \<subseteq> set available"
proof (induction family remaining available rule: choose_loop.induct)
  case (1 family remaining available)
  then show ?case using best_useful(1) [of remaining available family]
    by (subst choose_loop.simps) (auto simp: Let_def)
qed

lemma covered_without:
  assumes "distinct (map key cs)" "c \<in> set cs"
  shows "covered cs = cc_episodes c \<union> covered (filter (\<lambda>d. key d \<noteq> key c) cs)"
proof -
  have "d = c" if "d \<in> set cs" "key d = key c" for d
    using assms that by (auto simp: distinct_map inj_on_def)
  then show ?thesis using assms(2) by (auto simp: covered_def)
qed

lemma choose_loop_covers:
  "distinct (map cc_source_id available) \<Longrightarrow>
   covered (choose_loop family remaining available) \<inter> remaining = covered available \<inter> remaining"
proof (induction family remaining available rule: choose_loop.induct)
  case (1 family remaining available)
  let ?u = "useful_candidates remaining available"
  let ?c = "best remaining family ?u"
  let ?rest = "filter (\<lambda>c. cc_source_id c \<noteq> cc_source_id ?c) available"
  show ?case
  proof (cases "remaining = {} \<or> ?u = []")
    case True
    then show ?thesis by (subst choose_loop.simps) (auto simp: useful_Nil Let_def)
  next
    case False
    then have c: "?c \<in> set available" using best_useful(1) by blast
    have IH: "covered (choose_loop family (remaining - cc_episodes ?c) ?rest) \<inter> (remaining - cc_episodes ?c)
        = covered ?rest \<inter> (remaining - cc_episodes ?c)"
      using False by (intro 1) (auto simp: distinct_map_filter "1.prems")
    have sub: "covered (choose_loop family (remaining - cc_episodes ?c) ?rest) \<subseteq> covered available"
      using choose_loop_subset [of family "remaining - cc_episodes ?c" ?rest] by (auto simp: covered_def)
    have step: "choose_loop family remaining available = ?c # choose_loop family (remaining - cc_episodes ?c) ?rest"
      using False by (subst choose_loop.simps) (simp add: Let_def)
    show ?thesis
      unfolding step covered_without [OF "1.prems" c]
      using IH sub covered_without [OF "1.prems" c] by auto
  qed
qed

lemma choose_loop_useful:
  "i < length (choose_loop family remaining available) \<Longrightarrow>
   \<not> cc_episodes (choose_loop family remaining available ! i) \<inter> remaining
      \<subseteq> covered (take i (choose_loop family remaining available))"
proof (induction family remaining available arbitrary: i rule: choose_loop.induct)
  case (1 family remaining available)
  let ?u = "useful_candidates remaining available"
  let ?c = "best remaining family ?u"
  let ?rest = "filter (\<lambda>c. cc_source_id c \<noteq> cc_source_id ?c) available"
  have ne: "remaining \<noteq> {}" "?u \<noteq> []"
    using "1.prems" by (auto simp: choose_loop.simps [of family remaining available] Let_def split: if_splits)
  then have step: "choose_loop family remaining available = ?c # choose_loop family (remaining - cc_episodes ?c) ?rest"
    by (subst choose_loop.simps) (simp add: Let_def)
  show ?case
  proof (cases i)
    case 0
    then show ?thesis using best_useful(2) [OF ne(2), of family] by (auto simp: step)
  next
    case (Suc j)
    then have "\<not> cc_episodes (choose_loop family (remaining - cc_episodes ?c) ?rest ! j) \<inter> (remaining - cc_episodes ?c)
        \<subseteq> covered (take j (choose_loop family (remaining - cc_episodes ?c) ?rest))"
      using "1.prems" ne by (intro "1.IH") (auto simp: step)
    then show ?thesis using Suc by (auto simp: step)
  qed
qed

lemma chosen_covers:
  assumes "distinct (map cc_source_id candidates)"
  shows "covered (choose_candidates candidates missing family allow_uncached) \<inter> missing
    = covered (available_candidates allow_uncached candidates) \<inter> missing"
proof -
  let ?available = "available_candidates allow_uncached candidates"
  let ?complete = "filter (\<lambda>c. missing \<subseteq> cc_episodes c) ?available"
  show ?thesis
  proof (cases "?complete = []")
    case True
    have "distinct (map cc_source_id ?available)"
      using assms by (simp add: available_candidates_def distinct_map_filter)
    from choose_loop_covers [OF this] True show ?thesis by (simp add: choose_candidates_def)
  next
    case False
    from best_in [OF False, of missing family] have
      "best missing family ?complete \<in> set ?available" "missing \<subseteq> cc_episodes (best missing family ?complete)"
      by auto
    with False show ?thesis by (auto simp: choose_candidates_def covered_def)
  qed
qed

text \<open>C36. The chosen sources are among the cached ones (or all, when uncached ones are allowed). If one of
  them has every missing episode, exactly one source is chosen, a best ranked one of those. Otherwise each
  chosen source adds a missing episode that the earlier ones lack, and together they cover every missing
  episode that any available source has (source ids being distinct).\<close>

theorem season_sources_chosen:
  fixes candidates :: "completion_candidate list" and allow_uncached :: bool
  defines "available \<equiv> available_candidates allow_uncached candidates"
  assumes "distinct (map cc_source_id candidates)"
  shows "let chosen = choose_candidates candidates missing family allow_uncached in
     set chosen \<subseteq> {c \<in> set candidates. cc_cached c \<or> allow_uncached} \<and>
     (if \<exists>c\<in>set available. missing \<subseteq> cc_episodes c
      then \<exists>c. chosen = [c] \<and> missing \<subseteq> cc_episodes c \<and>
        (\<forall>d\<in>set available. missing \<subseteq> cc_episodes d \<longrightarrow> rank missing family c \<le> rank missing family d)
      else covered chosen \<inter> missing = covered available \<inter> missing \<and>
        (\<forall>i < length chosen. \<not> cc_episodes (chosen ! i) \<inter> missing \<subseteq> covered (take i chosen)))"
proof -
  let ?complete = "filter (\<lambda>c. missing \<subseteq> cc_episodes c) available"
  have avail: "set available = {c \<in> set candidates. cc_cached c \<or> allow_uncached}"
    by (auto simp: available_def available_candidates_def)
  have dist: "distinct (map cc_source_id available)"
    using assms(2) by (simp add: available_def available_candidates_def distinct_map_filter)
  show ?thesis
  proof (cases "?complete = []")
    case True
    then have "choose_candidates candidates missing family allow_uncached = choose_loop family missing available"
      by (simp add: choose_candidates_def available_def [symmetric])
    then show ?thesis
      using True choose_loop_subset [of family missing available] choose_loop_covers [OF dist, of family missing]
        choose_loop_useful [of _ family missing available] avail
      by (auto simp: Let_def filter_empty_conv)
  next
    case False
    then have run: "choose_candidates candidates missing family allow_uncached = [best missing family ?complete]"
      by (simp add: choose_candidates_def available_def [symmetric])
    have b: "best missing family ?complete \<in> set ?complete" by (rule best_in [OF False])
    have "rank missing family (best missing family ?complete) \<le> rank missing family d"
      if "d \<in> set available" "missing \<subseteq> cc_episodes d" for d
      using that by (intro best_rank) simp
    with b run avail show ?thesis by (auto simp: Let_def)
  qed
qed

definition demo_candidate :: "string \<Rightarrow> episode_ref set \<Rightarrow> completion_candidate" where
  "demo_candidate i es = \<lparr>cc_source_id = i, cc_info_hash = None, cc_title = i, cc_release_family = None,
     cc_episodes = es, cc_cached = True, cc_action_url = None, cc_match_labels = []\<rparr>"

theorem season_sources_chosen_witness:
  "covered (choose_candidates [demo_candidate ''a'' {EpisodeRef 1 1}, demo_candidate ''b'' {EpisodeRef 1 2}]
      {EpisodeRef 1 1, EpisodeRef 1 2, EpisodeRef 1 3} None False)
    \<inter> {EpisodeRef 1 1, EpisodeRef 1 2, EpisodeRef 1 3} = {EpisodeRef 1 1, EpisodeRef 1 2}"
proof -
  have d: "distinct (map cc_source_id [demo_candidate ''a'' {EpisodeRef 1 1}, demo_candidate ''b'' {EpisodeRef 1 2}])"
    by (simp add: demo_candidate_def)
  show ?thesis
    using season_sources_chosen [OF d, where missing = "{EpisodeRef 1 1, EpisodeRef 1 2, EpisodeRef 1 3}"
        and family = None and allow_uncached = False]
    by (simp add: Let_def demo_candidate_def available_candidates_def)
qed

end
