(* ===== verification/StreamIdentity.thy ===== *)
theory StreamIdentity
  imports AioStreams ProviderMetadata
begin

text \<open>
  The server-side identity of an AIOStreams stream (api/app/search/stream_identity.py): its key, its
  info hash, its magnet link and the URL that makes TorBox fetch it. SHA-256 is a parameter; a URL that
  \<open>urlparse\<close> refuses is a \<open>ValueError\<close> that no caller catches.
\<close>

definition STREAM_KEY_LENGTH :: nat where "STREAM_KEY_LENGTH = 32"

record stream_identity =
  si_stream_key :: string
  si_info_hash :: "string option"
  si_magnet :: "string option"
  si_action_url :: "string option"

definition addable :: "stream_identity \<Rightarrow> bool" where
  "addable i \<longleftrightarrow> (si_info_hash i \<noteq> None \<and> si_magnet i \<noteq> None) \<or> si_action_url i \<noteq> None"

definition json_of_str :: "string option \<Rightarrow> json" where
  "json_of_str v = (case v of None \<Rightarrow> JNull | Some t \<Rightarrow> JStr t)"

text \<open>\<open>isinstance(v, int)\<close> holds of a boolean too.\<close>

fun int_or_bool :: "json \<Rightarrow> bool" where
  "int_or_bool (JInt i) = True" | "int_or_bool (JBool b) = True" | "int_or_bool _ = False"

definition stream_key_of :: "(string \<Rightarrow> string) \<Rightarrow> aio_stream \<Rightarrow> string \<Rightarrow> string \<Rightarrow> string" where
  "stream_key_of sha256_hex st media_type media_id =
     (let file_name = jget (st_behavior_hints st) ''filename'';
          video_size = jget (st_behavior_hints st) ''videoSize''
      in take STREAM_KEY_LENGTH (sha256_hex (json_compact (JObj [
        (''file_idx'', case st_file_idx st of None \<Rightarrow> JNull | Some i \<Rightarrow> JInt i),
        (''filename'', json_of_str (jstr file_name)),
        (''info_hash'', json_of_str (normalize_info_hash (st_info_hash st))),
        (''media_id'', JStr media_id), (''media_type'', JStr media_type),
        (''name'', json_of_str (st_name st)), (''title'', json_of_str (st_title st)),
        (''video_size'', if int_or_bool video_size then video_size else JNull)]))))"

definition magnet_url :: "string option \<Rightarrow> string option result" where
  "magnet_url value = (case value of
     None \<Rightarrow> return None
   | Some v \<Rightarrow> bind_res (urlparse v) (\<lambda>u. return (if casefold (url_scheme u) \<noteq> ''magnet'' then None else Some v)))"

definition looks_like_torbox_action_stream :: "aio_stream \<Rightarrow> bool" where
  "looks_like_torbox_action_stream st \<longleftrightarrow>
     (case jstr (jget (st_raw st) ''service'') of
        Some service \<Rightarrow> casefold service = ''torbox'' | None \<Rightarrow> False) \<or>
     (let combined = casefold (join '' '' (filter (\<lambda>f. strip f \<noteq> []) (List.map_filter (\<lambda>f. f) [st_name st, st_title st, st_description st])))
      in list_ex (\<lambda>marker. contains marker combined) [''[tb'', ''instant tb'', ''cast (tb'', ''dl with tb'', ''torbox''])"

definition action_url_of :: "aio_stream \<Rightarrow> string option result" where
  "action_url_of st = (case st_url st of
     None \<Rightarrow> return None
   | Some url \<Rightarrow> bind_res (magnet_url (Some url)) (\<lambda>m.
       if m \<noteq> None then return None
       else bind_res (urlparse url) (\<lambda>u.
         if casefold (url_scheme u) \<notin> {''http'', ''https''} then return None
         else return (if looks_like_torbox_action_stream st then Some url else None))))"

text \<open>\<open>xt.split(":", maxsplit=2)[-1]\<close>\<close>

definition after_two_colons :: "string \<Rightarrow> string" where
  "after_two_colons xt =
     (case partition_at (CHR '':'') xt of None \<Rightarrow> xt
      | Some (_, r) \<Rightarrow> (case partition_at (CHR '':'') r of None \<Rightarrow> r | Some (_, q) \<Rightarrow> q))"

definition info_hash_from_magnet :: "string option \<Rightarrow> string option result" where
  "info_hash_from_magnet magnet = (case magnet of
     None \<Rightarrow> return None
   | Some m \<Rightarrow> bind_res (urlparse m) (\<lambda>u.
       return (case find (\<lambda>xt. startswith (casefold xt) ''urn:btih:'') (parse_qs_get (url_query u) ''xt'') of
           None \<Rightarrow> None | Some xt \<Rightarrow> normalize_info_hash (Some (after_two_colons xt)))))"

definition stream_identity_of :: "(string \<Rightarrow> string) \<Rightarrow> aio_stream \<Rightarrow> string \<Rightarrow> string \<Rightarrow> stream_identity result" where
  "stream_identity_of sha256_hex st media_type media_id =
     bind_res (magnet_url (st_url st)) (\<lambda>magnet.
     bind_res (case normalize_info_hash (st_info_hash st) of
         Some h \<Rightarrow> return (Some h) | None \<Rightarrow> info_hash_from_magnet magnet) (\<lambda>info_hash.
     bind_res (action_url_of st) (\<lambda>action_url.
       return \<lparr>si_stream_key = stream_key_of sha256_hex st media_type media_id, si_info_hash = info_hash,
         si_magnet = (case magnet of Some m \<Rightarrow> Some m
            | None \<Rightarrow> map_option (\<lambda>h. ''magnet:?xt=urn:btih:'' @ h) info_hash),
         si_action_url = action_url\<rparr>)))"

fun find_stream_by_key :: "(string \<Rightarrow> string) \<Rightarrow> aio_stream list \<Rightarrow> string \<Rightarrow> string \<Rightarrow> string \<Rightarrow> aio_stream option result" where
  "find_stream_by_key sha256_hex [] media_type media_id stream_key = return None"
| "find_stream_by_key sha256_hex (st # sts) media_type media_id stream_key =
     bind_res (stream_identity_of sha256_hex st media_type media_id) (\<lambda>i.
       if si_stream_key i = stream_key then return (Some st)
       else find_stream_by_key sha256_hex sts media_type media_id stream_key)"

definition stream_display_name :: "aio_stream \<Rightarrow> string" where
  "stream_display_name st =
     (case jstr (jget (st_behavior_hints st) ''filename'') of
        Some f \<Rightarrow> if strip f \<noteq> [] then strip f
          else (case st_title st of Some t \<Rightarrow> strip t
            | None \<Rightarrow> (case st_name st of Some n \<Rightarrow> strip n | None \<Rightarrow> ''Strmline selected stream''))
      | None \<Rightarrow> (case st_title st of Some t \<Rightarrow> strip t
            | None \<Rightarrow> (case st_name st of Some n \<Rightarrow> strip n | None \<Rightarrow> ''Strmline selected stream'')))"

section \<open>What the identity promises\<close>

lemma magnet_url_Some: "magnet_url v = return (Some m) \<Longrightarrow> v = Some m"
  by (auto simp: magnet_url_def bind_res_Inr_iff split: option.splits if_splits)

lemma normalize_info_hash_pattern:
  "normalize_info_hash v = Some h \<Longrightarrow> \<exists>t. v = Some t \<and> h = casefold (strip t) \<and> fullmatch INFO_HASH_PATTERN (strip t)"
  by (auto simp: normalize_info_hash_def Let_def split: option.splits if_splits)

lemma no_magnet_with_action:
  "magnet_url (st_url st) = return (Some m) \<Longrightarrow> action_url_of st = return None"
  using magnet_url_Some [of "st_url st" m] by (auto simp: action_url_of_def)

text \<open>The links an identity offers are the stream's own: a magnet link is the stream's URL or built from
  its hash, an action URL is the stream's http(s) URL and never stands beside the stream's own magnet.\<close>

lemma identity_links:
  assumes "stream_identity_of sha st media_type media_id = return i"
  shows "(si_info_hash i \<noteq> None \<longrightarrow> si_magnet i \<noteq> None) \<and>
    (si_action_url i \<noteq> None \<longrightarrow> si_action_url i = st_url st \<and> looks_like_torbox_action_stream st \<and>
       (\<exists>u. urlparse (the (st_url st)) = return u \<and> casefold (url_scheme u) \<in> {''http'', ''https''})) \<and>
    (\<forall>m. magnet_url (st_url st) = return (Some m) \<longrightarrow> si_magnet i = Some m \<and> si_action_url i = None)"
proof -
  from assms obtain magnet info_hash action_url where
    r: "magnet_url (st_url st) = return magnet" "action_url_of st = return action_url"
    and i: "i = \<lparr>si_stream_key = stream_key_of sha st media_type media_id, si_info_hash = info_hash,
      si_magnet = (case magnet of Some m \<Rightarrow> Some m | None \<Rightarrow> map_option (\<lambda>h. ''magnet:?xt=urn:btih:'' @ h) info_hash),
      si_action_url = action_url\<rparr>"
    by (auto simp: stream_identity_of_def bind_res_Inr_iff)
  have "action_url \<noteq> None \<Longrightarrow> action_url = st_url st \<and> looks_like_torbox_action_stream st \<and>
       (\<exists>u. urlparse (the (st_url st)) = return u \<and> casefold (url_scheme u) \<in> {''http'', ''https''})"
    using r(2) by (auto simp: action_url_of_def bind_res_Inr_iff split: option.splits if_splits)
  then show ?thesis using r no_magnet_with_action [of st] by (auto simp: i split: option.splits)
qed

text \<open>A URL that \<open>urlparse\<close> refuses makes the identity, and the search over the streams, fail.\<close>

lemma identity_bad_url:
  "st_url st = Some ''http://[x/'' \<Longrightarrow>
   stream_identity_of sha st media_type media_id = raise (ValueError ''Invalid IPv6 URL'')"
  by (simp add: stream_identity_of_def magnet_url_def urlparse_def urlsplit_def Let_def scheme_char_def is_alnum_def
      is_digit_def is_upper_def is_lower_def casefold_char_def code_def startswith_def netloc_ok_def)

end
