(* ===== verification/SeasonDiscovery.thy ===== *)
theory SeasonDiscovery
  imports SeasonRanking StreamIdentity
begin

text \<open>
  Finding the sources of missing episodes (api/app/season_completion/discovery.py). The clients are
  parameters, as the module's protocols have them; the fetches, which the code starts in this order
  under a semaphore, run one after another here, and all of them run before a failure is raised. The
  character of the cached mark outside the modelled alphabet is read modulo 256, as in JsonText.
\<close>

section \<open>The request limiter\<close>

definition MIN_AIOSTREAMS_REQUEST_INTERVAL_SECONDS :: time where
  "MIN_AIOSTREAMS_REQUEST_INTERVAL_SECONDS = 2"

text \<open>The sleep of \<open>AioStreamsRequestLimiter.wait\<close>, which runs under its lock; 0 when there is none.\<close>

definition limiter_delay :: "time \<Rightarrow> time option \<Rightarrow> time" where
  "limiter_delay now last_request_at = (case last_request_at of
     None \<Rightarrow> 0
   | Some t \<Rightarrow> max 0 (MIN_AIOSTREAMS_REQUEST_INTERVAL_SECONDS - (now - t)))"

section \<open>Source ids\<close>

definition is_cached_action_stream :: "aio_stream \<Rightarrow> bool" where
  "is_cached_action_stream st \<longleftrightarrow>
     (let label = casefold (join '' '' (filter (\<lambda>v. v \<noteq> []) (List.map_filter (\<lambda>f. f) [st_name st, st_title st])))
      in contains (''[tb'' @ [CHR 0xA1]) label \<or> contains ''[tb cached'' label)"

definition PACK_TOTAL_SIZE :: regex where
  "PACK_TOTAL_SIZE = seqs [chr (CHR ''/''), Star (Chr is_space),
     Grp ''1'' (Seq (plus digit) (opt (Seq (chr (CHR ''.'')) (plus digit)))), Star (Chr is_space),
     Grp ''2'' (Chr (\<lambda>c. casefold_char c \<in> set ''kmgt'')), lit_ci ''b'', WordB]"

definition SIZE_UNITS :: "string \<Rightarrow> rat" where
  "SIZE_UNITS u = (if u = ''k'' then 1024 else if u = ''m'' then 1024 ^ 2 else if u = ''g'' then 1024 ^ 3 else 1024 ^ 4)"

definition EPISODE_IN_LABEL :: regex where
  "EPISODE_IN_LABEL = plus (seqs [Star (one_of '' ._-''), Alt (lit_ci ''e'') (lit_ci ''ep''), rep 1 3 digit])"

definition size_value :: "json \<Rightarrow> int option" where
  "size_value v = (case v of JInt i \<Rightarrow> Some i | JBool b \<Rightarrow> Some (if b then 1 else 0) | _ \<Rightarrow> None)"

text \<open>\<open>float(text) * unit > size * 1.2\<close>; an integer too large for a float is an \<open>OverflowError\<close>.\<close>

definition larger_than_size :: "string \<Rightarrow> string \<Rightarrow> int \<Rightarrow> bool result" where
  "larger_than_size amount unit_name size_of_file =
     (case to_double (of_int size_of_file) of
        Fin x \<Rightarrow> return (float_greater (float_mult (float_of_text amount) (Fin (SIZE_UNITS (casefold unit_name))))
                   (float_mult (Fin x) (float_of_text ''1.2'')))
      | _ \<Rightarrow> raise (OverflowError ''int too large to convert to float''))"

definition is_multi_file_pack :: "aio_stream \<Rightarrow> bool result" where
  "is_multi_file_pack st = (case (size_value (jget (st_behavior_hints st) ''videoSize''), st_description st) of
     (Some video_size, Some description) \<Rightarrow>
       if video_size \<le> 0 then return False
       else (case search PACK_TOTAL_SIZE description of
           None \<Rightarrow> return False
         | Some m \<Rightarrow> (case (group description m ''1'', group description m ''2'') of
             (Some amount, Some unit_name) \<Rightarrow> larger_than_size amount unit_name video_size
           | _ \<Rightarrow> return False))
   | _ \<Rightarrow> return False)"

definition line_break :: "char \<Rightarrow> bool" where
  "line_break c \<longleftrightarrow> (10 \<le> code c \<and> code c \<le> 13) \<or> (28 \<le> code c \<and> code c \<le> 30) \<or> code c = 0x85"

definition provider_folder_label :: "string option \<Rightarrow> string option result" where
  "provider_folder_label description = (case description of
     None \<Rightarrow> return None
   | Some [] \<Rightarrow> raise (IndexError ''list index out of range'')
   | Some d \<Rightarrow> let first_line = dropWhile (\<lambda>c. \<not> is_alnum c) (lstrip_by is_space (takeWhile (\<lambda>c. \<not> line_break c) d))
       in return (if first_line = [] then None else Some first_line))"

definition non_empty :: "string option \<Rightarrow> string option" where
  "non_empty v = (case v of Some (c # t) \<Rightarrow> Some (c # t) | _ \<Rightarrow> None)"

definition pack_label :: "aio_stream \<Rightarrow> string option result" where
  "pack_label st = bind_res (provider_folder_label (st_description st)) (\<lambda>folder.
     return (case or_else folder (st_title st) of
       None \<Rightarrow> None
     | Some label \<Rightarrow> non_empty (Some (strip (sub EPISODE_IN_LABEL [] label)))))"

definition key_material :: "string option list \<Rightarrow> string" where
  "key_material vs = join [CHR 0x00] (filter (\<lambda>v. v \<noteq> []) (List.map_filter (\<lambda>v. v) vs))"

definition action_key :: "(string \<Rightarrow> string) \<Rightarrow> aio_stream \<Rightarrow> string result" where
  "action_key sha256_hex st = bind_res (is_multi_file_pack st) (\<lambda>pack.
     bind_res (if pack then bind_res (pack_label st) (\<lambda>label.
                 return (key_material [st_name st, jstr (jget (st_behavior_hints st) ''bingeGroup''), label]))
               else return (key_material [st_name st, st_title st, jstr (jget (st_behavior_hints st) ''filename'')]))
       (\<lambda>material. return (take 32 (sha256_hex material))))"

definition source_id_of :: "(string \<Rightarrow> string) \<Rightarrow> aio_stream \<Rightarrow> stream_identity \<Rightarrow> string option result" where
  "source_id_of sha256_hex st i = (case si_info_hash i of
     Some h \<Rightarrow> return (Some (''hash:'' @ h))
   | None \<Rightarrow> if si_action_url i = None \<or> \<not> is_cached_action_stream st then return None
       else bind_res (action_key sha256_hex st) (\<lambda>k. return (Some (''action:'' @ k))))"

section \<open>Candidates\<close>

definition source_cached :: "stream_identity \<Rightarrow> (string, bool) odict \<Rightarrow> bool" where
  "source_cached i cached_by_hash = (case si_info_hash i of
     Some h \<Rightarrow> (case map_of cached_by_hash h of None \<Rightarrow> False | Some b \<Rightarrow> b)
   | None \<Rightarrow> si_action_url i \<noteq> None)"

definition match_labels :: "aio_stream \<Rightarrow> string option \<Rightarrow> string list result" where
  "match_labels st file_name = bind_res (provider_folder_label (st_description st)) (\<lambda>folder.
     return (od_keys (group_by (\<lambda>l. l) (filter (\<lambda>l. l \<noteq> []) (List.map_filter (\<lambda>l. l) [file_name, st_title st, folder])))))"

definition candidate_of :: "string \<Rightarrow> aio_stream \<Rightarrow> stream_identity \<Rightarrow> episode_ref set \<Rightarrow> bool \<Rightarrow> completion_candidate result" where
  "candidate_of source_id st i episodes cached =
     (let safe_filename = jstr (jget (st_behavior_hints st) ''filename'')
      in bind_res (match_labels st safe_filename) (\<lambda>labels.
        return \<lparr>cc_source_id = source_id, cc_info_hash = si_info_hash i,
          cc_title = (case or_else (non_empty safe_filename) (or_else (non_empty (st_title st)) (non_empty (st_name st))) of
             Some t \<Rightarrow> t | None \<Rightarrow> source_id),
          cc_release_family = release_family (or_else (non_empty safe_filename) (st_title st)),
          cc_episodes = episodes, cc_cached = cached, cc_action_url = si_action_url i, cc_match_labels = labels\<rparr>))"

definition completion_media_id :: "episode_ref \<Rightarrow> string" where
  "completion_media_id e = ''completion:'' @ str_int (er_season e) @ '':'' @ str_int (er_episode e)"

type_synonym sourced_stream = "string option \<times> episode_ref \<times> aio_stream \<times> stream_identity"

definition sourced :: "(string \<Rightarrow> string) \<Rightarrow> episode_ref \<times> aio_stream \<Rightarrow> sourced_stream result" where
  "sourced sha256_hex = (\<lambda>(episode, st).
     bind_res (stream_identity_of sha256_hex st ''series'' (completion_media_id episode)) (\<lambda>i.
     bind_res (source_id_of sha256_hex st i) (\<lambda>source_id. return (source_id, episode, st, i))))"

definition flat_streams :: "(episode_ref \<times> aio_stream list) list \<Rightarrow> (episode_ref \<times> aio_stream) list" where
  "flat_streams by_episode = concat (map (\<lambda>(episode, sts). map (\<lambda>st. (episode, st)) sts) by_episode)"

definition group_candidate :: "(string, bool) odict \<Rightarrow> string \<times> sourced_stream list \<Rightarrow> completion_candidate result" where
  "group_candidate cached_by_hash = (\<lambda>(source_id, group).
     case hd group of (_, _, st, i) \<Rightarrow>
       candidate_of source_id st i (set (map (\<lambda>(_, episode, _, _). episode) group)) (source_cached i cached_by_hash))"

definition group_stream_candidates ::
  "(string \<Rightarrow> string) \<Rightarrow> (episode_ref \<times> aio_stream list) list \<Rightarrow> (string, bool) odict \<Rightarrow> completion_candidate list result" where
  "group_stream_candidates sha256_hex by_episode cached_by_hash =
     bind_res (mapM (sourced sha256_hex) (flat_streams by_episode)) (\<lambda>labelled.
       mapM (group_candidate cached_by_hash)
         (group_by (\<lambda>(s, _). the s) (filter (\<lambda>(s, _). s \<noteq> None) labelled)))"

definition stream_hashes :: "(string \<Rightarrow> string) \<Rightarrow> (episode_ref \<times> aio_stream list) list \<Rightarrow> string list result" where
  "stream_hashes sha256_hex by_episode =
     bind_res (mapM (\<lambda>(episode, st). stream_identity_of sha256_hex st ''series'' (completion_media_id episode))
         (flat_streams by_episode))
       (\<lambda>is. return (sorted_list_of_set (set (List.map_filter si_info_hash is))))"

section \<open>What is discovered\<close>

definition stream_source :: "(string \<Rightarrow> string) \<Rightarrow> episode_ref \<Rightarrow> aio_stream \<Rightarrow> string option result" where
  "stream_source sha256_hex episode st =
     bind_res (stream_identity_of sha256_hex st ''series'' (completion_media_id episode)) (source_id_of sha256_hex st)"

lemma sourced_run:
  "sourced sha (e, st) = return (s, e', st', i) \<Longrightarrow> e' = e \<and> st' = st \<and> stream_source sha e st = return s"
  by (auto simp: sourced_def stream_source_def bind_res_Inr_iff)

lemma candidate_fields:
  "candidate_of source_id st i episodes cached = return c \<Longrightarrow> cc_source_id c = source_id \<and> cc_episodes c = episodes"
  by (auto simp: candidate_of_def Let_def bind_res_Inr_iff)

lemma list_all2_set2: "list_all2 P xs ys \<Longrightarrow> y \<in> set ys \<Longrightarrow> \<exists>x\<in>set xs. P x y"
  by (induction rule: list_all2_induct) auto

lemma list_all2_set1: "list_all2 P xs ys \<Longrightarrow> x \<in> set xs \<Longrightarrow> \<exists>y\<in>set ys. P x y"
  by (induction rule: list_all2_induct) auto

lemma grouped_ids:
  assumes "mapM (group_candidate cached_by_hash) groups = return cs"
  shows "map cc_source_id cs = od_keys groups"
proof -
  have "list_all2 (\<lambda>x y. group_candidate cached_by_hash x = return y) groups cs" by (rule mapM_rel [OF assms])
  then show ?thesis
  proof (induction rule: list_all2_induct)
    case (Cons g gs c cs)
    then show ?case using candidate_fields by (auto simp: group_candidate_def split: prod.splits)
  qed simp
qed

lemma grouped_distinct:
  "group_stream_candidates sha by_episode cached_by_hash = return cs \<Longrightarrow> distinct (map cc_source_id cs)"
  using group_by_ok by (auto simp: group_stream_candidates_def bind_res_Inr_iff od_ok_def dest!: grouped_ids)

text \<open>The streams found for the missing episodes are grouped into candidates with distinct source ids:
  there is one for exactly the sources that some stream has, and its episodes are exactly those for which a
  stream of that source was found.\<close>

theorem candidates_grouped:
  assumes "group_stream_candidates sha by_episode cached_by_hash = return cs"
  shows "distinct (map cc_source_id cs) \<and>
    cc_source_id ` set cs = {s. \<exists>(e, st)\<in>set (flat_streams by_episode). stream_source sha e st = return (Some s)} \<and>
    (\<forall>c\<in>set cs. cc_episodes c =
       {e. \<exists>st. (e, st) \<in> set (flat_streams by_episode) \<and> stream_source sha e st = return (Some (cc_source_id c))})"
proof -
  obtain labelled where l: "mapM (sourced sha) (flat_streams by_episode) = return labelled"
    and cs: "mapM (group_candidate cached_by_hash) (group_by (\<lambda>(s, _). the s) (filter (\<lambda>(s, _). s \<noteq> None) labelled)) = return cs"
    using assms by (auto simp: group_stream_candidates_def bind_res_Inr_iff)
  let ?kept = "filter (\<lambda>(s, _). s \<noteq> None) labelled"
  let ?groups = "group_by (\<lambda>(s, _). the s) ?kept"
  note rel = mapM_rel [OF l] and rel' = mapM_rel [OF cs]
  have lab: "(\<exists>i. (Some s, e, st, i) \<in> set labelled) \<longleftrightarrow>
      (e, st) \<in> set (flat_streams by_episode) \<and> stream_source sha e st = return (Some s)" for s e st
  proof
    assume "\<exists>i. (Some s, e, st, i) \<in> set labelled"
    then obtain i where "(Some s, e, st, i) \<in> set labelled" by blast
    from list_all2_set2 [OF rel this] show "(e, st) \<in> set (flat_streams by_episode) \<and> stream_source sha e st = return (Some s)"
      using sourced_run by fastforce
  next
    assume a: "(e, st) \<in> set (flat_streams by_episode) \<and> stream_source sha e st = return (Some s)"
    from list_all2_set1 [OF rel conjunct1 [OF a]] obtain s' e' st' i where
      "(s', e', st', i) \<in> set labelled" "sourced sha (e, st) = return (s', e', st', i)" by auto
    with sourced_run [OF this(2)] a show "\<exists>i. (Some s, e, st, i) \<in> set labelled" by auto
  qed
  have group: "cc_source_id c = k \<and> cc_episodes c = set (map (\<lambda>(_, e, _, _). e) g)"
    if "group_candidate cached_by_hash (k, g) = return c" for k g c
    using that candidate_fields by (auto simp: group_candidate_def split: prod.splits)
  note ids = grouped_ids [OF cs]
  have members: "g = filter (\<lambda>(s, _). s = Some k) labelled" if "(k, g) \<in> set ?groups" for k g
    using group_by_member(1) [OF that] by (auto intro!: filter_cong split: prod.splits)
  have eps: "cc_episodes c = {e. \<exists>st i. (Some (cc_source_id c), e, st, i) \<in> set labelled}" if c: "c \<in> set cs" for c
  proof -
    obtain k g where kg: "(k, g) \<in> set ?groups" "group_candidate cached_by_hash (k, g) = return c"
      using list_all2_set2 [OF rel' c] by auto
    have "cc_episodes c = {e. \<exists>x\<in>set labelled. fst x = Some k \<and> e = fst (snd x)}"
      using group [OF kg(2)] members [OF kg(1)] by (auto simp: split_def)
    then show ?thesis using group [OF kg(2)] by (simp add: Bex_def split_paired_Ex)
  qed
  have keys: "cc_source_id ` set cs = {s. \<exists>e st i. (Some s, e, st, i) \<in> set labelled}"
  proof -
    have "cc_source_id ` set cs = set (od_keys ?groups)" using ids by (metis list.set_map)
    also have "\<dots> = (\<lambda>(s, _). the s) ` set ?kept" using group_by_keys [of "\<lambda>(s, _). the s" ?kept] by simp
    also have "\<dots> = {s. \<exists>x\<in>set labelled. fst x = Some s}" by (force simp: image_iff split_def)
    also have "\<dots> = {s. \<exists>e st i. (Some s, e, st, i) \<in> set labelled}" by (simp add: Bex_def split_paired_Ex)
    finally show ?thesis .
  qed
  show ?thesis
    using grouped_distinct [OF assms] eps keys lab by auto
qed

definition demo_stream :: aio_stream where
  "demo_stream = \<lparr>st_name = Some ''[TB cached]'', st_title = None, st_description = None, st_url = Some ''http://a/'',
     st_info_hash = None, st_file_idx = None, st_behavior_hints = [], st_raw = []\<rparr>"

lemma demo_chars: "char_of (116 :: nat) = CHR ''t''" "char_of (98 :: nat) = CHR ''b''"
  by (simp_all add: char_of_def bit_iff_odd)

lemma demo_identity:
  "stream_identity_of (\<lambda>_. ''k'') demo_stream t i =
     return \<lparr>si_stream_key = ''k'', si_info_hash = None, si_magnet = None, si_action_url = Some ''http://a/''\<rparr>"
proof -
  have u: "urlparse ''http://a/'' = return \<lparr>url_scheme = ''http'', url_netloc = ''a'', url_path = ''/'', url_query = []\<rparr>"
    by (simp add: urlparse_def urlsplit_def Let_def scheme_char_def is_alnum_def is_digit_def is_upper_def is_lower_def
        casefold_char_def code_def startswith_def netloc_ok_def before_def after_def partition_at_def rpartition_at_def
        without_params_def)
  have "looks_like_torbox_action_stream demo_stream"
    by (simp add: looks_like_torbox_action_stream_def demo_stream_def jget_def List.map_filter_def strip_by_Nil_iff strip_def
        is_space_def code_def casefold_char_def is_upper_def startswith_def demo_chars)
  then have a: "action_url_of demo_stream = return (Some ''http://a/'')"
    by (simp add: action_url_of_def magnet_url_def u demo_stream_def casefold_char_def is_upper_def code_def)
  show ?thesis
    by (simp add: stream_identity_of_def a stream_key_of_def Let_def STREAM_KEY_LENGTH_def)
      (simp add: demo_stream_def magnet_url_def u casefold_char_def is_upper_def code_def normalize_info_hash_def
        info_hash_from_magnet_def)
qed

theorem candidates_grouped_witness:
  "\<exists>cs. group_stream_candidates (\<lambda>_. ''k'') [(EpisodeRef 1 1, [demo_stream]), (EpisodeRef 1 2, [demo_stream])] [] = return cs \<and>
     (\<forall>c\<in>set cs. cc_source_id c = ''action:k'' \<longrightarrow> cc_episodes c = {EpisodeRef 1 1, EpisodeRef 1 2})"
proof -
  let ?by = "[(EpisodeRef 1 1, [demo_stream]), (EpisodeRef 1 2, [demo_stream])]"
  let ?i = "\<lparr>si_stream_key = ''k'', si_info_hash = None, si_magnet = None, si_action_url = Some ''http://a/''\<rparr>"
  have cached: "is_cached_action_stream demo_stream"
    by (simp add: is_cached_action_stream_def demo_stream_def List.map_filter_def casefold_char_def is_upper_def code_def startswith_def demo_chars)
  have src: "source_id_of (\<lambda>_. ''k'') demo_stream ?i = return (Some ''action:k'')"
    by (simp add: source_id_of_def cached action_key_def is_multi_file_pack_def size_value_def)
      (simp add: demo_stream_def jget_def)
  have s: "sourced (\<lambda>_. ''k'') (e, demo_stream) = return (Some ''action:k'', e, demo_stream, ?i)" for e
    by (simp add: sourced_def demo_identity src)
  have g: "\<exists>c. group_candidate [] (k, (x, e, demo_stream, ?i) # xs) = return c" for k x e xs
    by (simp add: Let_def group_candidate_def candidate_of_def match_labels_def provider_folder_label_def demo_stream_def)
  have "\<exists>cs. group_stream_candidates (\<lambda>_. ''k'') ?by [] = return cs"
    using g by (auto simp: group_stream_candidates_def flat_streams_def s group_by_def bind_res_Inr_iff)
  then obtain cs where cs: "group_stream_candidates (\<lambda>_. ''k'') ?by [] = return cs" by blast
  have ss: "stream_source (\<lambda>_. ''k'') e demo_stream = return (Some ''action:k'')" for e
    by (simp add: stream_source_def demo_identity src)
  have eps: "{e. \<exists>st. (e, st) \<in> set (flat_streams ?by) \<and> stream_source (\<lambda>_. ''k'') e st = return (Some ''action:k'')}
      = {EpisodeRef 1 1, EpisodeRef 1 2}"
    using ss by (auto simp: flat_streams_def)
  note r = bspec [OF conjunct2 [OF conjunct2 [OF candidates_grouped [OF cs]]]]
  show ?thesis
  proof (intro exI [of _ cs] conjI cs ballI impI)
    fix c assume c: "c \<in> set cs" "cc_source_id c = ''action:k''"
    show "cc_episodes c = {EpisodeRef 1 1, EpisodeRef 1 2}"
      using r [OF c(1)] unfolding c(2) eps .
  qed
qed

end
