(* ===== verification/SeasonMetadata.thy ===== *)
theory SeasonMetadata
  imports SeasonRanking Tables
begin

text \<open>
  What season completion reads: TMDB payloads (api/app/season_completion/metadata.py) and the shows of
  the library (api/app/season_completion/inventory.py). A \<open>date\<close> is its proleptic ordinal, as
  \<open>date.toordinal\<close> gives it, so that comparing dates is comparing integers;
  \<open>date.fromisoformat\<close> is CPython's for the versions the project allows.
\<close>

section \<open>Dates\<close>

type_synonym date = int

definition is_leap :: "int \<Rightarrow> bool" where
  "is_leap y \<longleftrightarrow> 4 dvd y \<and> (\<not> 100 dvd y \<or> 400 dvd y)"

definition days_before_year :: "int \<Rightarrow> int" where
  "days_before_year y = (let p = y - 1 in p * 365 + p div 4 - p div 100 + p div 400)"

definition days_in_month :: "int \<Rightarrow> int \<Rightarrow> int" where
  "days_in_month y m = (if m = 2 then (if is_leap y then 29 else 28)
     else if m \<in> {4, 6, 9, 11} then 30 else 31)"

definition date_of_ymd :: "int \<Rightarrow> int \<Rightarrow> int \<Rightarrow> date option" where
  "date_of_ymd y m d =
     (if 1 \<le> y \<and> y \<le> 9999 \<and> 1 \<le> m \<and> m \<le> 12 \<and> 1 \<le> d \<and> d \<le> days_in_month y m
      then Some (days_before_year y + sum_list (map (days_in_month y) [1..m - 1]) + d) else None)"

definition MAXORDINAL :: date where "MAXORDINAL = 3652059"

text \<open>Monday is 0.\<close>

definition weekday :: "date \<Rightarrow> int" where "weekday d = (d + 6) mod 7"

definition iso_week1_monday :: "int \<Rightarrow> date" where
  "iso_week1_monday y =
     (let first_day = days_before_year y + 1; first_weekday = weekday first_day
      in first_day - first_weekday + (if 3 < first_weekday then 7 else 0))"

definition date_of_iso_week :: "int \<Rightarrow> int \<Rightarrow> int \<Rightarrow> date option" where
  "date_of_iso_week y w d =
     (let first_weekday = weekday (days_before_year y + 1);
          long_year = (first_weekday = 3 \<or> (first_weekday = 2 \<and> is_leap y));
          result = iso_week1_monday y + (w - 1) * 7 + d - 1
      in if 1 \<le> y \<and> 1 \<le> w \<and> (w \<le> 52 \<or> (w = 53 \<and> long_year)) \<and> 1 \<le> d \<and> d \<le> 7 \<and> 1 \<le> result \<and> result \<le> MAXORDINAL
         then Some result else None)"

text \<open>\<open>n\<close> decimal digits and the rest of the text.\<close>

definition take_digits :: "nat \<Rightarrow> string \<Rightarrow> (int \<times> string) option" where
  "take_digits n s = (if n \<le> length s \<and> list_all is_digit (take n s)
     then Some (int_of_decimal (take n s), drop n s) else None)"

definition take_dash :: "bool \<Rightarrow> string \<Rightarrow> string option" where
  "take_dash expected s = (if \<not> expected then Some s else if startswith s ''-'' then Some (drop 1 s) else None)"

definition iso_week_tail :: "int \<Rightarrow> bool \<Rightarrow> string \<Rightarrow> date option" where
  "iso_week_tail y separated s = (case take_digits 2 s of
     None \<Rightarrow> None
   | Some (w, []) \<Rightarrow> date_of_iso_week y w 1
   | Some (w, r) \<Rightarrow> (case take_dash separated r of
        None \<Rightarrow> None
      | Some r' \<Rightarrow> (case take_digits 1 r' of None \<Rightarrow> None | Some (d, _) \<Rightarrow> date_of_iso_week y w d)))"

definition iso_month_tail :: "int \<Rightarrow> bool \<Rightarrow> string \<Rightarrow> date option" where
  "iso_month_tail y separated s = (case take_digits 2 s of
     None \<Rightarrow> None
   | Some (m, r) \<Rightarrow> (case take_dash separated r of
        None \<Rightarrow> None
      | Some r' \<Rightarrow> (case take_digits 2 r' of
           Some (d, []) \<Rightarrow> date_of_ymd y m d
         | _ \<Rightarrow> None)))"

definition date_fromisoformat :: "string \<Rightarrow> date option" where
  "date_fromisoformat s =
     (if length s \<notin> {7, 8, 10} then None
      else case take_digits 4 s of
        None \<Rightarrow> None
      | Some (y, r) \<Rightarrow>
          let separated = startswith r ''-''; r1 = (if separated then drop 1 r else r)
          in if startswith r1 ''W'' then iso_week_tail y separated (drop 1 r1)
             else iso_month_tail y separated r1)"

definition date_value :: "json \<Rightarrow> date option" where
  "date_value v = (case jstr v of None \<Rightarrow> None | Some t \<Rightarrow> date_fromisoformat t)"

section \<open>TMDB payloads\<close>

definition positive_int :: "json \<Rightarrow> int option" where
  "positive_int v = (case jint v of None \<Rightarrow> None | Some i \<Rightarrow> if 0 < i then Some i else None)"

definition objects_of :: "json \<Rightarrow> payload list" where
  "objects_of v = (case jlist v of None \<Rightarrow> [] | Some xs \<Rightarrow> List.map_filter jobj xs)"

definition season_numbers :: "payload \<Rightarrow> int list" where
  "season_numbers p =
     sorted_list_of_set (set (List.map_filter (\<lambda>d. positive_int (jget d ''season_number'')) (objects_of (jget p ''seasons''))))"

definition released_episode :: "date \<Rightarrow> payload \<Rightarrow> episode_ref option" where
  "released_episode today d =
     (case (positive_int (jget d ''season_number''), positive_int (jget d ''episode_number''), date_value (jget d ''air_date'')) of
        (Some s, Some e, Some air_date) \<Rightarrow> if air_date \<le> today then Some (EpisodeRef s e) else None
      | _ \<Rightarrow> None)"

definition regular_released_episodes :: "payload \<Rightarrow> date \<Rightarrow> episode_ref set" where
  "regular_released_episodes p today = set (List.map_filter (released_episode today) (objects_of (jget p ''episodes'')))"

definition tmdb_imdb_id :: "payload \<Rightarrow> string option" where
  "tmdb_imdb_id p = (case jget p ''imdb_id'' of
     JStr v \<Rightarrow> if startswith v ''tt'' \<and> isdecimal (drop 2 v) then Some v else None
   | _ \<Rightarrow> None)"

section \<open>The shows of the library\<close>

record library_show =
  ls_media_item_id :: int
  ls_tmdb_id :: "string option"
  ls_title :: string
  ls_episodes :: "episode_ref set"
  ls_filenames_by_season :: "(int, string list) odict"

type_synonym show_row = "media_item \<times> library_entry_row \<times> torbox_stored_file option \<times> string option"

definition row_episode :: "show_row \<Rightarrow> (int \<times> int) option" where
  "row_episode = (\<lambda>(_, entry, _, _). case (ler_season_number entry, ler_episode_number entry) of
     (Some s, Some e) \<Rightarrow> Some (s, e) | _ \<Rightarrow> None)"

definition row_file_name :: "show_row \<Rightarrow> string option" where
  "row_file_name = (\<lambda>(_, entry, torbox_file, _). case torbox_file of
     Some f \<Rightarrow> Some (tsf_file_name f) | None \<Rightarrow> ler_source_file_name entry)"

definition library_show_of :: "show_row list \<Rightarrow> library_show" where
  "library_show_of rows =
     (let (media_item, _, _, tmdb_id) = hd rows;
          numbered = List.map_filter (\<lambda>row. map_option (\<lambda>e. (e, row)) (row_episode row)) rows;
          named = List.map_filter (\<lambda>((s, _), row). map_option (\<lambda>n. (s, n)) (row_file_name row)) numbered
      in \<lparr>ls_media_item_id = mi_id media_item, ls_tmdb_id = tmdb_id, ls_title = mi_title media_item,
          ls_episodes = set (map (\<lambda>((s, e), _). EpisodeRef s e) numbered),
          ls_filenames_by_season = map (\<lambda>(s, ns). (s, map snd ns)) (group_by fst named)\<rparr>)"

text \<open>The joins of \<open>shows\<close>: an absent file or TMDB identity leaves a null.\<close>

definition outer_join :: "'b list \<Rightarrow> 'b option list" where
  "outer_join rs = (if rs = [] then [None] else map Some rs)"

definition show_rows :: "db \<Rightarrow> show_row list" where
  "show_rows d =
     (let rows = [(m, e, f, map_option mxi_external_id x). m \<leftarrow> db_media_items d, e \<leftarrow> db_library_entries d,
           ler_media_item_id e = mi_id m, ler_category e \<in> {''shows'', ''anime''},
           ler_season_number e \<noteq> None, ler_episode_number e \<noteq> None,
           f \<leftarrow> outer_join (filter (\<lambda>f. ler_torbox_file_id e = Some (tsf_id f)) (db_torbox_files d)),
           x \<leftarrow> outer_join (filter (\<lambda>x. mxi_media_item_id x = mi_id m \<and> mxi_provider x = ''tmdb'' \<and>
             mxi_provider_media_kind x = ''tv'') (db_external_identities d))]
      in sort_key (\<lambda>(m, e, _, _). (mi_id m, the (ler_season_number e), the (ler_episode_number e))) rows)"

definition library_shows :: "db \<Rightarrow> library_show list" where
  "library_shows d =
     filter (\<lambda>s. ls_episodes s \<noteq> {})
       (map (\<lambda>(_, rows). library_show_of rows) (sort_key fst (group_by (\<lambda>(m, _). mi_id m) (show_rows d))))"

end
