(* ===== verification/SeasonService.thy ===== *)
theory SeasonService
  imports SeasonDiscovery SeasonMetadata "HOL-Library.Sublist"
begin

text \<open>
  The season completion of a list of shows (api/app/season_completion/service.py,
  \<open>_complete_inventory\<close> and what it calls) with the client part of discovery. The clients are parameters
  over a world \<open>'w\<close>; the limiter's last request time and the sources added so far are the state that a
  failure keeps.
\<close>

section \<open>State\<close>

record 'w season_env =
  se_tmdb_json :: "string \<Rightarrow> 'w \<Rightarrow> payload result \<times> 'w"
  se_streams :: "string \<Rightarrow> string \<Rightarrow> 'w \<Rightarrow> aio_stream list result \<times> 'w"
  se_check_cached :: "string list \<Rightarrow> 'w \<Rightarrow> (string, bool) odict result \<times> 'w"
  se_trigger :: "string \<Rightarrow> 'w \<Rightarrow> (nat \<times> bool) result \<times> 'w"
  se_create_torrent :: "string \<Rightarrow> string \<Rightarrow> bool \<Rightarrow> 'w \<Rightarrow> payload result \<times> 'w"
  se_monotonic :: "'w \<Rightarrow> time"
  se_sleep :: "time \<Rightarrow> 'w \<Rightarrow> 'w"
  se_today :: "'w \<Rightarrow> date"
  se_sha256 :: "string \<Rightarrow> string"

record 'w season_state =
  sn_world :: 'w
  sn_last_request_at :: "time option"
  sn_added :: "string set"

type_synonym ('w, 'a) season = "('w season_state, 'a) eff"

definition season_world :: "('w \<Rightarrow> 'a result \<times> 'w) \<Rightarrow> ('w, 'a) season" where
  "season_world f = (\<lambda>s. case f (sn_world s) of (r, w) \<Rightarrow> (r, s\<lparr>sn_world := w\<rparr>))"

section \<open>Discovery\<close>

definition limiter_wait :: "'w season_env \<Rightarrow> ('w, unit) season" where
  "limiter_wait env = eff_modify (\<lambda>s.
     let w = sn_world s; delay = limiter_delay (se_monotonic env w) (sn_last_request_at s);
         w' = (if 0 < delay then se_sleep env delay w else w)
     in s\<lparr>sn_world := w', sn_last_request_at := Some (se_monotonic env w')\<rparr>)"

definition fetch_episode :: "'w season_env \<Rightarrow> string \<Rightarrow> episode_ref \<Rightarrow> ('w, episode_ref \<times> aio_stream list) season" where
  "fetch_episode env imdb_id e =
     eff_then (limiter_wait env)
       (eff_bind (season_world (se_streams env ''series'' (imdb_id @ '':'' @ str_int (er_season e) @ '':'' @ str_int (er_episode e))))
         (\<lambda>streams. eff_return (e, streams)))"

text \<open>\<open>asyncio.gather\<close>: every task runs; the first failure is raised.\<close>

fun run_all :: "('x \<Rightarrow> ('s, 'a) eff) \<Rightarrow> 'x list \<Rightarrow> 's \<Rightarrow> 'a result list \<times> 's" where
  "run_all f [] s = ([], s)"
| "run_all f (x # xs) s = (case f x s of (r, s1) \<Rightarrow> (case run_all f xs s1 of (rs, s2) \<Rightarrow> (r # rs, s2)))"

definition gather :: "('x \<Rightarrow> ('s, 'a) eff) \<Rightarrow> 'x list \<Rightarrow> ('s, 'a list) eff" where
  "gather f xs = (\<lambda>s. case run_all f xs s of (rs, s') \<Rightarrow> (mapM (\<lambda>r. r) rs, s'))"

definition discover_candidates :: "'w season_env \<Rightarrow> string \<Rightarrow> episode_ref set \<Rightarrow> ('w, completion_candidate list) season" where
  "discover_candidates env imdb_id missing =
     eff_bind (gather (fetch_episode env imdb_id) (sorted_list_of_set missing)) (\<lambda>results.
     eff_bind (eff_lift (stream_hashes (se_sha256 env) results)) (\<lambda>hashes.
     eff_bind (season_world (se_check_cached env hashes)) (\<lambda>cached_by_hash.
       eff_lift (group_stream_candidates (se_sha256 env) results cached_by_hash))))"

section \<open>Acquisition\<close>

definition is_duplicate_item :: "exn \<Rightarrow> bool" where
  "is_duplicate_item e = (case e of TorBoxAPIError _ c \<Rightarrow> c = Some ''DUPLICATE_ITEM'' | _ \<Rightarrow> False)"

definition add_candidate :: "'w season_env \<Rightarrow> completion_candidate \<Rightarrow> ('w, unit) season" where
  "add_candidate env c = (case cc_action_url c of
     Some url \<Rightarrow> eff_bind (season_world (se_trigger env url)) (\<lambda>_. eff_return ())
   | None \<Rightarrow> (case cc_info_hash c of
        None \<Rightarrow> eff_return ()
      | Some h \<Rightarrow> eff_catch is_duplicate_item
          (eff_bind (season_world (se_create_torrent env (''magnet:?xt=urn:btih:'' @ h) (cc_title c) (cc_cached c))) (\<lambda>_. eff_return ()))
          (\<lambda>_. eff_return ())))"

definition label_matches :: "library_show \<Rightarrow> completion_candidate \<Rightarrow> bool" where
  "label_matches shw c \<longleftrightarrow> list_ex (title_matches_show (ls_title shw))
     (if cc_match_labels c = [] then [cc_title c] else cc_match_labels c)"

definition season_family :: "library_show \<Rightarrow> int \<Rightarrow> string option" where
  "season_family shw season =
     (case dominant_release_family (case map_of (ls_filenames_by_season shw) season of None \<Rightarrow> [] | Some fs \<Rightarrow> fs) of
        Some f \<Rightarrow> Some f
      | None \<Rightarrow> dominant_release_family (concat (map snd (ls_filenames_by_season shw))))"

text \<open>The selected sources one by one: how many were added, and what they cover.\<close>

definition add_selected :: "'w season_env \<Rightarrow> episode_ref set \<Rightarrow> nat \<times> episode_ref set \<Rightarrow> completion_candidate \<Rightarrow>
    ('w, nat \<times> episode_ref set) season" where
  "add_selected env season_missing = (\<lambda>(count, covered) c.
     let covered' = covered \<union> (cc_episodes c \<inter> season_missing)
     in eff_bind (eff_get (\<lambda>s. cc_source_id c \<in> sn_added s)) (\<lambda>known.
          if known then eff_return (count, covered')
          else eff_then (add_candidate env c)
                 (eff_then (eff_modify (\<lambda>s. s\<lparr>sn_added := insert (cc_source_id c) (sn_added s)\<rparr>))
                   (eff_return (Suc count, covered')))))"

definition acquire_season :: "'w season_env \<Rightarrow> library_show \<Rightarrow> episode_ref set \<Rightarrow> string \<Rightarrow> bool \<Rightarrow>
    nat \<times> episode_ref set \<Rightarrow> int \<Rightarrow> ('w, nat \<times> episode_ref set) season" where
  "acquire_season env shw missing imdb_id allow_uncached acc season =
     (let season_missing = {e \<in> missing. er_season e = season}
      in eff_bind (discover_candidates env imdb_id season_missing) (\<lambda>candidates.
           eff_fold (add_selected env season_missing) acc
             (choose_candidates (filter (label_matches shw) candidates) season_missing (season_family shw season) allow_uncached)))"

definition acquire_missing :: "'w season_env \<Rightarrow> library_show \<Rightarrow> episode_ref set \<Rightarrow> string \<Rightarrow> bool \<Rightarrow> ('w, nat \<times> episode_ref set) season" where
  "acquire_missing env shw missing imdb_id allow_uncached =
     eff_fold (acquire_season env shw missing imdb_id allow_uncached) (0, {}) (sorted_list_of_set (er_season ` missing))"

definition released_show_episodes :: "'w season_env \<Rightarrow> library_show \<Rightarrow> ('w, string \<times> episode_ref set) season" where
  "released_show_episodes env shw = (case ls_tmdb_id shw of
     None \<Rightarrow> eff_raise (TmdbClientError ''The library item has no usable TMDB identity.'')
   | Some t \<Rightarrow> if \<not> isdecimal t then eff_raise (TmdbClientError ''The library item has no usable TMDB identity.'')
       else let tv = ''/tv/'' @ str_int (int_of_decimal t)
         in eff_bind (season_world (se_tmdb_json env tv)) (\<lambda>details.
            eff_bind (season_world (se_tmdb_json env (tv @ ''/external_ids''))) (\<lambda>external_ids.
              case tmdb_imdb_id external_ids of
                None \<Rightarrow> eff_raise (TmdbClientError ''TMDB did not provide an IMDB identity for this show.'')
              | Some imdb_id \<Rightarrow>
                  eff_bind (eff_fold (\<lambda>released season.
                      eff_bind (season_world (se_tmdb_json env (tv @ ''/season/'' @ str_int season))) (\<lambda>p.
                      eff_bind (eff_get (\<lambda>s. se_today env (sn_world s))) (\<lambda>today.
                        eff_return (released \<union> regular_released_episodes p today)))) {} (season_numbers details))
                    (\<lambda>released. eff_return (imdb_id, released)))))"

definition complete_show :: "'w season_env \<Rightarrow> library_show \<Rightarrow> bool \<Rightarrow> ('w, nat \<times> nat \<times> nat) season" where
  "complete_show env shw allow_uncached =
     eff_bind (released_show_episodes env shw) (\<lambda>(imdb_id, released).
       let missing = released - ls_episodes shw
       in eff_bind (acquire_missing env shw missing imdb_id allow_uncached) (\<lambda>(selected_count, covered).
            eff_return (card missing, selected_count, card (missing - covered))))"

section \<open>The inventory\<close>

definition is_provider_error :: "exn \<Rightarrow> bool" where
  "is_provider_error e = (case e of AioStreamsClientError _ \<Rightarrow> True | TmdbClientError _ \<Rightarrow> True | TorBoxAPIError _ _ \<Rightarrow> True | _ \<Rightarrow> False)"

definition safe_provider_error :: "exn \<Rightarrow> string" where
  "safe_provider_error e = (case e of
     TmdbClientError m \<Rightarrow> if m = [] then ''TMDB lookup failed.'' else m
   | AioStreamsClientError _ \<Rightarrow> ''AIOStreams episode lookup failed.''
   | _ \<Rightarrow> ''TorBox season acquisition failed.'')"

definition show_diagnostic :: "string \<Rightarrow> string \<Rightarrow> string" where
  "show_diagnostic title message = title @ '': '' @ message"

definition wait_for_next_show :: "'w season_env \<Rightarrow> time \<Rightarrow> int \<Rightarrow> ('w, unit) season" where
  "wait_for_next_show env started_at shows_per_minute = eff_modify (\<lambda>s.
     let delay = 60 / of_int shows_per_minute - (se_monotonic env (sn_world s) - started_at)
     in if delay \<le> 0 then s else s\<lparr>sn_world := se_sleep env delay (sn_world s)\<rparr>)"

type_synonym diagnostics = "(string option \<times> string) list"

text \<open>One show: the missing episodes found and the diagnostics.\<close>

definition check_show :: "'w season_env \<Rightarrow> bool \<Rightarrow> library_show \<Rightarrow> ('w, nat \<times> diagnostics) season" where
  "check_show env allow_uncached shw =
     eff_catch is_provider_error
       (eff_bind (complete_show env shw allow_uncached) (\<lambda>(show_missing, _, show_unresolved).
          eff_return (show_missing,
            if 0 < show_unresolved
            then [(Some (ls_title shw), show_diagnostic (ls_title shw)
                   (''No eligible sources were found for '' @ dec show_unresolved @ '' missing episode(s).''))]
            else [])))
       (\<lambda>e. eff_return (0, [(Some (ls_title shw), show_diagnostic (ls_title shw) (safe_provider_error e))]))"

fun complete_shows :: "'w season_env \<Rightarrow> bool \<Rightarrow> int \<Rightarrow> nat \<times> diagnostics \<Rightarrow> library_show list \<Rightarrow> ('w, nat \<times> diagnostics) season" where
  "complete_shows env allow_uncached shows_per_minute acc [] = eff_return acc"
| "complete_shows env allow_uncached shows_per_minute acc (shw # shows) =
     eff_bind (eff_get (\<lambda>s. se_monotonic env (sn_world s))) (\<lambda>started_at.
     eff_bind (check_show env allow_uncached shw) (\<lambda>(n, ds).
     eff_then (if shows = [] then eff_return () else wait_for_next_show env started_at shows_per_minute)
       (complete_shows env allow_uncached shows_per_minute (fst acc + n, snd acc @ ds) shows)))"

definition complete_inventory :: "'w season_env \<Rightarrow> bool \<Rightarrow> int \<Rightarrow> library_show list \<Rightarrow> ('w, nat \<times> string set \<times> diagnostics) season" where
  "complete_inventory env allow_uncached shows_per_minute shows = (\<lambda>s.
     eff_bind (complete_shows env allow_uncached shows_per_minute (0, []) shows) (\<lambda>(n, ds) s'.
       (return (n, sn_added s', ds), s')) (s\<lparr>sn_last_request_at := None, sn_added := {}\<rparr>))"

definition missing_configuration :: "string option \<Rightarrow> string option \<Rightarrow> string option \<Rightarrow> string option" where
  "missing_configuration torbox_key tmdb_key aiostreams_url =
     (let missing = List.map_filter (\<lambda>(v, label). if v = None then Some label else None)
            [(torbox_key, ''TorBox''), (tmdb_key, ''TMDB''), (aiostreams_url, ''AIOStreams'')]
      in if missing = [] then None
         else Some (''Season auto-complete requires configured '' @ join '', '' missing @ '' providers.''))"

section \<open>What a season's acquisition covers\<close>

lemma eff_bind_returned:
  "eff_bind m f s = (Inr b, s') \<Longrightarrow> \<exists>a s1. m s = (Inr a, s1) \<and> f a s1 = (Inr b, s')"
  by (cases "m s"; cases "fst (m s)") (auto simp: eff_bind_def)

lemma add_selected_covers:
  "add_selected env m (k, c0) c s = (Inr (n, cov), s') \<Longrightarrow> cov = c0 \<union> (cc_episodes c \<inter> m)"
  by (cases "cc_source_id c \<in> sn_added s") (simp_all add: add_selected_def Let_def eff_then_def, auto dest!: eff_bind_returned)

lemma add_all_cover:
  "eff_fold (add_selected env m) (k, c0) cs s = (Inr (n, cov), s') \<Longrightarrow> cov = c0 \<union> (covered cs \<inter> m)"
proof (induction cs arbitrary: k c0 s)
  case (Cons c cs)
  then obtain k1 c1 s1 where step: "add_selected env m (k, c0) c s = (Inr (k1, c1), s1)"
    and rest: "eff_fold (add_selected env m) (k1, c1) cs s1 = (Inr (n, cov), s')"
    by (auto dest!: eff_bind_returned)
  from Cons.IH [OF rest] add_selected_covers [OF step] show ?case by auto
qed simp

lemma discovered_distinct:
  "discover_candidates env imdb_id m s = (Inr cs, s') \<Longrightarrow> distinct (map cc_source_id cs)"
  by (auto simp: discover_candidates_def dest!: eff_bind_returned intro: grouped_distinct)


section \<open>A failing provider does not stop the pass\<close>

definition well_formed_stream :: "aio_stream \<Rightarrow> bool" where
  "well_formed_stream st \<longleftrightarrow> (\<forall>u. st_url st = Some u \<longrightarrow> returned (urlparse u)) \<and> st_description st \<noteq> Some [] \<and>
     (\<forall>v. size_value (jget (st_behavior_hints st) ''videoSize'') = Some v \<longrightarrow> (\<exists>x. to_double (of_int v) = Fin x))"

lemma returned_bind: "returned m \<Longrightarrow> (\<And>a. m = return a \<Longrightarrow> returned (f a)) \<Longrightarrow> returned (bind_res m f)"
  by (cases m) simp_all

lemma returned_mapM: "(\<And>x. x \<in> set xs \<Longrightarrow> returned (f x)) \<Longrightarrow> returned (mapM f xs)"
  by (induction xs) (auto intro!: returned_bind)

lemma identity_returns:
  assumes "well_formed_stream st"
  shows "returned (stream_identity_of sha st t i)"
proof -
  have m: "returned (magnet_url (st_url st))" and a: "returned (action_url_of st)"
    using assms by (auto simp: well_formed_stream_def magnet_url_def action_url_of_def split: option.splits intro!: returned_bind)
  have "returned (info_hash_from_magnet magnet)" if "magnet_url (st_url st) = return magnet" for magnet
    using that assms magnet_url_Some [of "st_url st"]
    by (cases magnet) (auto simp: well_formed_stream_def info_hash_from_magnet_def intro!: returned_bind)
  with m a show ?thesis
    unfolding stream_identity_of_def by (auto intro!: returned_bind split: option.split)
qed

lemma folder_label_returns: "well_formed_stream st \<Longrightarrow> returned (provider_folder_label (st_description st))"
  by (auto simp: well_formed_stream_def provider_folder_label_def Let_def split: option.splits list.splits)

lemma source_id_returns: "well_formed_stream st \<Longrightarrow> returned (source_id_of sha st i)"
proof -
  assume st: "well_formed_stream st"
  have "returned (is_multi_file_pack st)"
    using st by (auto simp: is_multi_file_pack_def larger_than_size_def well_formed_stream_def split: option.splits pyfloat.splits)
  moreover have "returned (pack_label st)"
    using folder_label_returns [OF st] by (auto simp: pack_label_def intro!: returned_bind)
  ultimately show ?thesis
    by (auto simp: source_id_of_def action_key_def intro!: returned_bind split: option.split)
qed

lemma candidate_returns: "well_formed_stream st \<Longrightarrow> returned (candidate_of sid st i es c)"
  using folder_label_returns [of st] by (auto simp: candidate_of_def match_labels_def Let_def intro!: returned_bind)

lemma returned_Ex: "returned r \<longleftrightarrow> (\<exists>a. r = return a)"
  by (cases r) auto

lemma hashes_return:
  "(\<And>e st. (e, st) \<in> set (flat_streams by) \<Longrightarrow> well_formed_stream st) \<Longrightarrow> returned (stream_hashes sha by)"
  by (auto simp: stream_hashes_def intro!: returned_bind returned_mapM identity_returns)

lemma grouping_returns:
  assumes "\<And>e st. (e, st) \<in> set (flat_streams by) \<Longrightarrow> well_formed_stream st"
  shows "returned (group_stream_candidates sha by cached)"
proof -
  have src: "returned (sourced sha x)" if x: "x \<in> set (flat_streams by)" for x
  proof -
    obtain e st where est: "x = (e, st)" by force
    with x assms have "well_formed_stream st" by blast
    then show ?thesis by (auto simp: est sourced_def intro!: returned_bind identity_returns source_id_returns)
  qed
  have "returned (mapM (group_candidate cached) (group_by (\<lambda>(s, _). the s) (filter (\<lambda>(s, _). s \<noteq> None) labelled)))"
    if l: "mapM (sourced sha) (flat_streams by) = return labelled" for labelled
  proof (rule returned_mapM)
    fix g assume g: "g \<in> set (group_by (\<lambda>(s, _). the s) (filter (\<lambda>(s, _). s \<noteq> None) labelled))"
    obtain k xs where kxs: "g = (k, xs)" by force
    have xs: "set xs \<subseteq> set labelled" "xs \<noteq> []"
      using group_by_member [of k xs "\<lambda>(s, _). the s" "filter (\<lambda>(s, _). s \<noteq> None) labelled"] g kxs by auto
    obtain s e st i where hd: "hd xs = (s, e, st, i)" by (cases "hd xs") auto
    then have "(s, e, st, i) \<in> set labelled" using xs hd_in_set by (metis subsetD)
    from list_all2_set2 [OF mapM_rel [OF l] this] have "(e, st) \<in> set (flat_streams by)"
      using sourced_run by fastforce
    then show "returned (group_candidate cached g)"
      using assms candidate_returns by (simp add: group_candidate_def kxs hd)
  qed
  then show ?thesis
    unfolding group_stream_candidates_def by (intro returned_bind [OF returned_mapM [OF src]])
qed

abbreviation (input) ok_or_provider_error :: "('a \<Rightarrow> bool) \<Rightarrow> 'a result \<Rightarrow> bool" where
  "ok_or_provider_error Q r \<equiv> (case r of Inl e \<Rightarrow> is_provider_error e | Inr a \<Rightarrow> Q a)"

text \<open>The clients fail with their own errors only, and the streams they return are well formed.\<close>

definition clients_behave :: "'w season_env \<Rightarrow> bool" where
  "clients_behave env \<longleftrightarrow>
     (\<forall>endpoint w. ok_or_provider_error (\<lambda>_. True) (fst (se_tmdb_json env endpoint w))) \<and>
     (\<forall>t i w. ok_or_provider_error (list_all well_formed_stream) (fst (se_streams env t i w))) \<and>
     (\<forall>hs w. ok_or_provider_error (\<lambda>_. True) (fst (se_check_cached env hs w))) \<and>
     (\<forall>url w. ok_or_provider_error (\<lambda>_. True) (fst (se_trigger env url w))) \<and>
     (\<forall>m n c w. ok_or_provider_error (\<lambda>_. True) (fst (se_create_torrent env m n c w)))"

abbreviation safely :: "('s, 'a) eff \<Rightarrow> bool" where
  "safely m \<equiv> ensures is_provider_error (\<lambda>_. True) m"

lemma ensures_world: "(\<And>w. ok_or_provider_error Q (fst (f w))) \<Longrightarrow> ensures is_provider_error Q (season_world f)"
  by (auto simp: ensures_def season_world_def split: prod.splits) (metis fst_conv)

lemma ensures_run_all:
  "(\<And>x. x \<in> set xs \<Longrightarrow> ensures P Q (f x)) \<Longrightarrow> list_all (\<lambda>r. case r of Inl e \<Rightarrow> P e | Inr a \<Rightarrow> Q a) (fst (run_all f xs s))"
proof (induction xs arbitrary: s)
  case (Cons x xs)
  then have "case fst (f x s) of Inl e \<Rightarrow> P e | Inr a \<Rightarrow> Q a" by (auto simp: ensures_def)
  moreover obtain r s1 where r: "f x s = (r, s1)" by force
  moreover obtain rs s2 where rs: "run_all f xs s1 = (rs, s2)" by force
  moreover have "list_all (\<lambda>r. case r of Inl e \<Rightarrow> P e | Inr a \<Rightarrow> Q a) (fst (run_all f xs s1))" using Cons by simp
  ultimately show ?case by simp
qed simp

lemma mapM_all:
  "list_all (\<lambda>r. case r of Inl e \<Rightarrow> P e | Inr a \<Rightarrow> Q a) rs \<Longrightarrow> (case mapM (\<lambda>r. r) rs of Inl e \<Rightarrow> P e | Inr as \<Rightarrow> list_all Q as)"
proof (induction rs)
  case (Cons r rs)
  then show ?case by (cases r; cases "mapM (\<lambda>r. r) rs") auto
qed simp

lemma ensures_gather:
  assumes "\<And>x. x \<in> set xs \<Longrightarrow> ensures P Q (f x)"
  shows "ensures P (list_all Q) (gather f xs)"
proof -
  have "case mapM (\<lambda>r. r) (fst (run_all f xs s)) of Inl e \<Rightarrow> P e | Inr as \<Rightarrow> list_all Q as" for s
    by (rule mapM_all [OF ensures_run_all [OF assms]])
  moreover have "fst (gather f xs s) = mapM (\<lambda>r. r) (fst (run_all f xs s))" for s
    by (simp add: gather_def split: prod.split)
  ultimately show ?thesis unfolding ensures_def by simp
qed

lemma discover_safely:
  assumes "clients_behave env"
  shows "safely (discover_candidates env imdb_id m)"
proof -
  have fetch: "ensures is_provider_error (\<lambda>(e, sts). list_all well_formed_stream sts) (fetch_episode env imdb_id e)" for e
    using assms unfolding fetch_episode_def limiter_wait_def clients_behave_def
    by (intro ensures_then [OF ensures_simps(5)] ensures_bind [where R = "list_all well_formed_stream"] ensures_world) auto
  have wf: "well_formed_stream st"
    if "list_all (\<lambda>(e, sts). list_all well_formed_stream sts) results" "(e, st) \<in> set (flat_streams results)"
    for results :: "(episode_ref \<times> aio_stream list) list" and e st
    using that by (auto simp: flat_streams_def list_all_iff)
  show ?thesis
    unfolding discover_candidates_def
  proof (intro ensures_bind [where R = "list_all (\<lambda>(e, sts). list_all well_formed_stream sts)"] ensures_gather fetch)
    fix results :: "(episode_ref \<times> aio_stream list) list"
    assume r: "list_all (\<lambda>(e, sts). list_all well_formed_stream sts) results"
    have h: "\<exists>hs. stream_hashes (se_sha256 env) results = return hs"
      using hashes_return [of results] wf [OF r] by (simp add: returned_Ex)
    have g: "\<exists>cs. group_stream_candidates (se_sha256 env) results cached = return cs" for cached
      using grouping_returns [of results] wf [OF r] by (simp add: returned_Ex)
    show "safely (eff_bind (eff_lift (stream_hashes (se_sha256 env) results)) (\<lambda>hashes.
       eff_bind (season_world (se_check_cached env hashes)) (\<lambda>cached_by_hash.
         eff_lift (group_stream_candidates (se_sha256 env) results cached_by_hash))))"
    proof (intro ensures_bind [where R = "\<lambda>_. True"] ensures_world)
      show "safely (eff_lift (stream_hashes (se_sha256 env) results))" using h by auto
      show "safely (eff_lift (group_stream_candidates (se_sha256 env) results cached))" for cached using g [of cached] by auto
    qed (use assms in \<open>simp add: clients_behave_def\<close>)
  qed
qed

lemma add_candidate_safely:
  assumes "clients_behave env"
  shows "safely (add_candidate env c)"
proof -
  have t: "safely (season_world (se_trigger env url))" "safely (season_world (se_create_torrent env m n a))" for url m n a
    using assms by (auto simp: clients_behave_def intro!: ensures_world)
  show ?thesis
    unfolding add_candidate_def
    by (auto split: option.split intro!: ensures_bind [OF t(1)] ensures_catch [OF ensures_bind [OF t(2)]])
qed

lemma acquire_safely:
  assumes "clients_behave env"
  shows "safely (acquire_missing env shw missing imdb_id allow_uncached)"
proof -
  have "safely (add_selected env m a c)" for m a c
    unfolding add_selected_def
    by (cases a) (auto simp: Let_def intro!: ensures_bind [OF ensures_simps(4)] ensures_then [OF add_candidate_safely [OF assms]]
        ensures_then [OF ensures_simps(5)])
  then have "safely (acquire_season env shw missing imdb_id allow_uncached a season)" for a season
    unfolding acquire_season_def Let_def by (intro ensures_bind [OF discover_safely [OF assms]] ensures_fold) auto
  then show ?thesis unfolding acquire_missing_def by (intro ensures_fold) auto
qed

lemma complete_show_safely:
  assumes "clients_behave env"
  shows "safely (complete_show env shw allow_uncached)"
proof -
  have t: "safely (season_world (se_tmdb_json env ep))" for ep
    using assms by (auto simp: clients_behave_def intro!: ensures_world)
  have rel: "safely (released_show_episodes env shw)"
    unfolding released_show_episodes_def
    by (auto simp: Let_def is_provider_error_def split: option.split
        intro!: ensures_bind [OF t] ensures_bind [OF ensures_fold [where Q = "\<lambda>_. True"]] ensures_bind [OF ensures_simps(4)])
  show ?thesis
    unfolding complete_show_def Let_def
    by (auto intro!: ensures_bind [OF rel] ensures_bind [OF acquire_safely [OF assms]])
qed

lemma check_show_returns:
  assumes "clients_behave env"
  shows "ensures (\<lambda>_. False) (\<lambda>(n, ds). \<exists>m. ds = [] \<or> ds = [(Some (ls_title shw), m)]) (check_show env allow_uncached shw)"
  unfolding check_show_def
  by (rule ensures_catch [where P = is_provider_error])
    (auto intro!: ensures_bind [OF complete_show_safely [OF assms]])

lemma complete_shows_returns:
  assumes "clients_behave env"
  shows "ensures (\<lambda>_. False) (\<lambda>(n, ds). \<exists>ds'. ds = snd acc @ ds' \<and>
      subseq (map fst ds') (map (\<lambda>shw. Some (ls_title shw)) shws))
    (complete_shows env allow_uncached shows_per_minute acc shws)"
proof (induction shws arbitrary: acc)
  case (Cons shw shws)
  show ?case
    unfolding complete_shows.simps
  proof (rule ensures_bind [OF ensures_simps(4)], rule ensures_bind [OF check_show_returns [OF assms]])
    fix started_at and r :: "nat \<times> diagnostics"
    assume r: "case r of (n, ds) \<Rightarrow> \<exists>m. ds = [] \<or> ds = [(Some (ls_title shw), m)]"
    obtain n ds where nds: "r = (n, ds)" by force
    have sub: "subseq (map fst ds @ xs) (Some (ls_title shw) # ys)" if "subseq xs ys" for xs ys
      using r that by (auto simp: nds)
    have w: "ensures (\<lambda>_. False) (\<lambda>_. True) (if shws = [] then eff_return () else wait_for_next_show env started_at shows_per_minute)"
      by (auto simp: wait_for_next_show_def)
    have "ensures (\<lambda>_. False) (\<lambda>(n', ds'). \<exists>es. ds' = snd acc @ es \<and>
        subseq (map fst es) (map (\<lambda>shw. Some (ls_title shw)) (shw # shws)))
      (complete_shows env allow_uncached shows_per_minute (fst acc + n, snd acc @ ds) shws)"
      by (rule ensures_mono [OF Cons.IH]) (auto intro!: sub)
    from ensures_then [OF w this]
    show "ensures (\<lambda>_. False) (\<lambda>(n', ds'). \<exists>es. ds' = snd acc @ es \<and>
        subseq (map fst es) (map (\<lambda>shw. Some (ls_title shw)) (shw # shws)))
      (case r of (n, ds) \<Rightarrow> eff_then (if shws = [] then eff_return () else wait_for_next_show env started_at shows_per_minute)
         (complete_shows env allow_uncached shows_per_minute (fst acc + n, snd acc @ ds) shws))"
      by (simp only: nds prod.case)
  qed
qed (auto simp: split_def)


definition demo_season_env :: "time season_env" where
  "demo_season_env = \<lparr>se_tmdb_json = (\<lambda>_ w. (raise (TmdbClientError []), w)), se_streams = (\<lambda>_ _ w. (return [], w)),
     se_check_cached = (\<lambda>_ w. (return [], w)), se_trigger = (\<lambda>_ w. (return (200, False), w)),
     se_create_torrent = (\<lambda>_ _ _ w. (return [], w)), se_monotonic = (\<lambda>w. w), se_sleep = (\<lambda>d w. w + d),
     se_today = (\<lambda>_. 0), se_sha256 = (\<lambda>t. t)\<rparr>"

definition demo_season_state :: "time season_state" where
  "demo_season_state = \<lparr>sn_world = 0, sn_last_request_at = None, sn_added = {}\<rparr>"

definition demo_show :: library_show where
  "demo_show = \<lparr>ls_media_item_id = 1, ls_tmdb_id = Some ''7'', ls_title = ''t'', ls_episodes = {}, ls_filenames_by_season = []\<rparr>"



end
