(* ===== verification/TorBoxSync.thy ===== *)
theory TorBoxSync
  imports IdentityInputs Naming ResolverManifest
begin

text \<open>
  The synchronisation of a TorBox account's downloads with the STRM library (api/app/sync/torbox_strm.py).
  The protocols the class is given (\<open>TorBoxDownloadClient\<close>, \<open>AnimeClassifier\<close>, \<open>MediaIdentityLookup\<close> with its
  optional \<open>metadata_for_tmdb_id\<close>) are fields of the environment, functions on the state of the world
  outside; SHA-256 is a parameter. The mutation tracker is the journal of \<open>LibraryFiles\<close>. A stored
  category is one of the three, paths are resolved ones and files have no carriage returns (which
  \<open>read_text\<close> would translate).
\<close>

type_synonym source_key = "string \<times> string \<times> string"

record synced_file =
  sf_path :: fpath
  sf_entry_id :: string
  sf_category :: string
  sf_title :: string
  sf_year :: "int option"
  sf_season_number :: "int option"
  sf_episode_number :: "int option"
  sf_provider :: string
  sf_provider_item_id :: string
  sf_provider_file_id :: string
  sf_content_hash :: string
  sf_tmdb_id :: "string option"
  sf_tmdb_poster_path :: "string option"
  sf_provider_item_name :: string
  sf_provider_file_name :: string
  sf_provider_file_path :: string
  sf_provider_file_mime_type :: string
  sf_provider_file_size :: "int option"
  sf_info_hash :: "string option"
  sf_source_title :: string
  sf_identity_authority :: identity_authority
  sf_identity_confidence :: "int option"
  sf_identity_resolver_version :: "string option"
  sf_processing_fingerprint :: "string option"
  sf_reused :: bool

record sync_diagnostic =
  sd_phase :: string
  sd_item_ref :: "string option"
  sd_message :: string

record sync_result =
  sr_scanned_files :: nat
  sr_written_files :: nat
  sr_skipped_files :: nat
  sr_written_paths :: "fpath list"
  sr_synced_files :: "synced_file list"
  sr_manifest_path :: "fpath option"
  sr_partial :: bool
  sr_diagnostics :: "sync_diagnostic list"
  sr_observed_excluded_prefixes :: "string set"
  sr_reused_files :: nat

record resolver_url_config =
  ru_base_url :: string
  ru_token :: string

section \<open>The object\<close>

record 'w strm_env =
  se_list :: "download_kind \<Rightarrow> 'w \<Rightarrow> payload list result \<times> 'w"
  se_api_key :: string
  se_torbox_base_url :: string
  se_library_root :: path
  se_resolver :: "resolver_url_config option"
  se_anime :: "(string \<Rightarrow> int option \<Rightarrow> 'w \<Rightarrow> bool result \<times> 'w) option"
  se_overrides :: "(string, classification_override) odict"
  se_excluded :: "string list"
  se_lookup :: "(string \<Rightarrow> int option \<Rightarrow> string \<Rightarrow> 'w \<Rightarrow> media_identity result \<times> 'w) option"
  se_loader :: "(string \<Rightarrow> string \<Rightarrow> 'w \<Rightarrow> media_identity option result \<times> 'w) option"
  se_torrent_hashes :: "(string, string) odict"
  se_identities :: identity_inputs
  se_reusable :: "(source_key, synced_file) odict"
  se_fingerprint :: string
  se_sha256 :: "string \<Rightarrow> string"

record 'w strm_state =
  ss_world :: 'w
  ss_fs :: fs
  ss_journal :: "journal option"
  ss_claimed :: "(fpath, source_key) odict"

type_synonym ('w, 'a) strm = "('w strm_state, 'a) eff"

definition in_fs :: "'a io \<Rightarrow> ('w, 'a) strm" where
  "in_fs m = (\<lambda>s. case m (ss_fs s) of (r, f) \<Rightarrow> (r, s\<lparr>ss_fs := f\<rparr>))"

definition in_world :: "('w \<Rightarrow> 'a result \<times> 'w) \<Rightarrow> ('w, 'a) strm" where
  "in_world m = (\<lambda>s. case m (ss_world s) of (r, w) \<Rightarrow> (r, s\<lparr>ss_world := w\<rparr>))"

definition track :: "fpath \<Rightarrow> ('w, unit) strm" where
  "track p = (\<lambda>s. case ss_journal s of None \<Rightarrow> (return (), s)
     | Some j \<Rightarrow> (case journal_track (ss_fs s) (Abs p) j of
         Inl e \<Rightarrow> (Inl e, s) | Inr j' \<Rightarrow> (return (), s\<lparr>ss_journal := Some j'\<rparr>)))"

definition in_root :: "'w strm_env \<Rightarrow> path \<Rightarrow> ('w, fpath) strm" where
  "in_root env p = (\<lambda>s. (ensure_within_root (ss_fs s) (se_library_root env) p, s))"

text \<open>\<open>_processing_fingerprint\<close>: the digest of a JSON text.\<close>

definition override_row :: "classification_override \<Rightarrow> string \<times> string \<times> string \<times> string" where
  "override_row ov = (category_str (co_source_category ov), co_source_prefix ov, co_title ov, category_str (co_target_category ov))"

definition row_text :: "string \<times> string \<times> string \<times> string \<Rightarrow> string" where
  "row_text = (\<lambda>(a, b, c, d). ''['' @ join '','' (map json_str [a, b, c, d]) @ '']'')"

definition fingerprint_text :: "classification_override list \<Rightarrow> string" where
  "fingerprint_text ovs =
     ''{'' @ json_str ''classification_overrides'' @ '':['' @ join '','' (map row_text (sort (map override_row ovs))) @
     ''],'' @ json_str ''pipeline'' @ '':'' @ json_str ''strmline-library-v2'' @ ''}''"

definition processing_fingerprint :: "(string \<Rightarrow> string) \<Rightarrow> classification_override list \<Rightarrow> string" where
  "processing_fingerprint sha256 ovs = sha256 (fingerprint_text ovs)"

text \<open>The dictionary of claimed paths the constructor builds.\<close>

fun claims_of :: "fs \<Rightarrow> path \<Rightarrow> (source_key, synced_file) odict \<Rightarrow> (fpath, source_key) odict \<Rightarrow> (fpath, source_key) odict result" where
  "claims_of f library_root [] d = return d"
| "claims_of f library_root ((key, sf) # rest) d =
     bind_res (ensure_within_root f library_root (Abs (sf_path sf))) (\<lambda>p. claims_of f library_root rest (AList.update p key d))"

definition folded_hashes :: "identity_inputs \<Rightarrow> identity_inputs" where
  "folded_hashes ii = ii\<lparr>ii_by_info_hash := foldl (\<lambda>d (h, i). AList.update (casefold h) i d) [] (ii_by_info_hash ii)\<rparr>"

definition overrides_by_prefix :: "classification_override list \<Rightarrow> (string, classification_override) odict" where
  "overrides_by_prefix ovs = foldl (\<lambda>d ov. AList.update (co_source_prefix ov) ov d) [] ovs"

definition strm_sync_init :: "'w strm_env \<Rightarrow> classification_override list \<Rightarrow> 'w \<Rightarrow> fs \<Rightarrow> journal option \<Rightarrow>
    ('w strm_env \<times> 'w strm_state) result" where
  "strm_sync_init args ovs w f tracker =
     bind_res (claims_of f (se_library_root args) (se_reusable args) []) (\<lambda>claimed.
     return (args\<lparr>se_overrides := overrides_by_prefix ovs, se_identities := folded_hashes (se_identities args),
         se_fingerprint := processing_fingerprint (se_sha256 args) ovs\<rparr>,
       \<lparr>ss_world = w, ss_fs = f, ss_journal = tracker, ss_claimed = claimed\<rparr>))"

section \<open>Files known from the last synchronisation\<close>

definition content_hash :: "'w strm_env \<Rightarrow> string \<Rightarrow> string" where
  "content_hash env playback_url = se_sha256 env playback_url"

definition source_file_key :: "torbox_file \<Rightarrow> source_key" where
  "source_file_key f = (download_kind_str (tf_kind f), tf_item_id f, tf_file_id f)"

definition same_source_file :: "synced_file \<Rightarrow> torbox_file \<Rightarrow> string option \<Rightarrow> bool" where
  "same_source_file cached current info_hash \<longleftrightarrow>
     sf_provider cached = download_kind_str (tf_kind current) \<and> sf_provider_item_id cached = tf_item_id current \<and>
     sf_provider_file_id cached = tf_file_id current \<and> sf_provider_item_name cached = tf_folder_name current \<and>
     sf_provider_file_name cached = tf_file_name current \<and> sf_provider_file_path cached = tf_path current \<and>
     sf_provider_file_mime_type cached = tf_mime_type current \<and> sf_provider_file_size cached = tf_size current \<and>
     sf_info_hash cached = info_hash"

definition same_identity :: "synced_file \<Rightarrow> media_identity option \<Rightarrow> bool" where
  "same_identity cached current \<longleftrightarrow> (case current of
     None \<Rightarrow> sf_tmdb_id cached = None
   | Some i \<Rightarrow> sf_tmdb_id cached = md_tmdb_id i \<and> sf_title cached = md_title i \<and> sf_year cached = md_year i \<and>
       sf_tmdb_poster_path cached = md_poster_path i \<and>
       (case md_library_category i of None \<Rightarrow> True | Some c \<Rightarrow> sf_category cached = category_str c))"

definition reusable_file :: "'w strm_env \<Rightarrow> torbox_file \<Rightarrow> string \<Rightarrow> string \<Rightarrow> string option \<Rightarrow> media_identity option \<Rightarrow>
    ('w, synced_file option) strm" where
  "reusable_file env f entry_id playback_url info_hash selected = (case map_of (se_reusable env) (source_file_key f) of
     None \<Rightarrow> eff_return None
   | Some cached \<Rightarrow>
       if \<not> (sf_entry_id cached = entry_id \<and> sf_processing_fingerprint cached = Some (se_fingerprint env) \<and>
             same_source_file cached f info_hash \<and> same_identity cached selected \<and>
             sf_content_hash cached = content_hash env playback_url)
       then eff_return None
       else eff_bind (in_root env (Abs (sf_path cached))) (\<lambda>safe_path.
         eff_get (\<lambda>s. if file_content (ss_fs s) safe_path = Some (playback_url @ [CHR 0x0A]) then Some cached else None)))"

definition library_entry_from_synced_file :: "synced_file \<Rightarrow> string \<Rightarrow> library_entry result" where
  "library_entry_from_synced_file sf playback_url =
     bind_res (parse_library_category (sf_category sf)) (\<lambda>c.
       check_entry \<lparr>le_category = c, le_title = sf_title sf, le_resolver_url = playback_url, le_year = sf_year sf,
         le_season_number = sf_season_number sf, le_episode_number = sf_episode_number sf\<rparr>)"

definition matching_excluded_prefixes :: "library_entry \<Rightarrow> string list \<Rightarrow> string list result" where
  "matching_excluded_prefixes e excluded = (if excluded = [] then return []
     else bind_res (library_entry_relative_path e) (\<lambda>p.
       return (filter (\<lambda>prefix. as_posix p = prefix \<or> startswith (as_posix p) (prefix @ ''/'')) excluded)))"

section \<open>The target path\<close>

definition claim :: "fpath \<Rightarrow> source_key \<Rightarrow> ('w, unit) strm" where
  "claim p key = eff_modify (\<lambda>s. s\<lparr>ss_claimed := AList.update p key (ss_claimed s)\<rparr>)"

definition claimable :: "'w strm_state \<Rightarrow> fpath \<Rightarrow> source_key \<Rightarrow> bool" where
  "claimable s p key \<longleftrightarrow> map_of (ss_claimed s) p = None \<or> map_of (ss_claimed s) p = Some key"

definition source_name_of :: "torbox_file \<Rightarrow> string" where
  "source_name_of f = join '' '' (filter (\<lambda>v. v \<noteq> []) [tf_folder_name f, tf_file_name f])"

definition fresh_path :: "'w strm_env \<Rightarrow> library_entry \<Rightarrow> torbox_file \<Rightarrow> string \<Rightarrow> ('w, fpath) strm" where
  "fresh_path env e f entry_id = (\<lambda>s.
     eff_bind (eff_lift (strm_file_path (ss_fs s) (se_library_root env) e)) (\<lambda>canonical_path.
     if claimable s canonical_path (source_file_key f)
     then eff_then (claim canonical_path (source_file_key f)) (eff_return canonical_path)
     else eff_bind (in_root env (alternate_version_path (Abs canonical_path) (source_name_of f) None)) (\<lambda>alternate_path.
       eff_bind (if \<not> claimable s alternate_path (source_file_key f)
           then in_root env (alternate_version_path (Abs canonical_path) (source_name_of f) (Some (take 8 entry_id)))
           else eff_return alternate_path) (\<lambda>alternate_path.
       eff_then (claim alternate_path (source_file_key f)) (eff_return alternate_path)))) s)"

definition target_path :: "'w strm_env \<Rightarrow> library_entry \<Rightarrow> torbox_file \<Rightarrow> string \<Rightarrow> ('w, fpath) strm" where
  "target_path env e f entry_id = (case map_of (se_reusable env) (source_file_key f) of
     None \<Rightarrow> fresh_path env e f entry_id
   | Some cached \<Rightarrow> eff_bind (in_root env (Abs (sf_path cached))) (\<lambda>cached_path.
       (\<lambda>s. if claimable s cached_path (source_file_key f)
         then eff_then (claim cached_path (source_file_key f)) (eff_return cached_path) s
         else fresh_path env e f entry_id s)))"

section \<open>The identity of an entry\<close>

definition with_override :: "'w strm_env \<Rightarrow> library_entry \<Rightarrow> library_entry result" where
  "with_override env e = bind_res (source_prefix_for_entry e) (\<lambda>prefix.
     apply_classification_override e (map_of (se_overrides env) prefix))"

definition selected_identity :: "'w strm_env \<Rightarrow> string \<Rightarrow> string option \<Rightarrow> media_identity option" where
  "selected_identity env torrent_id info_hash = (case map_of (ii_by_torrent_id (se_identities env)) torrent_id of
     Some i \<Rightarrow> Some i
   | None \<Rightarrow> (case info_hash of None \<Rightarrow> None | Some h \<Rightarrow> map_of (ii_by_info_hash (se_identities env)) (casefold h)))"

definition alias_identity :: "'w strm_env \<Rightarrow> library_entry \<Rightarrow> media_identity option" where
  "alias_identity env e = map_of (ii_by_alias (se_identities env))
     (if le_category e = Movies then ''movie'' else ''series'', normalize_title_for_identity (le_title e))"

definition category_from_identity :: "library_entry \<Rightarrow> string \<Rightarrow> library_category" where
  "category_from_identity e media_type = (if le_category e = Anime then Anime
     else if media_type = ''tv'' \<and> le_season_number e \<noteq> None then Shows else le_category e)"

definition entry_with_identity :: "library_entry \<Rightarrow> media_identity \<Rightarrow> library_entry result" where
  "entry_with_identity e i = check_entry
     \<lparr>le_category = (case md_library_category i of Some c \<Rightarrow> c | None \<Rightarrow> category_from_identity e (md_media_type i)),
      le_title = md_title i, le_resolver_url = le_resolver_url e, le_year = md_year i,
      le_season_number = le_season_number e, le_episode_number = le_episode_number e\<rparr>"

definition should_check_anilist :: "library_entry \<Rightarrow> bool" where
  "should_check_anilist e \<longleftrightarrow> le_year e \<noteq> None \<or> 1 < length (strip (le_title e))"

definition with_anime_classification :: "'w strm_env \<Rightarrow> library_entry \<Rightarrow> ('w, library_entry) strm" where
  "with_anime_classification env e = (case se_anime env of
     None \<Rightarrow> eff_return e
   | Some classify \<Rightarrow>
       if le_category e = Anime \<or> \<not> should_check_anilist e then eff_return e
       else eff_bind (in_world (classify (le_title e) (le_year e))) (\<lambda>is_anime.
         if \<not> is_anime then eff_return e else eff_lift (check_entry (e\<lparr>le_category := Anime\<rparr>))))"

definition enriched_identity :: "'w strm_env \<Rightarrow> media_identity \<Rightarrow> ('w, media_identity) strm" where
  "enriched_identity env i = (case (se_lookup env, md_tmdb_id i, se_loader env) of
     (Some lookup, Some t, Some loader) \<Rightarrow>
       if md_year i \<noteq> None \<and> md_poster_path i \<noteq> None then eff_return i
       else eff_bind (in_world (loader t (md_media_type i))) (\<lambda>metadata. eff_return (case metadata of
         None \<Rightarrow> i | Some m \<Rightarrow> enriched i m))
   | _ \<Rightarrow> eff_return i)"

definition known_identity :: "'w strm_env \<Rightarrow> library_entry \<Rightarrow> media_identity option \<Rightarrow> media_identity option" where
  "known_identity env e selected = (case (case selected of Some i \<Rightarrow> Some i | None \<Rightarrow> alias_identity env e) of
     Some i \<Rightarrow> if md_tmdb_id i = None then None else Some i | None \<Rightarrow> None)"

definition resolve_entry :: "'w strm_env \<Rightarrow> library_entry \<Rightarrow> media_identity option \<Rightarrow>
    ('w, library_entry \<times> media_identity option) strm" where
  "resolve_entry env e selected =
     eff_bind (case known_identity env e selected of
         None \<Rightarrow> eff_return (e, None)
       | Some i \<Rightarrow> eff_bind (enriched_identity env i) (\<lambda>i.
           eff_bind (eff_lift (entry_with_identity e i)) (\<lambda>e. eff_return (e, Some i)))) (\<lambda>(e, i).
     eff_bind (if (case i of None \<Rightarrow> True | Some i \<Rightarrow> md_library_category i = None)
         then with_anime_classification env e else eff_return e) (\<lambda>e.
     eff_bind (eff_lift (with_override env e)) (\<lambda>e.
     case (i, se_lookup env) of
       (None, Some lookup) \<Rightarrow> eff_bind (in_world (lookup (le_title e) (le_year e) (category_str (le_category e)))) (\<lambda>i.
          eff_bind (eff_lift (entry_with_identity e i)) (\<lambda>e. eff_return (e, Some i)))
     | _ \<Rightarrow> eff_return (e, i))))"

section \<open>One file\<close>

definition no_match_diagnostic :: "string \<Rightarrow> sync_diagnostic" where
  "no_match_diagnostic title = \<lparr>sd_phase = ''metadata_match'', sd_item_ref = Some title,
     sd_message = ''No confident TMDB match was found. The existing library item was preserved; '' @
       ''set its TMDB ID manually if the title remains unmatched.''\<rparr>"

definition provider_error_diagnostic :: "string \<Rightarrow> sync_diagnostic" where
  "provider_error_diagnostic title = \<lparr>sd_phase = ''metadata_provider'', sd_item_ref = Some title,
     sd_message = ''TMDB lookup failed. The item was skipped and existing library state was preserved.''\<rparr>"

definition synced_file_of :: "'w strm_env \<Rightarrow> fpath \<Rightarrow> string \<Rightarrow> library_entry \<Rightarrow> torbox_file \<Rightarrow> string option \<Rightarrow> string \<Rightarrow>
    media_identity option \<Rightarrow> synced_file" where
  "synced_file_of env p entry_id e f info_hash source_title i =
     \<lparr>sf_path = p, sf_entry_id = entry_id, sf_category = category_str (le_category e), sf_title = le_title e, sf_year = le_year e,
      sf_season_number = le_season_number e, sf_episode_number = le_episode_number e,
      sf_provider = download_kind_str (tf_kind f), sf_provider_item_id = tf_item_id f, sf_provider_file_id = tf_file_id f,
      sf_content_hash = content_hash env (le_resolver_url e),
      sf_tmdb_id = (case i of None \<Rightarrow> None | Some i \<Rightarrow> md_tmdb_id i),
      sf_tmdb_poster_path = (case i of None \<Rightarrow> None | Some i \<Rightarrow> md_poster_path i),
      sf_provider_item_name = tf_folder_name f, sf_provider_file_name = tf_file_name f, sf_provider_file_path = tf_path f,
      sf_provider_file_mime_type = tf_mime_type f, sf_provider_file_size = tf_size f, sf_info_hash = info_hash,
      sf_source_title = (if source_title \<noteq> [] then source_title else le_title e),
      sf_identity_authority = (case i of None \<Rightarrow> Fallback | Some i \<Rightarrow> md_authority i),
      sf_identity_confidence = (case i of None \<Rightarrow> None | Some i \<Rightarrow> md_confidence i),
      sf_identity_resolver_version = map_option md_resolver_version i,
      sf_processing_fingerprint = Some (se_fingerprint env), sf_reused = False\<rparr>"

text \<open>The local variables of \<open>run\<close>.\<close>

record progress =
  pg_written_paths :: "fpath list"
  pg_synced_files :: "synced_file list"
  pg_manifest_entries :: "manifest_entry list"
  pg_diagnostics :: "sync_diagnostic list"
  pg_excluded :: "string set"
  pg_scanned :: nat
  pg_skipped :: nat
  pg_reused :: nat

definition no_progress :: progress where
  "no_progress = \<lparr>pg_written_paths = [], pg_synced_files = [], pg_manifest_entries = [], pg_diagnostics = [],
     pg_excluded = {}, pg_scanned = 0, pg_skipped = 0, pg_reused = 0\<rparr>"

definition skip_excluded :: "string list \<Rightarrow> progress \<Rightarrow> progress" where
  "skip_excluded prefixes g = g\<lparr>pg_excluded := pg_excluded g \<union> set prefixes, pg_skipped := pg_skipped g + 1\<rparr>"

definition add_diagnostic :: "sync_diagnostic \<Rightarrow> progress \<Rightarrow> progress" where
  "add_diagnostic d g = g\<lparr>pg_diagnostics := List.insert d (pg_diagnostics g)\<rparr>"

definition add_synced :: "synced_file \<Rightarrow> progress \<Rightarrow> progress" where
  "add_synced sf g = g\<lparr>pg_written_paths := pg_written_paths g @ [sf_path sf], pg_synced_files := pg_synced_files g @ [sf]\<rparr>"

definition playback_url_of :: "'w strm_env \<Rightarrow> torbox_file \<Rightarrow> string \<Rightarrow> manifest_entry list \<Rightarrow> string \<times> manifest_entry list" where
  "playback_url_of env f entry_id entries =
     (let direct_url = request_download_url (se_torbox_base_url env) (se_api_key env) f
      in case se_resolver env of None \<Rightarrow> (direct_url, entries)
       | Some r \<Rightarrow> (resolver_playback_url (ru_base_url r) (ru_token r) entry_id,
           entries @ [\<lparr>me_entry_id = entry_id, me_target_url = direct_url\<rparr>]))"

definition reuse_file :: "'w strm_env \<Rightarrow> synced_file \<Rightarrow> string \<Rightarrow> progress \<Rightarrow> ('w, progress) strm" where
  "reuse_file env reusable playback_url g =
     eff_bind (eff_lift (bind_res (library_entry_from_synced_file reusable playback_url) (\<lambda>e.
         matching_excluded_prefixes e (se_excluded env)))) (\<lambda>prefixes.
     eff_return (if prefixes \<noteq> [] then skip_excluded prefixes g
       else (add_synced (reusable\<lparr>sf_reused := True\<rparr>) g)\<lparr>pg_reused := pg_reused g + 1\<rparr>))"

definition write_entry :: "'w strm_env \<Rightarrow> torbox_file \<Rightarrow> string \<Rightarrow> library_entry \<Rightarrow> string option \<Rightarrow> string \<Rightarrow>
    media_identity option \<Rightarrow> progress \<Rightarrow> ('w, progress) strm" where
  "write_entry env f entry_id e info_hash source_title i g =
     eff_bind (target_path env e f entry_id) (\<lambda>target.
     eff_then (track target)
       (eff_bind (in_fs (write_strm_file (se_library_root env) e (Some (Abs target)))) (\<lambda>p.
        eff_return (add_synced (synced_file_of env p entry_id e f info_hash source_title i) g))))"

definition process_file :: "'w strm_env \<Rightarrow> torbox_file \<Rightarrow> string \<Rightarrow> string \<Rightarrow> string option \<Rightarrow> media_identity option \<Rightarrow> progress \<Rightarrow>
    ('w, progress) strm" where
  "process_file env f entry_id playback_url info_hash selected g =
     eff_bind (eff_lift (library_entry_from_file_name (library_name f) playback_url (tf_folder_name f))) (\<lambda>e0.
     eff_bind (resolve_entry env e0 selected) (\<lambda>(e, i).
     let status = map_option md_status i; source_title = le_title e0
     in if status = Some ProviderError
        then eff_return ((add_diagnostic (provider_error_diagnostic source_title) g)\<lparr>pg_skipped := pg_skipped g + 1\<rparr>)
        else let g = (if status = Some NoMatch then add_diagnostic (no_match_diagnostic source_title) g else g)
          in eff_bind (eff_lift (matching_excluded_prefixes e (se_excluded env))) (\<lambda>prefixes.
            if prefixes \<noteq> [] then eff_return (skip_excluded prefixes g)
            else write_entry env f entry_id e info_hash source_title i g)))"

definition sync_one :: "'w strm_env \<Rightarrow> (string, string) odict \<Rightarrow> torbox_file \<Rightarrow> progress \<Rightarrow> ('w, progress) strm" where
  "sync_one env discovered_hashes f g =
     (let entry_id = resolver_entry_id (se_sha256 env) f;
          (playback_url, entries) = playback_url_of env f entry_id (pg_manifest_entries g);
          info_hash = text_or (map_of discovered_hashes (tf_item_id f)) (map_of (se_torrent_hashes env) (tf_item_id f));
          selected = selected_identity env (tf_item_id f) info_hash;
          g = g\<lparr>pg_scanned := pg_scanned g + 1, pg_manifest_entries := entries\<rparr>
      in eff_bind (reusable_file env f entry_id playback_url info_hash selected) (\<lambda>reusable. case reusable of
           Some cached \<Rightarrow> reuse_file env cached playback_url g
         | None \<Rightarrow> process_file env f entry_id playback_url info_hash selected g))"

section \<open>The run\<close>

definition torrent_hashes :: "payload list \<Rightarrow> (string, string) odict" where
  "torrent_hashes downloads = foldl (\<lambda>d item.
     let normalized_id = string_value (jget item ''id'')
     in case torrent_info_hash item of
          Some h \<Rightarrow> if normalized_id \<noteq> [] then AList.update normalized_id h d else d
        | None \<Rightarrow> d) [] downloads"

text \<open>The flag says that the limit ended the run.\<close>

fun sync_files :: "'w strm_env \<Rightarrow> (string, string) odict \<Rightarrow> nat option \<Rightarrow> torbox_file list \<Rightarrow> progress \<Rightarrow> ('w, progress \<times> bool) strm" where
  "sync_files env hashes max_files [] g = eff_return (g, False)"
| "sync_files env hashes max_files (f # fs) g =
     (if (case max_files of None \<Rightarrow> False | Some n \<Rightarrow> n \<le> length (pg_written_paths g)) then eff_return (g, True)
      else eff_bind (sync_one env hashes f g) (sync_files env hashes max_files fs))"

fun sync_kinds :: "'w strm_env \<Rightarrow> nat option \<Rightarrow> download_kind list \<Rightarrow> progress \<Rightarrow> ('w, progress \<times> bool) strm" where
  "sync_kinds env max_files [] g = eff_return (g, False)"
| "sync_kinds env max_files (kind # kinds) g =
     eff_bind (in_world (se_list env kind)) (\<lambda>downloads.
     let discovered_hashes = (if kind = Torrents then torrent_hashes downloads else []);
         extracted = extract_torbox_files downloads kind
     in eff_bind (sync_files env discovered_hashes max_files (ef_files extracted)
          (g\<lparr>pg_skipped := pg_skipped g + ef_skipped_count extracted\<rparr>)) (\<lambda>(g, limited).
        if limited then eff_return (g, True) else sync_kinds env max_files kinds g))"

text \<open>\<open>write_manifest_entries\<close> with \<open>before_write\<close> the tracker.\<close>

definition sync_write_manifest :: "'w strm_env \<Rightarrow> manifest_entry list \<Rightarrow> bool \<Rightarrow> ('w, fpath) strm" where
  "sync_write_manifest env entries replace_existing = (\<lambda>s0.
     eff_bind (eff_lift (resolver_manifest_path (ss_fs s0) (se_library_root env))) (\<lambda>p.
     eff_bind (in_fs (if replace_existing then eff_return [] else read_entries p)) (\<lambda>existing s.
       let content = manifest_text (merge_entries existing entries)
       in if file_content (ss_fs s) p = Some content then (return p, s)
          else eff_then (track p) (eff_then (in_fs (atomic_write_text p content)) (eff_return p)) s)) s0)"

definition diagnostic_order :: "sync_diagnostic \<Rightarrow> string \<times> string \<times> string" where
  "diagnostic_order d = (sd_phase d, (case sd_item_ref d of None \<Rightarrow> [] | Some r \<Rightarrow> r), sd_message d)"

definition sync_result_of :: "'w strm_env \<Rightarrow> progress \<Rightarrow> bool \<Rightarrow> ('w, sync_result) strm" where
  "sync_result_of env g part =
     eff_bind (if pg_manifest_entries g \<noteq> [] \<or> (se_resolver env \<noteq> None \<and> \<not> part)
         then eff_bind (sync_write_manifest env (pg_manifest_entries g) (\<not> part)) (\<lambda>p. eff_return (Some p))
         else eff_return None) (\<lambda>manifest_path.
     eff_return \<lparr>sr_scanned_files = pg_scanned g, sr_written_files = length (remdups (pg_written_paths g)),
       sr_skipped_files = pg_skipped g, sr_written_paths = pg_written_paths g, sr_synced_files = pg_synced_files g,
       sr_manifest_path = manifest_path, sr_partial = part,
       sr_diagnostics = sort_key diagnostic_order (pg_diagnostics g), sr_observed_excluded_prefixes = pg_excluded g,
       sr_reused_files = pg_reused g\<rparr>)"

definition run_strm_sync :: "'w strm_env \<Rightarrow> download_kind list \<Rightarrow> int option \<Rightarrow> bool \<Rightarrow> ('w, sync_result) strm" where
  "run_strm_sync env kinds max_files part =
     (if (case max_files of None \<Rightarrow> False | Some n \<Rightarrow> n < 1) then eff_raise (ValueError ''max_files must be positive.'')
      else eff_bind (sync_kinds env (map_option nat max_files) kinds no_progress) (\<lambda>(g, limited).
        sync_result_of env g (limited \<or> part)))"


section \<open>What one file's step does\<close>

definition key_of :: "synced_file \<Rightarrow> source_key" where
  "key_of sf = (sf_provider sf, sf_provider_item_id sf, sf_provider_file_id sf)"

definition play_url :: "'w strm_env \<Rightarrow> torbox_file \<Rightarrow> string" where
  "play_url env f = fst (playback_url_of env f (resolver_entry_id (se_sha256 env) f) [])"

lemma play_url_any: "fst (playback_url_of env f (resolver_entry_id (se_sha256 env) f) entries) = play_url env f"
  by (simp add: play_url_def playback_url_of_def Let_def split: option.split)

definition frame :: "fs \<Rightarrow> journal option \<Rightarrow> (fpath, source_key) odict \<Rightarrow> 'w strm_state \<Rightarrow> bool" where
  "frame F J C s \<longleftrightarrow> ss_fs s = F \<and> ss_journal s = J \<and> ss_claimed s = C"

lemma keeps_world [simp]: "keeps (frame F J C) (in_world m)"
  by (auto simp: keeps_def frame_def in_world_def split: prod.split)

lemma keeps_root [simp]: "keeps Q (in_root env p)"
  by (simp add: keeps_def in_root_def)

lemma keeps_resolve: "keeps (frame F J C) (resolve_entry env e selected)"
  unfolding resolve_entry_def with_anime_classification_def enriched_identity_def
  by (intro keeps_bind; auto split: option.split intro!: keeps_bind)+

lemma frame_world: "frame (ss_fs s) (ss_journal s) (ss_claimed s) t \<Longrightarrow> \<exists>w. t = s\<lparr>ss_world := w\<rparr>"
  by (intro exI [of _ "ss_world t"]) (simp add: frame_def)

lemma check_entry_same: "check_entry e = return e' \<Longrightarrow> e' = e"
  by (auto simp: check_entry_def split: if_splits option.splits)

lemma apply_override_url: "apply_classification_override e ov = return e' \<Longrightarrow> le_resolver_url e' = le_resolver_url e"
  by (cases ov) (auto simp: apply_classification_override_def split: if_splits dest: check_entry_same)

lemma override_url: "with_override env e = return e' \<Longrightarrow> le_resolver_url e' = le_resolver_url e"
  by (auto simp: with_override_def bind_res_Inr_iff dest: apply_override_url)

lemma identity_url: "entry_with_identity e i = return e' \<Longrightarrow> le_resolver_url e' = le_resolver_url e"
  by (auto simp: entry_with_identity_def dest: check_entry_same)

lemma ensures_lift: "ensures (\<lambda>_. True) Q (eff_lift r) \<longleftrightarrow> (\<forall>a. r = Inr a \<longrightarrow> Q a)"
  by (auto split: sum.split)

lemma resolve_url:
  "ensures (\<lambda>_. True) (\<lambda>(e', i). le_resolver_url e' = le_resolver_url e) (resolve_entry env e selected)"
proof -
  have anime: "ensures (\<lambda>_. True) (\<lambda>e'. le_resolver_url e' = le_resolver_url e) (with_anime_classification env e1)"
    if "le_resolver_url e1 = le_resolver_url e" for e1
    unfolding with_anime_classification_def
    using that by (auto split: option.split simp: ensures_lift dest!: check_entry_same simp del: ensures_simps(3)
        intro!: ensures_bind [where R = "\<lambda>_. True"])
  have pair: "ensures (\<lambda>_. True) (\<lambda>(e', i). le_resolver_url e' = le_resolver_url e)
      (eff_bind (eff_lift (entry_with_identity e1 i)) (\<lambda>e. eff_return (e, Some i)))" if "le_resolver_url e1 = le_resolver_url e" for e1 i
    by (rule ensures_bind [where R = "\<lambda>e'. le_resolver_url e' = le_resolver_url e"])
      (use that in \<open>auto simp: ensures_lift dest: identity_url simp del: ensures_simps(3)\<close>)
  have over: "ensures (\<lambda>_. True) (\<lambda>e'. le_resolver_url e' = le_resolver_url e) (eff_lift (with_override env e1))"
    if "le_resolver_url e1 = le_resolver_url e" for e1
    using that by (simp add: ensures_lift override_url del: ensures_simps(3))
  show ?thesis
    unfolding resolve_entry_def
    by (rule ensures_bind [where R = "\<lambda>(e', i). le_resolver_url e' = le_resolver_url e"],
        auto split: option.split intro!: ensures_bind [where R = "\<lambda>_. True"] pair anime
          ensures_bind [where R = "\<lambda>e'. le_resolver_url e' = le_resolver_url e"] over simp del: ensures_simps(3))
qed

lemma file_name_url: "library_entry_from_file_name name url folder = return e \<Longrightarrow> le_resolver_url e = url"
  unfolding library_entry_from_file_name_def Let_def case_prod_unfold
  by (auto simp: bind_res_Inr_iff split: if_splits option.splits dest!: check_entry_same)

text \<open>Paths.\<close>

definition suffixed :: "fpath \<Rightarrow> string \<Rightarrow> bool" where
  "suffixed p entry_id \<longleftrightarrow> endswith (last p) ('' ['' @ take 8 entry_id @ ''].strm'')"

lemma within_no_dots: "ensure_within_root F base t = return p \<Longrightarrow> ''..'' \<notin> set p"
  by (simp add: ensure_within)

lemma relative_path_any:
  assumes "library_entry_relative_path e = return p"
  shows "p = Rel (entry_segments e)"
proof (cases "movie_like e")
  case True
  then show ?thesis using assms
    by (simp add: library_entry_relative_path_def entry_segments_def Let_def path_of_plain plain_title_year plain_strm del: path_of.simps)
next
  case False
  then obtain n m where "le_season_number e = Some n" "le_episode_number e = Some m"
    using assms by (auto simp: library_entry_relative_path_def split: option.splits)
  with False show ?thesis using assms plain_episode_file
    by (simp add: library_entry_relative_path_def entry_segments_def Let_def path_of_plain del: path_of.simps)
qed

lemma endswith_append: "endswith (x @ y) y"
  by (simp add: endswith_def)

lemma strm_path_shape:
  assumes "strm_file_path F base e = return p"
  shows "\<exists>d w. p = d @ [w @ ''.strm''] \<and> w \<noteq> [] \<and> ''..'' \<notin> set p"
proof -
  obtain q where q: "library_entry_relative_path e = return q" "ensure_within_root F base (join_path base q) = return p"
    using assms by (auto simp: strm_file_path_def bind_res_Inr_iff)
  have "''..'' \<notin> set (entry_segments e)" using entry_segments_plain [of e] by (auto simp: plain_seg_def)
  then have p: "p = resolve F base @ entry_segments e"
    using ensure_within [OF q(2)] relative_path_any [OF q(1)] by (simp add: resolve_join)
  have dots: "''..'' \<notin> set p" by (rule within_no_dots [OF q(2)])
  have "title_year t y \<noteq> []" for t y using plain_title_year [of t y] by (auto simp: plain_seg_def)
  then have "\<exists>d w. entry_segments e = d @ [w @ ''.strm''] \<and> w \<noteq> []"
  proof (cases "movie_like e")
    case True
    then show ?thesis
      by (intro exI [of _ "[category_str (le_category e), title_year (le_title e) (le_year e)]"] exI [of _ "title_year (le_title e) (le_year e)"])
        (use \<open>\<And>t y. title_year t y \<noteq> []\<close> in \<open>simp add: entry_segments_def\<close>)
  next
    case False
    then show ?thesis
      by (intro exI [of _ "[category_str (le_category e), clean_path_segment (Some (le_title e)) unknown_segment, season_folder (the (le_season_number e))]"]
          exI [of _ "clean_path_segment (Some (le_title e)) unknown_segment @ '' - '' @ episode_suffix (the (le_season_number e)) (the (le_episode_number e))"])
        (simp add: entry_segments_def)
  qed
  then obtain d w where "entry_segments e = d @ [w @ ''.strm'']" "w \<noteq> []" by blast
  then show ?thesis using p dots by (intro exI [of _ "resolve F base @ d"] exI [of _ w]) simp
qed

lemma suffixed_path:
  assumes "p = d @ [w @ ''.strm'']" "w \<noteq> []" "''..'' \<notin> set p"
    and "ensure_within_root F base (alternate_version_path (Abs p) name (Some (take 8 entry_id))) = return q"
  shows "suffixed q entry_id \<and> ''..'' \<notin> set q"
proof -
  have "name_suffix (w @ ''.strm'') = ''.strm''" using name_stem_ext(2) [OF assms(2), of "''strm''"] by simp
  then have suffix: "path_suffix (Abs p) = ''.strm''" unfolding path_suffix_def path_name_def assms(1) by simp
  define n where "n = path_stem (Abs p) @ '' - '' @ version_label name @ ('' ['' @ take 8 entry_id @ '']'') @ ''.strm''"
  have alt: "alternate_version_path (Abs p) name (Some (take 8 entry_id)) = Abs (d @ [n])"
    by (simp add: alternate_version_path_def Let_def suffix n_def) (simp add: assms(1))
  have "n \<noteq> ''..''"
  proof
    assume "n = ''..''"
    then have "last n = CHR ''.''" by simp
    then show False by (simp add: n_def)
  qed
  then have "''..'' \<notin> set (d @ [n])" using assms(1,3) by auto
  then have "q = d @ [n]" using ensure_within [OF assms(4)] by (simp add: alt resolve_abs)
  then have "last q = (path_stem (Abs p) @ '' - '' @ version_label name) @ '' ['' @ take 8 entry_id @ ''].strm''" by (simp add: n_def)
  then have "suffixed q entry_id" unfolding suffixed_def by (simp only: endswith_append)
  then show ?thesis using within_no_dots [OF assms(4)] by blast
qed

lemma in_root_run: "in_root env p s = (ensure_within_root (ss_fs s) (se_library_root env) p, s)"
  by (simp add: in_root_def)

lemma claim_run: "eff_then (claim p key) (eff_return p) s = (return p, s\<lparr>ss_claimed := AList.update p key (ss_claimed s)\<rparr>)"
  by (simp add: eff_then_def claim_def)

text \<open>A path is chosen among those no other source claims, or it bears the entry's own suffix.\<close>

definition claimed_for :: "'w strm_state \<Rightarrow> torbox_file \<Rightarrow> string \<Rightarrow> fpath \<Rightarrow> 'w strm_state \<Rightarrow> bool" where
  "claimed_for s f entry_id p s' \<longleftrightarrow> s' = s\<lparr>ss_claimed := AList.update p (source_file_key f) (ss_claimed s)\<rparr> \<and>
     (claimable s p (source_file_key f) \<or> suffixed p entry_id) \<and> ''..'' \<notin> set p"

lemma fresh_path_claims:
  assumes "fresh_path env e f entry_id s = (return p, s')"
  shows "claimed_for s f entry_id p s'"
proof -
  let ?key = "source_file_key f"
  obtain c where c: "strm_file_path (ss_fs s) (se_library_root env) e = return c"
    using assms by (cases "strm_file_path (ss_fs s) (se_library_root env) e") (simp_all add: fresh_path_def)
  obtain d w where shape: "c = d @ [w @ ''.strm'']" "w \<noteq> []" "''..'' \<notin> set c" using strm_path_shape [OF c] by blast
  show ?thesis
  proof (cases "claimable s c ?key")
    case True
    then have "p = c" "s' = s\<lparr>ss_claimed := AList.update c ?key (ss_claimed s)\<rparr>"
      using assms c by (auto simp: fresh_path_def claim_run)
    then show ?thesis using True shape(3) by (simp add: claimed_for_def)
  next
    case False
    let ?root = "ensure_within_root (ss_fs s) (se_library_root env)"
    obtain a where a: "?root (alternate_version_path (Abs c) (source_name_of f) None) = return a"
      using assms c False by (cases "?root (alternate_version_path (Abs c) (source_name_of f) None)")
        (simp_all add: fresh_path_def in_root_run)
    show ?thesis
    proof (cases "claimable s a ?key")
      case True
      then have "p = a" "s' = s\<lparr>ss_claimed := AList.update a ?key (ss_claimed s)\<rparr>"
        using assms c a False by (auto simp: fresh_path_def in_root_run claim_run)
      then show ?thesis using True within_no_dots [OF a] unfolding claimed_for_def by blast
    next
      case no: False
      obtain b where b: "?root (alternate_version_path (Abs c) (source_name_of f) (Some (take 8 entry_id))) = return b"
        using assms c a False no by (cases "?root (alternate_version_path (Abs c) (source_name_of f) (Some (take 8 entry_id)))")
          (simp_all add: fresh_path_def in_root_run)
      then have "p = b" "s' = s\<lparr>ss_claimed := AList.update b ?key (ss_claimed s)\<rparr>"
        using assms c a False no by (auto simp: fresh_path_def in_root_run claim_run)
      then show ?thesis using suffixed_path [OF shape b] by (simp add: claimed_for_def)
    qed
  qed
qed

lemma target_path_claims:
  assumes "target_path env e f entry_id s = (return p, s')"
  shows "claimed_for s f entry_id p s'"
proof (cases "map_of (se_reusable env) (source_file_key f)")
  case None
  then show ?thesis using assms fresh_path_claims by (simp add: target_path_def)
next
  case (Some cached)
  obtain c where c: "ensure_within_root (ss_fs s) (se_library_root env) (Abs (sf_path cached)) = return c"
    using assms Some by (cases "ensure_within_root (ss_fs s) (se_library_root env) (Abs (sf_path cached))")
      (simp_all add: target_path_def in_root_run)
  show ?thesis
  proof (cases "claimable s c (source_file_key f)")
    case True
    then have "p = c" "s' = s\<lparr>ss_claimed := AList.update c (source_file_key f) (ss_claimed s)\<rparr>"
      using assms Some c by (auto simp: target_path_def in_root_run claim_run)
    then show ?thesis using True within_no_dots [OF c] unfolding claimed_for_def by blast
  next
    case False
    then show ?thesis using assms Some c fresh_path_claims by (simp add: target_path_def in_root_run)
  qed
qed

lemma track_keeps: "track p s = (r, s') \<Longrightarrow> ss_fs s' = ss_fs s \<and> ss_claimed s' = ss_claimed s \<and> ss_world s' = ss_world s"
  by (auto simp: track_def split: option.splits sum.splits)

text \<open>The writer, given a resolved path.\<close>

lemma write_strm_cases:
  assumes "ensure_within_root F base (Abs p) = return q"
  shows "write_strm_file base e (Some (Abs p)) F =
    (if file_content F q = Some (le_resolver_url e @ [CHR 0x0A]) then (return q, F)
     else if path_exists F q \<and> file_content F q = None then (raise (OSError ''cannot read''), F)
     else eff_then (atomic_write_bytes q (le_resolver_url e @ [CHR 0x0A])) (eff_return q) F)"
proof -
  have "file_content F q = Some c \<Longrightarrow> path_exists F q" for c
    by (auto simp: path_exists_def file_content_def split: option.splits)
  then show ?thesis using assms
    by (cases "file_content F q")
      (auto simp: write_strm_file_def Let_def read_file_def atomic_write_text_def eff_bind_run)
qed

lemma write_strm_content:
  assumes "wf_fs F" "''..'' \<notin> set p" "write_strm_file base e (Some (Abs p)) F = (return q, F')"
  shows "q = p \<and> wf_fs F' \<and> file_content F' = (file_content F)(p := Some (le_resolver_url e @ [CHR 0x0A]))"
proof -
  let ?c = "le_resolver_url e @ [CHR 0x0A]"
  obtain r where r: "ensure_within_root F base (Abs p) = return r"
    using assms(3) by (cases "ensure_within_root F base (Abs p)") (simp_all add: write_strm_file_def)
  then have "r = p" using ensure_within [OF r] assms(2) by (simp add: resolve_abs)
  note run = write_strm_cases [OF r [unfolded \<open>r = p\<close>], of e] 
  show ?thesis
  proof (cases "file_content F p = Some ?c")
    case True
    then show ?thesis using assms(1,3) run by auto
  next
    case False
    then have w: "eff_then (atomic_write_bytes p ?c) (eff_return p) F = (return q, F')"
      using assms(3) run by (auto split: if_splits)
    then obtain u where u: "atomic_write_bytes p ?c F = (return u, F')" "q = p"
      by (cases "atomic_write_bytes p ?c F"; cases "fst (atomic_write_bytes p ?c F)") auto
    then have "writable F p" using atomic_write_fails [OF assms(1), of p ?c] by auto
    from content_atomic_write [OF assms(1) this, of ?c] show ?thesis using u by auto
  qed
qed

lemma frame_run:
  assumes "keeps (frame (ss_fs s) (ss_journal s) (ss_claimed s)) m" "m s = (r, t)"
  shows "\<exists>w. t = s\<lparr>ss_world := w\<rparr>"
proof -
  have "frame (ss_fs s) (ss_journal s) (ss_claimed s) s" by (simp add: frame_def)
  from keepsD [OF assms this] show ?thesis by (rule frame_world)
qed

text \<open>The three ends of a file's step.\<close>

definition counts_as :: "progress \<Rightarrow> progress \<Rightarrow> synced_file list \<Rightarrow> nat \<Rightarrow> nat \<Rightarrow> bool" where
  "counts_as g g' sfs skipped reused \<longleftrightarrow> pg_synced_files g' = pg_synced_files g @ sfs \<and>
     pg_written_paths g' = pg_written_paths g @ map sf_path sfs \<and> pg_scanned g' = pg_scanned g + 1 \<and>
     pg_skipped g' = pg_skipped g + skipped \<and> pg_reused g' = pg_reused g + reused"

definition describes :: "'w strm_env \<Rightarrow> torbox_file \<Rightarrow> synced_file \<Rightarrow> bool" where
  "describes env f sf \<longleftrightarrow> key_of sf = source_file_key f \<and> sf_entry_id sf = resolver_entry_id (se_sha256 env) f \<and>
     sf_content_hash sf = se_sha256 env (play_url env f)"

lemma process_file_cases:
  assumes "process_file env f (resolver_entry_id (se_sha256 env) f) (play_url env f) info_hash selected g s = (return g', s')"
  obtains
    (skip) w where "s' = s\<lparr>ss_world := w\<rparr>" "pg_synced_files g' = pg_synced_files g" "pg_written_paths g' = pg_written_paths g"
      "pg_scanned g' = pg_scanned g" "pg_skipped g' = pg_skipped g + 1" "pg_reused g' = pg_reused g"
  | (stored) w e t p s1 s2 sf where "target_path env e f (resolver_entry_id (se_sha256 env) f) (s\<lparr>ss_world := w\<rparr>) = (return t, s1)"
      "track t s1 = (return (), s2)" "in_fs (write_strm_file (se_library_root env) e (Some (Abs t))) s2 = (return p, s')"
      "le_resolver_url e = play_url env f" "describes env f sf" "sf_path sf = p" "\<not> sf_reused sf"
      "pg_synced_files g' = pg_synced_files g @ [sf]" "pg_written_paths g' = pg_written_paths g @ [p]"
      "pg_scanned g' = pg_scanned g" "pg_skipped g' = pg_skipped g" "pg_reused g' = pg_reused g"
proof -
  let ?id = "resolver_entry_id (se_sha256 env) f" and ?url = "play_url env f"
  obtain e0 where e0: "library_entry_from_file_name (library_name f) ?url (tf_folder_name f) = return e0"
    using assms by (cases "library_entry_from_file_name (library_name f) ?url (tf_folder_name f)") (simp_all add: process_file_def)
  obtain e i t where r: "resolve_entry env e0 selected s = (return (e, i), t)"
    using assms e0 by (cases "resolve_entry env e0 selected s"; cases "fst (resolve_entry env e0 selected s)") (auto simp: process_file_def)
  obtain w where t: "t = s\<lparr>ss_world := w\<rparr>" using frame_run [OF keeps_resolve r] by blast
  have url: "le_resolver_url e = ?url"
    using ensuresD [OF resolve_url r] file_name_url [OF e0] by simp
  show thesis
  proof (cases "map_option md_status i = Some ProviderError")
    case True
    then have "g' = (add_diagnostic (provider_error_diagnostic (le_title e0)) g)\<lparr>pg_skipped := pg_skipped g + 1\<rparr>" "s' = t"
      using assms e0 r by (simp_all add: process_file_def Let_def)
    then show thesis by (intro skip [of w]) (simp_all add: t add_diagnostic_def)
  next
    case False
    define g1 where "g1 = (if map_option md_status i = Some NoMatch then add_diagnostic (no_match_diagnostic (le_title e0)) g else g)"
    have g1: "pg_synced_files g1 = pg_synced_files g" "pg_written_paths g1 = pg_written_paths g" "pg_scanned g1 = pg_scanned g"
      "pg_skipped g1 = pg_skipped g" "pg_reused g1 = pg_reused g"
      by (simp_all add: g1_def add_diagnostic_def)
    have run0: "eff_bind (eff_lift (matching_excluded_prefixes e (se_excluded env))) (\<lambda>prefixes.
        if prefixes \<noteq> [] then eff_return (skip_excluded prefixes g1)
        else write_entry env f ?id e info_hash (le_title e0) i g1) t = (return g', s')"
    proof -
      have no: "(map_option md_status i = Some ProviderError) = False" using False by simp
      from assms show ?thesis
        unfolding process_file_def e0 eff_bind_simps eff_bind_Inr [where m = "resolve_entry env e0 selected", OF r] prod.case Let_def no if_False g1_def .
    qed
    obtain ps where ps: "matching_excluded_prefixes e (se_excluded env) = return ps"
      using run0 by (cases "matching_excluded_prefixes e (se_excluded env)") simp_all
    have run: "(if ps \<noteq> [] then eff_return (skip_excluded ps g1)
        else write_entry env f ?id e info_hash (le_title e0) i g1) t = (return g', s')"
      using run0 ps by simp
    show thesis
    proof (cases "ps = []")
      case False
      then have "g' = skip_excluded ps g1" "s' = t" using run by simp_all
      then show thesis by (intro skip [of w]) (simp_all add: t skip_excluded_def g1)
    next
      case True
      then have run: "write_entry env f ?id e info_hash (le_title e0) i g1 t = (return g', s')" using run by simp
      obtain p s1 where p: "target_path env e f ?id t = (return p, s1)"
        using run by (cases "target_path env e f ?id t"; cases "fst (target_path env e f ?id t)") (auto simp: write_entry_def)
      obtain s2 where s2: "track p s1 = (return (), s2)"
        using run p by (cases "track p s1"; cases "fst (track p s1)") (auto simp: write_entry_def)
      obtain q s3 where q: "in_fs (write_strm_file (se_library_root env) e (Some (Abs p))) s2 = (return q, s3)"
        using run p s2 by (cases "in_fs (write_strm_file (se_library_root env) e (Some (Abs p))) s2";
            cases "fst (in_fs (write_strm_file (se_library_root env) e (Some (Abs p))) s2)") (auto simp: write_entry_def)
      let ?sf = "synced_file_of env q ?id e f info_hash (le_title e0) i"
      have g': "g' = add_synced ?sf g1" "s3 = s'" using run p s2 q by (simp_all add: write_entry_def)
      have "describes env f ?sf"
        by (simp add: describes_def key_of_def source_file_key_def synced_file_of_def content_hash_def url)
      then show thesis using p s2 q url g' g1
        by (intro stored [of e w p s1 s2 q ?sf]) (simp_all add: t add_synced_def synced_file_of_def)
    qed
  qed
qed

lemma reusable_cases:
  assumes "reusable_file env f entry_id url info_hash selected s = (return r, s')"
  shows "s' = s \<and> (\<forall>c. r = Some c \<longrightarrow> map_of (se_reusable env) (source_file_key f) = Some c \<and> sf_entry_id c = entry_id \<and>
    same_source_file c f info_hash \<and> same_identity c selected \<and> sf_processing_fingerprint c = Some (se_fingerprint env) \<and>
    sf_content_hash c = se_sha256 env url \<and> (\<exists>q. ensure_within_root (ss_fs s) (se_library_root env) (Abs (sf_path c)) = return q \<and>
      file_content (ss_fs s) q = Some (url @ [CHR 0x0A])))"
proof (cases "map_of (se_reusable env) (source_file_key f)")
  case None
  then show ?thesis using assms by (auto simp: reusable_file_def)
next
  case (Some c)
  show ?thesis
  proof (cases "sf_entry_id c = entry_id \<and> sf_processing_fingerprint c = Some (se_fingerprint env) \<and>
             same_source_file c f info_hash \<and> same_identity c selected \<and> sf_content_hash c = content_hash env url")
    case False
    then show ?thesis using assms Some by (auto simp: reusable_file_def)
  next
    case True
    then show ?thesis using assms Some
      by (cases "ensure_within_root (ss_fs s) (se_library_root env) (Abs (sf_path c))")
        (auto simp: reusable_file_def in_root_run content_hash_def split: if_splits)
  qed
qed

lemma sync_one_cases:
  assumes "sync_one env hashes f g s = (return g', s')"
  obtains
    (skip) w where "s' = s\<lparr>ss_world := w\<rparr>" "counts_as g g' [] 1 0"
  | (reuse) c q where "s' = s" "counts_as g g' [c\<lparr>sf_reused := True\<rparr>] 0 1" "describes env f c"
      "map_of (se_reusable env) (source_file_key f) = Some c"
      "ensure_within_root (ss_fs s) (se_library_root env) (Abs (sf_path c)) = return q"
      "file_content (ss_fs s) q = Some (play_url env f @ [CHR 0x0A])"
  | (stored) w e t p s1 s2 sf where "target_path env e f (resolver_entry_id (se_sha256 env) f) (s\<lparr>ss_world := w\<rparr>) = (return t, s1)"
      "track t s1 = (return (), s2)" "in_fs (write_strm_file (se_library_root env) e (Some (Abs t))) s2 = (return p, s')"
      "le_resolver_url e = play_url env f" "describes env f sf" "sf_path sf = p" "\<not> sf_reused sf" "counts_as g g' [sf] 0 0"
proof -
  let ?id = "resolver_entry_id (se_sha256 env) f" and ?url = "play_url env f"
  define info_hash where "info_hash = text_or (map_of hashes (tf_item_id f)) (map_of (se_torrent_hashes env) (tf_item_id f))"
  define sel where "sel = selected_identity env (tf_item_id f) info_hash"
  define g1 where "g1 = g\<lparr>pg_scanned := pg_scanned g + 1,
      pg_manifest_entries := snd (playback_url_of env f ?id (pg_manifest_entries g))\<rparr>"
  have g1: "pg_synced_files g1 = pg_synced_files g" "pg_written_paths g1 = pg_written_paths g" "pg_scanned g1 = pg_scanned g + 1"
      "pg_skipped g1 = pg_skipped g" "pg_reused g1 = pg_reused g"
    by (simp_all add: g1_def)
  have run: "eff_bind (reusable_file env f ?id ?url info_hash sel) (\<lambda>reusable. case reusable of
           Some cached \<Rightarrow> reuse_file env cached ?url g1
         | None \<Rightarrow> process_file env f ?id ?url info_hash sel g1) s = (return g', s')"
    using assms unfolding sync_one_def Let_def case_prod_unfold play_url_any info_hash_def [symmetric] sel_def [symmetric]
      g1_def [symmetric] .
  obtain r t where r: "reusable_file env f ?id ?url info_hash sel s = (return r, t)"
    using run by (cases "reusable_file env f ?id ?url info_hash sel s"; cases "fst (reusable_file env f ?id ?url info_hash sel s)") auto
  note rc = reusable_cases [OF r]
  show thesis
  proof (cases r)
    case None
    then have "process_file env f ?id ?url info_hash sel g1 s = (return g', s')" using run r rc by simp
    then show thesis
    proof (cases rule: process_file_cases)
      case (skip w)
      then show thesis by (intro that(1) [of w]) (simp_all add: counts_as_def g1)
    next
      case (stored w e t p s1 s2 sf)
      then show thesis by (intro that(3) [of e w t s1 s2 p sf]) (simp_all add: counts_as_def g1)
    qed
  next
    case (Some c)
    have run: "reuse_file env c ?url g1 s = (return g', s')" using run r rc Some by simp
    obtain ps where ps: "bind_res (library_entry_from_synced_file c ?url) (\<lambda>e. matching_excluded_prefixes e (se_excluded env)) = return ps"
      using run by (cases "bind_res (library_entry_from_synced_file c ?url) (\<lambda>e. matching_excluded_prefixes e (se_excluded env))")
        (simp_all add: reuse_file_def)
    have out: "s' = s" "g' = (if ps \<noteq> [] then skip_excluded ps g1 else (add_synced (c\<lparr>sf_reused := True\<rparr>) g1)\<lparr>pg_reused := pg_reused g1 + 1\<rparr>)"
      using run ps by (simp_all add: reuse_file_def)
    show thesis
    proof (cases "ps = []")
      case False
      then show thesis using out by (intro that(1) [of "ss_world s"]) (simp_all add: counts_as_def g1 skip_excluded_def)
    next
      case True
      obtain q where q: "ensure_within_root (ss_fs s) (se_library_root env) (Abs (sf_path c)) = return q"
        "file_content (ss_fs s) q = Some (?url @ [CHR 0x0A])" using rc Some by blast
      have "describes env f c" using rc Some
        by (auto simp: describes_def key_of_def source_file_key_def same_source_file_def)
      then show thesis using out True rc Some q
        by (intro that(2) [of c q]) (simp_all add: counts_as_def g1 add_synced_def)
    qed
  qed
qed

section \<open>The loop\<close>

lemma bind_return: "eff_bind m f s = (return b, s') \<Longrightarrow> \<exists>a t. m s = (return a, t) \<and> f a t = (return b, s')"
  by (cases "m s"; cases "fst (m s)") (auto simp: eff_bind_def)

lemma sync_files_inv:
  assumes "\<And>hashes f g s g' s'. sync_one env hashes f g s = (return g', s') \<Longrightarrow> Q g s \<Longrightarrow> Q g' s'"
  shows "sync_files env hashes m fs g s = (return (g', l), s') \<Longrightarrow> Q g s \<Longrightarrow> Q g' s'"
proof (induction fs arbitrary: g s)
  case (Cons f fs)
  show ?case
  proof (cases "case m of None \<Rightarrow> False | Some n \<Rightarrow> n \<le> length (pg_written_paths g)")
    case True
    then show ?thesis using Cons.prems by simp
  next
    case False
    then have "eff_bind (sync_one env hashes f g) (sync_files env hashes m fs) s = (return (g', l), s')"
      using Cons.prems(1) by simp
    then obtain g1 s1 where "sync_one env hashes f g s = (return g1, s1)" "sync_files env hashes m fs g1 s1 = (return (g', l), s')"
      by (blast dest: bind_return)
    then show ?thesis using Cons.IH assms Cons.prems(2) by blast
  qed
qed simp

lemma sync_kinds_inv:
  assumes "\<And>hashes f g s g' s'. sync_one env hashes f g s = (return g', s') \<Longrightarrow> Q g s \<Longrightarrow> Q g' s'"
    and "\<And>g s n. Q g s \<Longrightarrow> Q (g\<lparr>pg_skipped := pg_skipped g + n\<rparr>) s"
    and "\<And>g s w. Q g s \<Longrightarrow> Q g (s\<lparr>ss_world := w\<rparr>)"
  shows "sync_kinds env m kinds g s = (return (g', l), s') \<Longrightarrow> Q g s \<Longrightarrow> Q g' s'"
proof (induction kinds arbitrary: g s)
  case (Cons kind kinds)
  obtain ds s1 where d: "in_world (se_list env kind) s = (return ds, s1)"
    "(let discovered_hashes = (if kind = Torrents then torrent_hashes ds else []); extracted = extract_torbox_files ds kind
      in eff_bind (sync_files env discovered_hashes m (ef_files extracted)
          (g\<lparr>pg_skipped := pg_skipped g + ef_skipped_count extracted\<rparr>)) (\<lambda>(g, limited).
        if limited then eff_return (g, True) else sync_kinds env m kinds g)) s1 = (return (g', l), s')"
    using bind_return [OF Cons.prems(1) [unfolded sync_kinds.simps]] by blast
  obtain w where s1: "s1 = s\<lparr>ss_world := w\<rparr>" using d(1) by (auto simp: in_world_def split: prod.splits)
  obtain g2 l2 s2 where f: "sync_files env (if kind = Torrents then torrent_hashes ds else []) m
      (ef_files (extract_torbox_files ds kind)) (g\<lparr>pg_skipped := pg_skipped g + ef_skipped_count (extract_torbox_files ds kind)\<rparr>) s1
        = (return (g2, l2), s2)" "(if l2 then eff_return (g2, True) else sync_kinds env m kinds g2) s2 = (return (g', l), s')"
    using bind_return [OF d(2) [unfolded Let_def]] by auto
  have "Q (g\<lparr>pg_skipped := pg_skipped g + ef_skipped_count (extract_torbox_files ds kind)\<rparr>) s1"
    unfolding s1 using assms(2,3) Cons.prems(2) by blast
  then have "Q g2 s2" by (rule sync_files_inv [OF _ f(1), rotated]) (rule assms(1))
  then show ?case using f(2) Cons.IH by (cases l2) auto
qed simp

lemma run_cases:
  assumes "run_strm_sync env kinds max_files part s = (return res, s')"
  obtains g l t where "sync_kinds env (map_option nat max_files) kinds no_progress s = (return (g, l), t)"
    "sync_result_of env g (l \<or> part) t = (return res, s')" "\<And>n. max_files = Some n \<Longrightarrow> 1 \<le> n"
proof -
  have m: "\<not> (case max_files of None \<Rightarrow> False | Some n \<Rightarrow> n < 1)" using assms by (auto simp: run_strm_sync_def)
  then have "eff_bind (sync_kinds env (map_option nat max_files) kinds no_progress) (\<lambda>(g, limited).
        sync_result_of env g (limited \<or> part)) s = (return res, s')"
    using assms by (simp add: run_strm_sync_def)
  from bind_return [OF this] m show thesis by (auto intro!: that)
qed

text \<open>The manifest, at the end.\<close>

lemma manifest_effect:
  assumes "sync_write_manifest env entries b s = (return p, s')" "wf_fs (ss_fs s)"
  shows "ss_claimed s' = ss_claimed s \<and> (\<forall>q. q \<noteq> p \<longrightarrow> file_content (ss_fs s') q = file_content (ss_fs s) q)"
proof -
  obtain p0 where p0: "resolver_manifest_path (ss_fs s) (se_library_root env) = return p0"
    using assms(1) by (cases "resolver_manifest_path (ss_fs s) (se_library_root env)") (simp_all add: sync_write_manifest_def)
  have same: "in_fs (if b then eff_return [] else read_entries p0) s = (fst (in_fs (if b then eff_return [] else read_entries p0) s), s)"
    by (cases b) (auto simp: in_fs_def read_entries_keeps prod_eq_iff split: prod.split dest: arg_cong [of _ _ snd])
  obtain old where old: "in_fs (if b then eff_return [] else read_entries p0) s = (return old, s)"
    using assms(1) p0 same by (cases "fst (in_fs (if b then eff_return [] else read_entries p0) s)")
      (auto simp: sync_write_manifest_def)
  let ?c = "manifest_text (merge_entries old entries)"
  show ?thesis
  proof (cases "file_content (ss_fs s) p0 = Some ?c")
    case True
    then show ?thesis using assms(1) p0 old by (simp add: sync_write_manifest_def Let_def)
  next
    case False
    then have run: "eff_then (track p0) (eff_then (in_fs (atomic_write_text p0 ?c)) (eff_return p0)) s = (return p, s')"
      using assms(1) p0 old by (simp add: sync_write_manifest_def Let_def)
    obtain s1 where t: "track p0 s = (return (), s1)"
      using run by (cases "track p0 s"; cases "fst (track p0 s)") auto
    then have s1: "ss_fs s1 = ss_fs s" "ss_claimed s1 = ss_claimed s" using track_keeps by blast+
    have run: "eff_then (in_fs (atomic_write_text p0 ?c)) (eff_return p0) s1 = (return p, s')" using run t by simp
    then have "p = p0" "s' = s1\<lparr>ss_fs := snd (atomic_write_bytes p0 ?c (ss_fs s))\<rparr>"
      using s1 by (cases "atomic_write_bytes p0 ?c (ss_fs s)"; cases "fst (atomic_write_bytes p0 ?c (ss_fs s))";
        auto simp: eff_then_def eff_bind_def in_fs_def atomic_write_text_def)+
    then show ?thesis using atomic_write_frame [OF assms(2), of p0 ?c] s1 by simp
  qed
qed

lemma result_effect:
  assumes "sync_result_of env g part s = (return res, s')" "wf_fs (ss_fs s)"
  shows "sr_synced_files res = pg_synced_files g \<and> sr_written_paths res = pg_written_paths g \<and> sr_scanned_files res = pg_scanned g \<and>
    sr_skipped_files res = pg_skipped g \<and> sr_reused_files res = pg_reused g \<and> sr_partial res = part \<and>
    sr_written_files res = card (set (pg_written_paths g)) \<and>
    (\<forall>q. sr_manifest_path res \<noteq> Some q \<longrightarrow> file_content (ss_fs s') q = file_content (ss_fs s) q)"
proof (cases "pg_manifest_entries g \<noteq> [] \<or> (se_resolver env \<noteq> None \<and> \<not> part)")
  case True
  then obtain p t where w: "sync_write_manifest env (pg_manifest_entries g) (\<not> part) s = (return p, t)"
    using assms(1) by (cases "sync_write_manifest env (pg_manifest_entries g) (\<not> part) s";
        cases "fst (sync_write_manifest env (pg_manifest_entries g) (\<not> part) s)") (auto simp: sync_result_of_def)
  then show ?thesis using True assms(1) manifest_effect [OF w assms(2)]
    by (auto simp: sync_result_of_def length_remdups_card_conv)
next
  case False
  then show ?thesis using assms(1) by (auto simp: sync_result_of_def length_remdups_card_conv)
qed

section \<open>What the run keeps\<close>

definition accounted :: "progress \<Rightarrow> bool" where
  "accounted g \<longleftrightarrow> pg_written_paths g = map sf_path (pg_synced_files g) \<and>
     length (pg_synced_files g) \<le> pg_scanned g \<and> pg_scanned g \<le> length (pg_synced_files g) + pg_skipped g \<and>
     pg_reused g = length (filter sf_reused (pg_synced_files g))"

lemma accounted_step: "sync_one env hashes f g s = (return g', s') \<Longrightarrow> accounted g \<Longrightarrow> accounted g'"
  by (erule sync_one_cases) (auto simp: accounted_def counts_as_def)

lemma files_limited:
  "sync_files env hashes (Some n) fs g s = (return (g', l), s') \<Longrightarrow> length (pg_written_paths g) \<le> n \<Longrightarrow> length (pg_written_paths g') \<le> n"
proof (induction fs arbitrary: g s)
  case (Cons f fs)
  show ?case
  proof (cases "n \<le> length (pg_written_paths g)")
    case True
    then show ?thesis using Cons.prems by simp
  next
    case False
    then obtain g1 s1 where g1: "sync_one env hashes f g s = (return g1, s1)" "sync_files env hashes (Some n) fs g1 s1 = (return (g', l), s')"
      using Cons.prems(1) by (auto dest: bind_return)
    from g1(1) have "length (pg_written_paths g1) \<le> length (pg_written_paths g) + 1"
      by (rule sync_one_cases) (simp_all add: counts_as_def)
    then show ?thesis using Cons.IH [OF g1(2)] False by simp
  qed
qed simp

lemma kinds_limited:
  "sync_kinds env (Some n) kinds g s = (return (g', l), s') \<Longrightarrow> length (pg_written_paths g) \<le> n \<Longrightarrow> length (pg_written_paths g') \<le> n"
proof (induction kinds arbitrary: g s)
  case (Cons kind kinds)
  obtain ds s1 where d: "(let discovered_hashes = (if kind = Torrents then torrent_hashes ds else []); extracted = extract_torbox_files ds kind
      in eff_bind (sync_files env discovered_hashes (Some n) (ef_files extracted)
          (g\<lparr>pg_skipped := pg_skipped g + ef_skipped_count extracted\<rparr>)) (\<lambda>(g, limited).
        if limited then eff_return (g, True) else sync_kinds env (Some n) kinds g)) s1 = (return (g', l), s')"
    using bind_return [OF Cons.prems(1) [unfolded sync_kinds.simps]] by blast
  obtain g2 l2 s2 where f: "sync_files env (if kind = Torrents then torrent_hashes ds else []) (Some n)
      (ef_files (extract_torbox_files ds kind)) (g\<lparr>pg_skipped := pg_skipped g + ef_skipped_count (extract_torbox_files ds kind)\<rparr>) s1
        = (return (g2, l2), s2)" "(if l2 then eff_return (g2, True) else sync_kinds env (Some n) kinds g2) s2 = (return (g', l), s')"
    using bind_return [OF d [unfolded Let_def]] by auto
  have "length (pg_written_paths g2) \<le> n" using files_limited [OF f(1)] Cons.prems(2) by simp
  then show ?case using f(2) Cons.IH by (cases l2) auto
qed simp

text \<open>The last file synchronised to each path.\<close>

definition latest :: "synced_file list \<Rightarrow> fpath \<Rightarrow> synced_file option" where
  "latest sfs = map_of (rev (map (\<lambda>sf. (sf_path sf, sf)) sfs))"

lemma latest_snoc: "latest (sfs @ [sf]) = (latest sfs)(sf_path sf \<mapsto> sf)"
  by (simp add: latest_def)

definition plays :: "'w strm_env \<Rightarrow> fs \<Rightarrow> fpath \<Rightarrow> synced_file \<Rightarrow> bool" where
  "plays env F p sf \<longleftrightarrow> (\<exists>f. describes env f sf \<and> file_content F p = Some (play_url env f @ [CHR 0x0A]))"

definition files_play :: "'w strm_env \<Rightarrow> progress \<Rightarrow> 'w strm_state \<Rightarrow> bool" where
  "files_play env g s \<longleftrightarrow> wf_fs (ss_fs s) \<and>
     (\<forall>p sf. latest (pg_synced_files g) p = Some sf \<longrightarrow> plays env (ss_fs s) p sf)"

definition resolved_paths :: "'w strm_env \<Rightarrow> bool" where
  "resolved_paths env \<longleftrightarrow> (\<forall>k sf. map_of (se_reusable env) k = Some sf \<longrightarrow> ''..'' \<notin> set (sf_path sf))"

lemma files_play_step:
  assumes "resolved_paths env" "sync_one env hashes f g s = (return g', s')" "files_play env g s"
  shows "files_play env g' s'"
  using assms(2)
proof (cases rule: sync_one_cases)
  case (skip w)
  then show ?thesis using assms(3) by (simp add: files_play_def counts_as_def)
next
  case (reuse c q)
  have "''..'' \<notin> set (sf_path c)" using reuse(4) assms(1) unfolding resolved_paths_def by blast
  then have q: "q = sf_path c" using ensure_within [OF reuse(5)] by (simp add: resolve_abs)
  have "describes env f (c\<lparr>sf_reused := True\<rparr>)" using reuse(3) by (simp add: describes_def key_of_def)
  then have "plays env (ss_fs s) (sf_path c) (c\<lparr>sf_reused := True\<rparr>)" using reuse(6) q by (auto simp: plays_def)
  moreover have "pg_synced_files g' = pg_synced_files g @ [c\<lparr>sf_reused := True\<rparr>]" using reuse(2) by (simp add: counts_as_def)
  ultimately show ?thesis using assms(3) reuse(1) by (auto simp: files_play_def latest_snoc)
next
  case (stored w e t p s1 s2 sf)
  have t: "''..'' \<notin> set t" "ss_fs s1 = ss_fs s" using target_path_claims [OF stored(1)] by (simp_all add: claimed_for_def)
  have s2: "ss_fs s2 = ss_fs s" using track_keeps [OF stored(2)] t(2) by simp
  obtain F' where w: "write_strm_file (se_library_root env) e (Some (Abs t)) (ss_fs s) = (return p, F')" "ss_fs s' = F'"
    using stored(3) s2 by (auto simp: in_fs_def split: prod.splits)
  have wf: "wf_fs (ss_fs s)" using assms(3) by (simp add: files_play_def)
  note c = write_strm_content [OF wf t(1) w(1)]
  have "plays env (ss_fs s') q sf'" if "latest (pg_synced_files g') q = Some sf'" for q sf'
  proof (cases "q = p")
    case True
    then have "sf' = sf" using that stored(6,8) by (simp add: counts_as_def latest_snoc)
    then show ?thesis using c w(2) stored(4,5) True by (auto simp: plays_def)
  next
    case False
    then have "latest (pg_synced_files g) q = Some sf'" using that stored(6,8) by (simp add: counts_as_def latest_snoc)
    then have "plays env (ss_fs s) q sf'" using assms(3) by (simp add: files_play_def)
    then show ?thesis using False c w(2) by (auto simp: plays_def)
  qed
  then show ?thesis using c w(2) by (simp add: files_play_def)
qed

text \<open>Who owns a path.\<close>

definition owned :: "progress \<Rightarrow> 'w strm_state \<Rightarrow> fpath \<Rightarrow> source_key \<Rightarrow> bool" where
  "owned g s p key \<longleftrightarrow> map_of (ss_claimed s) p = Some key \<or>
     (\<exists>c \<in> set (pg_synced_files g). sf_path c = p \<and> suffixed p (sf_entry_id c))"

definition paths_owned :: "'w strm_env \<Rightarrow> progress \<Rightarrow> 'w strm_state \<Rightarrow> bool" where
  "paths_owned env g s \<longleftrightarrow> wf_fs (ss_fs s) \<and> (\<forall>sf \<in> set (pg_synced_files g). owned g s (sf_path sf) (key_of sf)) \<and>
     (\<forall>k sf. map_of (se_reusable env) k = Some sf \<longrightarrow> owned g s (sf_path sf) k)"

lemma owned_step:
  assumes "owned g s q key" "pg_synced_files g' = pg_synced_files g @ [sf]" "sf_path sf = p"
    and "ss_claimed s' = AList.update p k (ss_claimed s)" "claimable s p k \<or> suffixed p (sf_entry_id sf)"
  shows "owned g' s' q key"
proof (cases "q = p")
  case True
  show ?thesis
  proof (cases "suffixed p (sf_entry_id sf)")
    case True
    then show ?thesis using \<open>q = p\<close> assms(2,3) by (auto simp: owned_def)
  next
    case False
    then have "map_of (ss_claimed s) p = None \<or> map_of (ss_claimed s) p = Some k" using assms(5) by (simp add: claimable_def)
    then show ?thesis using assms(1-4) True by (auto simp: owned_def update_conv')
  qed
next
  case False
  then show ?thesis using assms(1,2,4) by (auto simp: owned_def update_conv')
qed

lemma paths_owned_step:
  assumes "sync_one env hashes f g s = (return g', s')" "paths_owned env g s"
  shows "paths_owned env g' s'"
  using assms(1)
proof (cases rule: sync_one_cases)
  case (skip w)
  then show ?thesis using assms(2) by (simp add: paths_owned_def counts_as_def owned_def)
next
  case (reuse c q)
  have "owned g s (sf_path c) (source_file_key f)" using assms(2) reuse(4) unfolding paths_owned_def by blast
  moreover have "key_of (c\<lparr>sf_reused := True\<rparr>) = source_file_key f" using reuse(3) by (simp add: describes_def key_of_def)
  moreover have "pg_synced_files g' = pg_synced_files g @ [c\<lparr>sf_reused := True\<rparr>]" using reuse(2) by (simp add: counts_as_def)
  moreover have "owned g s p k \<Longrightarrow> owned g' s p k" for p k using calculation(3) by (auto simp: owned_def)
  ultimately show ?thesis using assms(2) reuse(1) by (auto simp: paths_owned_def)
next
  case (stored w e t p s1 s2 sf)
  have t: "''..'' \<notin> set t" "ss_fs s1 = ss_fs s" "ss_claimed s1 = AList.update t (source_file_key f) (ss_claimed s)"
    "claimable s t (source_file_key f) \<or> suffixed t (resolver_entry_id (se_sha256 env) f)"
    using target_path_claims [OF stored(1)] by (auto simp: claimed_for_def claimable_def)
  have s2: "ss_fs s2 = ss_fs s" "ss_claimed s2 = ss_claimed s1" using track_keeps [OF stored(2)] t(2) by simp_all
  obtain F' where w: "write_strm_file (se_library_root env) e (Some (Abs t)) (ss_fs s) = (return p, F')" "ss_fs s' = F'"
    "ss_claimed s' = ss_claimed s2"
    using stored(3) s2 by (auto simp: in_fs_def split: prod.splits)
  have wf: "wf_fs (ss_fs s)" using assms(2) by (simp add: paths_owned_def)
  note c = write_strm_content [OF wf t(1) w(1)]
  have id: "sf_entry_id sf = resolver_entry_id (se_sha256 env) f" "key_of sf = source_file_key f"
    using stored(5) by (simp_all add: describes_def)
  have synced: "pg_synced_files g' = pg_synced_files g @ [sf]" using stored(8) by (simp add: counts_as_def)
  have keep: "owned g' s' q k" if "owned g s q k" for q k
    using owned_step [OF that synced stored(6), of s' "source_file_key f"] t w(3) s2(2) c id by simp
  have "owned g' s' (sf_path sf) (key_of sf)"
    using stored(6) t(3) w(3) s2(2) c id by (simp add: owned_def update_conv')
  then show ?thesis using keep assms(2) c w(2) synced by (auto simp: paths_owned_def)
qed

section \<open>Undoing the run\<close>

definition journaled :: "fs \<Rightarrow> path \<Rightarrow> 'w strm_state \<Rightarrow> bool" where
  "journaled F base s \<longleftrightarrow> (\<exists>j. ss_journal s = Some j \<and> journal_session F base j (ss_fs s))"

lemma keeps_self: "(\<And>s. keeps Q (m s)) \<Longrightarrow> keeps Q (\<lambda>s. m s s)"
  by (simp add: keeps_def)

lemma journaled_world [simp]: "keeps (journaled F base) (in_world m)"
  by (auto simp: keeps_def journaled_def in_world_def split: prod.split)

lemma journaled_claim [simp]: "keeps (journaled F base) (claim p key)"
  by (simp add: claim_def keeps_modify journaled_def)

lemma keeps_if: "(b \<Longrightarrow> keeps Q m) \<Longrightarrow> (\<not> b \<Longrightarrow> keeps Q n) \<Longrightarrow> keeps Q (if b then m else n)"
  by simp

lemma keeps_if_state: "keeps Q m \<Longrightarrow> keeps Q n \<Longrightarrow> keeps Q (\<lambda>s. if P s then m s else n s)"
  by (simp add: keeps_def)

lemma journaled_path: "keeps (journaled F base) (target_path env e f entry_id)"
proof -
  have fresh: "keeps (journaled F base) (fresh_path env e f entry_id)"
    unfolding fresh_path_def by (rule keeps_self) (intro keeps_bind keeps_if keeps_then; simp)
  then show ?thesis
    unfolding target_path_def by (auto split: option.split intro!: keeps_bind keeps_if_state keeps_then)
qed

lemma track_tracked:
  assumes "ss_journal s = Some j" "track p s = (return (), s')" "''..'' \<notin> set p" "''..'' \<notin> set (j_root j)"
  shows "\<exists>j'. journal_track (ss_fs s) (Abs p) j = return j' \<and> ss_journal s' = Some j' \<and> ss_fs s' = ss_fs s \<and> tracked j' p"
proof -
  obtain j' where j': "journal_track (ss_fs s) (Abs p) j = return j'" "s' = s\<lparr>ss_journal := Some j'\<rparr>"
    using assms(1,2) by (auto simp: track_def split: sum.splits)
  obtain q where q: "ensure_within_root (ss_fs s) (Abs (j_root j)) (Abs p) = return q"
    using j'(1) by (auto simp: journal_track_def bind_res_Inr_iff)
  have "q = p" using ensure_within [OF q] assms(3) by (simp add: resolve_abs)
  moreover have "is_prefix (j_root j) q" using ensure_within [OF q] assms(4) by (auto simp: resolve_abs)
  ultimately have q: "ensure_within_root (ss_fs s) (Abs (j_root j)) (Abs p) = return p" "is_prefix (j_root j) p" using q by simp_all
  then have "tracked j' p" using j'(1) q by (auto simp: journal_track_def tracked_def Let_def split: if_splits)
  then show ?thesis using j' by simp
qed

lemma keeps_bind_ensures:
  assumes "keeps Q m" "ensures P R m" "\<And>a. R a \<Longrightarrow> keeps Q (f a)"
  shows "keeps Q (eff_bind m f)"
  unfolding keeps_def
proof (intro allI impI)
  fix s assume "Q s"
  obtain r t where m: "m s = (r, t)" by force
  have t: "Q t" by (rule keepsD [OF assms(1) m \<open>Q s\<close>])
  show "Q (snd (eff_bind m f s))"
  proof (cases r)
    case (Inl e)
    then show ?thesis using m t by simp
  next
    case (Inr a)
    then have "R a" using ensuresD [OF assms(2)] m by simp
    then show ?thesis using assms(3) t Inr m by (simp add: keeps_def)
  qed
qed

lemma journaled_store:
  assumes "journal_session F base j G" "tracked j p" "''..'' \<notin> set p"
  shows "journal_session F base j (snd (write_strm_file lib e (Some (Abs p)) G))"
    and "journal_session F base j (snd (atomic_write_text p c G))"
proof -
  have store: "journal_session F base j (snd (atomic_write_bytes p c G))" for c
    by (rule journal_session.store [OF assms(1,2)])
  then show "journal_session F base j (snd (atomic_write_text p c G))" by (simp add: atomic_write_text_def)
  have same: "snd (eff_then (atomic_write_bytes p c) (eff_return p) G) = snd (atomic_write_bytes p c G)" for c
    by (cases "atomic_write_bytes p c G"; cases "fst (atomic_write_bytes p c G)") auto
  show "journal_session F base j (snd (write_strm_file lib e (Some (Abs p)) G))"
  proof (cases "ensure_within_root G lib (Abs p)")
    case (Inl x)
    then show ?thesis using assms(1) by (simp add: write_strm_file_def)
  next
    case (Inr q)
    then have "q = p" using ensure_within [OF Inr] assms(3) by (simp add: resolve_abs)
    then show ?thesis using write_strm_cases [OF Inr, of e] assms(1) store same by auto
  qed
qed

lemma journaled_root: "wf_fs F \<Longrightarrow> journal_session F base j G \<Longrightarrow> ''..'' \<notin> set (j_root j)"
  using journal_session_inv [of F base j G] by (simp add: journal_inv_def resolve_no_dots)

text \<open>A tracked write.\<close>

lemma journaled_write:
  fixes f :: "'a \<Rightarrow> ('w, 'b) strm"
  assumes "wf_fs F" "''..'' \<notin> set p" "\<And>a. keeps (journaled F base) (f a)"
    and "\<And>j G. journal_session F base j G \<Longrightarrow> tracked j p \<Longrightarrow> journal_session F base j (snd (m G))"
  shows "keeps (journaled F base) (eff_then (track p) (eff_bind (in_fs m) f))"
  unfolding keeps_def
proof (intro allI impI)
  fix s :: "'w strm_state" assume "journaled F base s"
  then obtain j where j: "ss_journal s = Some j" "journal_session F base j (ss_fs s)" by (auto simp: journaled_def)
  obtain r t where tr: "track p s = (r, t)" by force
  show "journaled F base (snd (eff_then (track p) (eff_bind (in_fs m) f) s))"
  proof (cases r)
    case (Inl x)
    then have "t = s" using tr j(1) by (auto simp: track_def split: sum.splits)
    then show ?thesis using Inl tr j by (auto simp: journaled_def)
  next
    case (Inr u)
    then have tr: "track p s = (return (), t)" using tr by simp
    obtain j' where j': "journal_track (ss_fs s) (Abs p) j = return j'" "ss_journal t = Some j'" "ss_fs t = ss_fs s" "tracked j' p"
      using track_tracked [OF j(1) tr assms(2) journaled_root [OF assms(1) j(2)]] by blast
    then have js: "journal_session F base j' (ss_fs t)" using journal_session.track [OF j(2) j'(1)] by simp
    have "journal_session F base j' (snd (m (ss_fs t)))" by (rule assms(4) [OF js j'(4)])
    then have m: "journaled F base (snd (in_fs m t))"
      using j'(2) by (simp add: in_fs_def journaled_def case_prod_unfold)
    have "journaled F base (snd (eff_bind (in_fs m) f t))"
      using m assms(3) by (simp add: eff_bind_run keeps_def split: sum.split)
    then show ?thesis using tr by simp
  qed
qed

lemma path_no_dots: "ensures (\<lambda>_. True) (\<lambda>p. ''..'' \<notin> set p) (target_path env e f entry_id)"
  unfolding ensures_def
proof
  fix s
  obtain r t where "target_path env e f entry_id s = (r, t)" by force
  then show "case fst (target_path env e f entry_id s) of Inl x \<Rightarrow> True | Inr p \<Rightarrow> ''..'' \<notin> set p"
    using target_path_claims [of env e f entry_id s _ t] by (auto simp: claimed_for_def split: sum.split)
qed

lemma journaled_sync_one: assumes "wf_fs F" shows "keeps (journaled F base) (sync_one env hashes f g)"
proof -
  have resolve: "keeps (journaled F base) (resolve_entry env e sel)" for e sel
    unfolding resolve_entry_def with_anime_classification_def enriched_identity_def
    by (intro keeps_bind; auto split: option.split intro!: keeps_bind)+
  have stored: "keeps (journaled F base) (write_entry env f i e h t md g)" for i e h t md g
    unfolding write_entry_def
    by (rule keeps_bind_ensures [OF journaled_path path_no_dots], rule journaled_write [OF assms])
      (auto intro: journaled_store)
  have process: "keeps (journaled F base) (process_file env f i u h sel g)" for i u h sel g
    unfolding process_file_def Let_def by (auto intro!: keeps_bind keeps_if resolve stored split: prod.split)
  show ?thesis
    unfolding sync_one_def Let_def reusable_file_def reuse_file_def
    by (auto intro!: keeps_bind process split: option.split prod.split)
qed

lemma journaled_run:
  fixes env :: "'w strm_env"
  assumes "wf_fs F"
  shows "keeps (journaled F base) (run_strm_sync env kinds max_files part)"
proof -
  have files: "keeps (journaled F base) (sync_files env hashes m fs g)" for hashes m fs g
    by (induction fs arbitrary: g) (auto intro!: keeps_bind journaled_sync_one [OF assms])
  have kinds: "keeps (journaled F base) (sync_kinds env m ks g)" for m ks g
    by (induction ks arbitrary: g) (auto simp: Let_def intro!: keeps_bind files)
  have manifest: "keeps (journaled F base) (sync_write_manifest env entries b)" for entries b
    unfolding sync_write_manifest_def
  proof (rule keeps_self, rule keeps_bind_ensures [where P = "\<lambda>_. True" and R = "\<lambda>p. ''..'' \<notin> set p"])
    fix s :: "'w strm_state"
    show "ensures (\<lambda>_. True) (\<lambda>p. ''..'' \<notin> set p) (eff_lift (resolver_manifest_path (ss_fs s) (se_library_root env)))"
      by (auto simp: resolver_manifest_path_def dest: within_no_dots split: sum.split)
    fix p :: fpath assume p: "''..'' \<notin> set p"
    have stored: "keeps (journaled F base :: 'w strm_state \<Rightarrow> bool) (eff_then (track p) (eff_then (in_fs (atomic_write_text p c)) (eff_return p)))" for c
      unfolding eff_then_def [of "in_fs _"] using p by (intro journaled_write [OF assms]) (auto intro: journaled_store)
    have pure: "keeps (journaled F base) (in_fs (if b then eff_return [] else read_entries p))"
      by (cases b) (auto simp: keeps_def in_fs_def journaled_def read_entries_keeps case_prod_unfold)
    show "keeps (journaled F base :: 'w strm_state \<Rightarrow> bool) (eff_bind (in_fs (if b then eff_return [] else read_entries p)) (\<lambda>existing s.
       let content = manifest_text (merge_entries existing entries)
       in if file_content (ss_fs s) p = Some content then (return p, s)
          else eff_then (track p) (eff_then (in_fs (atomic_write_text p content)) (eff_return p)) s))"
      unfolding Let_def by (intro keeps_bind pure keeps_if_state stored keeps_simps)
  qed simp
  show ?thesis
    unfolding run_strm_sync_def sync_result_of_def
    by (auto intro!: keeps_bind keeps_if kinds manifest split: prod.split option.split)
qed

section \<open>Claims\<close>

lemma no_progress_fields: "pg_synced_files no_progress = []" "pg_written_paths no_progress = []" "pg_scanned no_progress = 0"
  "pg_skipped no_progress = 0" "pg_reused no_progress = 0"
  by (simp_all add: no_progress_def)

text \<open>C4. Every file a synchronisation reports holds what plays it: when a run returns, the file at the path of each synchronised
  file, written or reused, is the play URL of that very download (or of the one synchronised to the same path last) and a
  newline, and the recorded hash is the hash of that URL. (The manifest is no STRM file.)\<close>

theorem synced_files_play:
  assumes "wf_fs (ss_fs s)" "resolved_paths env" "run_strm_sync env kinds max_files part s = (return res, s')"
    and "latest (sr_synced_files res) p = Some sf" "sr_manifest_path res \<noteq> Some p"
  shows "plays env (ss_fs s') p sf"
proof -
  obtain g l t where run: "sync_kinds env (map_option nat max_files) kinds no_progress s = (return (g, l), t)"
    "sync_result_of env g (l \<or> part) t = (return res, s')"
    using run_cases [OF assms(3)] by metis
  have "files_play env no_progress s" using assms(1) by (simp add: files_play_def no_progress_fields latest_def)
  moreover have "files_play env g s1 \<Longrightarrow> files_play env (g\<lparr>pg_skipped := pg_skipped g + n\<rparr>) s1" for g s1 n
    by (simp add: files_play_def)
  moreover have "files_play env g s1 \<Longrightarrow> files_play env g (s1\<lparr>ss_world := w\<rparr>)" for g s1 w
    by (simp add: files_play_def)
  ultimately have g: "files_play env g t"
    by (intro sync_kinds_inv [where Q = "files_play env", OF files_play_step [OF assms(2)] _ _ run(1)])
  then have "wf_fs (ss_fs t)" by (simp add: files_play_def)
  note r = result_effect [OF run(2) this]
  then have "plays env (ss_fs t) p sf" using g assms(4) by (simp add: files_play_def)
  then show ?thesis using r assms(5) by (simp add: plays_def)
qed

text \<open>C5. Two downloads never share an STRM file: if two files of a run have the same path, they are the same source, or that
  path's name ends with the entry-id suffix of a file at it, which only happens when the first eight characters of two entry
  ids agree or a title imitates such a suffix.\<close>

theorem paths_not_shared:
  assumes "wf_fs (ss_fs s)"
    and "\<And>k sf. map_of (se_reusable env) k = Some sf \<Longrightarrow> map_of (ss_claimed s) (sf_path sf) = Some k"
    and "run_strm_sync env kinds max_files part s = (return res, s')"
    and "a \<in> set (sr_synced_files res)" "b \<in> set (sr_synced_files res)" "sf_path a = sf_path b"
  shows "key_of a = key_of b \<or> (\<exists>c \<in> set (sr_synced_files res). sf_path c = sf_path a \<and> suffixed (sf_path c) (sf_entry_id c))"
proof -
  obtain g l t where run: "sync_kinds env (map_option nat max_files) kinds no_progress s = (return (g, l), t)"
    "sync_result_of env g (l \<or> part) t = (return res, s')"
    using run_cases [OF assms(3)] by metis
  have "paths_owned env no_progress s" using assms(1,2) by (simp add: paths_owned_def no_progress_fields owned_def)
  moreover have "paths_owned env g s1 \<Longrightarrow> paths_owned env (g\<lparr>pg_skipped := pg_skipped g + n\<rparr>) s1" for g s1 n
    by (simp add: paths_owned_def owned_def)
  moreover have "paths_owned env g s1 \<Longrightarrow> paths_owned env g (s1\<lparr>ss_world := w\<rparr>)" for g s1 w
    by (simp add: paths_owned_def owned_def)
  ultimately have g: "paths_owned env g t"
    by (intro sync_kinds_inv [where Q = "paths_owned env", OF paths_owned_step _ _ run(1)])
  then have "wf_fs (ss_fs t)" by (simp add: paths_owned_def)
  with result_effect [OF run(2)] have r: "sr_synced_files res = pg_synced_files g" by blast
  have "owned g t (sf_path a) (key_of a)" "owned g t (sf_path a) (key_of b)"
    using g assms(4-6) unfolding r paths_owned_def by auto
  then show ?thesis by (auto simp: owned_def r)
qed

text \<open>C7. The result accounts for every file looked at: each is synchronised or skipped, the paths are those of the
  synchronised files, the reused ones are counted, and a limit is kept.\<close>

theorem sync_accounts:
  assumes "wf_fs (ss_fs s)" "resolved_paths env" "run_strm_sync env kinds max_files part s = (return res, s')"
  shows "sr_written_paths res = map sf_path (sr_synced_files res) \<and>
    sr_written_files res = card (sf_path ` set (sr_synced_files res)) \<and>
    sr_reused_files res = length (filter sf_reused (sr_synced_files res)) \<and>
    length (sr_synced_files res) \<le> sr_scanned_files res \<and>
    sr_scanned_files res \<le> length (sr_synced_files res) + sr_skipped_files res \<and>
    (\<forall>n. max_files = Some n \<longrightarrow> int (length (sr_synced_files res)) \<le> n)"
proof -
  obtain g l t where run: "sync_kinds env (map_option nat max_files) kinds no_progress s = (return (g, l), t)"
    "sync_result_of env g (l \<or> part) t = (return res, s')" "\<And>n. max_files = Some n \<Longrightarrow> 1 \<le> n"
    using run_cases [OF assms(3)] by metis
  define Q where "Q = (\<lambda>g s. accounted g \<and> files_play env g s)"
  have "Q no_progress s" using assms(1) by (simp add: Q_def accounted_def files_play_def no_progress_fields latest_def)
  moreover have "sync_one env h f g s1 = (return g2, s2) \<Longrightarrow> Q g s1 \<Longrightarrow> Q g2 s2" for h f g s1 g2 s2
    using accounted_step files_play_step [OF assms(2)] by (auto simp: Q_def)
  moreover have "Q g s1 \<Longrightarrow> Q (g\<lparr>pg_skipped := pg_skipped g + n\<rparr>) s1" for g s1 n
    by (auto simp: Q_def accounted_def files_play_def)
  moreover have "Q g s1 \<Longrightarrow> Q g (s1\<lparr>ss_world := w\<rparr>)" for g s1 w
    by (simp add: Q_def files_play_def)
  ultimately have "Q g t" by (intro sync_kinds_inv [where Q = Q, OF _ _ _ run(1)])
  then have g: "accounted g" "wf_fs (ss_fs t)" by (simp_all add: Q_def files_play_def)
  have "int (length (pg_written_paths g)) \<le> n" if "max_files = Some n" for n
  proof -
    have "length (pg_written_paths g) \<le> nat n"
      using kinds_limited [of env "nat n" kinds no_progress s g l t] run(1) that by (simp add: no_progress_fields)
    then show ?thesis using run(3) [OF that] by linarith
  qed
  then show ?thesis using result_effect [OF run(2) g(2)] g(1) by (auto simp: accounted_def)
qed

text \<open>C6. A synchronisation can be undone at any point: whatever the run ends with, it has tracked every file before it wrote
  it, so restoring the journal afterwards gives every file, below the library root and elsewhere, the content it had before
  the run.\<close>

theorem sync_undone:
  assumes "wf_fs F" "ss_fs s = F" "ss_journal s = Some (journal_create F base)"
  shows "\<exists>j. ss_journal (snd (run_strm_sync env kinds max_files part s)) = Some j \<and>
    (let G = ss_fs (snd (run_strm_sync env kinds max_files part s))
     in restorable G (j_root j) (od_keys (j_originals j)) \<longrightarrow>
        fst (journal_restore j G) = return () \<and> file_content (snd (journal_restore j G)) = file_content F)"
proof -
  have "journaled F base s" using assms(2,3) by (simp add: journaled_def journal_session.start)
  then have "journaled F base (snd (run_strm_sync env kinds max_files part s))"
    using journaled_run [OF assms(1), of base env kinds max_files part] by (simp add: keeps_def)
  then obtain j where j: "ss_journal (snd (run_strm_sync env kinds max_files part s)) = Some j"
    "journal_session F base j (ss_fs (snd (run_strm_sync env kinds max_files part s)))" by (auto simp: journaled_def)
  then show ?thesis using journal_restored [OF assms(1) j(2)] by (simp add: Let_def)
qed


section \<open>Witnesses\<close>

definition demo_download :: "int \<Rightarrow> payload" where
  "demo_download i = [(''id'', JInt i), (''name'', JStr ''Up''), (''cached'', JBool True), (''download_finished'', JBool True),
     (''files'', JArr [JObj [(''id'', JInt 1), (''name'', JStr ''u.mkv''), (''mimetype'', JStr ''video/x''), (''size'', JInt 900000000)]])]"

definition demo_synced :: synced_file where
  "demo_synced = \<lparr>sf_path = [''lib'', ''up.strm''], sf_entry_id = ''torrents:7:1'', sf_category = ''movies'', sf_title = ''Up'',
     sf_year = None, sf_season_number = None, sf_episode_number = None, sf_provider = ''torrents'', sf_provider_item_id = ''7'',
     sf_provider_file_id = ''1'',
     sf_content_hash = ''u/torrents/requestdl?token=k&torrent_id=7&file_id=1&redirect=true'',
     sf_tmdb_id = None, sf_tmdb_poster_path = None, sf_provider_item_name = ''Up'', sf_provider_file_name = ''u.mkv'',
     sf_provider_file_path = ''u.mkv'', sf_provider_file_mime_type = ''video/x'', sf_provider_file_size = Some 900000000,
     sf_info_hash = None, sf_source_title = ''Up'', sf_identity_authority = Fallback, sf_identity_confidence = None,
     sf_identity_resolver_version = None, sf_processing_fingerprint = Some ''f'', sf_reused = False\<rparr>"

definition demo_strm_env :: "unit strm_env" where
  "demo_strm_env = \<lparr>se_list = (\<lambda>k w. (return [demo_download 7], w)), se_api_key = ''k'', se_torbox_base_url = ''u'',
     se_library_root = Abs [''lib''], se_resolver = None, se_anime = None, se_overrides = [], se_excluded = [],
     se_lookup = None, se_loader = None, se_torrent_hashes = [],
     se_identities = \<lparr>ii_by_torrent_id = [], ii_by_info_hash = [], ii_by_alias = []\<rparr>,
     se_reusable = [((''torrents'', ''7'', ''1''), demo_synced)],
     se_fingerprint = ''f'', se_sha256 = (\<lambda>s. s)\<rparr>"

definition demo_strm_state :: "unit strm_state" where
  "demo_strm_state = \<lparr>ss_world = (), ss_fs = \<lparr>fs_cwd = [], fs_nodes = [([''lib''], Dir),
       ([''lib'', ''up.strm''], File (''u/torrents/requestdl?token=k&torrent_id=7&file_id=1&redirect=true'' @ [CHR 0x0A]))]\<rparr>,
     ss_journal = Some (journal_create \<lparr>fs_cwd = [], fs_nodes = []\<rparr> (Abs [''lib''])),
     ss_claimed = [([''lib'', ''up.strm''], (''torrents'', ''7'', ''1''))]\<rparr>"

lemma demo_run_evaluated:
  "(case run_strm_sync demo_strm_env [Torrents] (Some 2) False demo_strm_state of (Inl e, s') \<Rightarrow> False
    | (Inr res, s') \<Rightarrow> sr_synced_files res = [demo_synced\<lparr>sf_reused := True\<rparr>] \<and> sr_manifest_path res = None)"
  by code_simp

lemma demo_run:
  obtains res s' where "run_strm_sync demo_strm_env [Torrents] (Some 2) False demo_strm_state = (return res, s')"
    "sr_synced_files res = [demo_synced\<lparr>sf_reused := True\<rparr>]" "sr_manifest_path res = None"
  using demo_run_evaluated by (auto split: prod.splits sum.splits)

lemma demo_wf: "wf_fs (ss_fs demo_strm_state)"
  by (simp add: demo_strm_state_def wf_fs_def od_ok_def node_at_def)

lemma demo_resolved_paths: "resolved_paths demo_strm_env"
  by (simp add: resolved_paths_def demo_strm_env_def demo_synced_def)

theorem synced_files_play_witness:
  "\<exists>s'. snd (run_strm_sync demo_strm_env [Torrents] (Some 2) False demo_strm_state) = s' \<and>
     plays demo_strm_env (ss_fs s') [''lib'', ''up.strm''] (demo_synced\<lparr>sf_reused := True\<rparr>)"
proof -
  obtain res s' where run: "run_strm_sync demo_strm_env [Torrents] (Some 2) False demo_strm_state = (return res, s')"
    "sr_synced_files res = [demo_synced\<lparr>sf_reused := True\<rparr>]" "sr_manifest_path res = None" by (rule demo_run)
  have "latest (sr_synced_files res) [''lib'', ''up.strm''] = Some (demo_synced\<lparr>sf_reused := True\<rparr>)"
    by (simp add: run(2) latest_def demo_synced_def)
  then show ?thesis using synced_files_play [OF demo_wf demo_resolved_paths run(1)] run by simp
qed

theorem paths_not_shared_witness:
  "\<exists>res s'. run_strm_sync demo_strm_env [Torrents] (Some 2) False demo_strm_state = (return res, s') \<and>
     (\<forall>a \<in> set (sr_synced_files res). key_of a = (''torrents'', ''7'', ''1''))"
proof -
  obtain res s' where run: "run_strm_sync demo_strm_env [Torrents] (Some 2) False demo_strm_state = (return res, s')"
    "sr_synced_files res = [demo_synced\<lparr>sf_reused := True\<rparr>]" "sr_manifest_path res = None" by (rule demo_run)
  have claimed: "map_of (ss_claimed demo_strm_state) (sf_path sf) = Some k" if "map_of (se_reusable demo_strm_env) k = Some sf" for k sf
    using that by (auto simp: demo_strm_env_def demo_strm_state_def demo_synced_def split: if_splits)
  let ?b = "demo_synced\<lparr>sf_reused := True\<rparr>"
  have "key_of a = key_of ?b" if "a \<in> set (sr_synced_files res)" for a
    using paths_not_shared [OF demo_wf claimed run(1) that, of ?b] that
    by (auto simp: run(2) suffixed_def endswith_def demo_synced_def)
  then show ?thesis using run(1) by (auto simp: key_of_def demo_synced_def)
qed

theorem sync_accounts_witness:
  "\<exists>res s'. run_strm_sync demo_strm_env [Torrents] (Some 2) False demo_strm_state = (return res, s') \<and>
     sr_written_paths res = [[''lib'', ''up.strm'']] \<and> sr_reused_files res = 1"
proof -
  obtain res s' where run: "run_strm_sync demo_strm_env [Torrents] (Some 2) False demo_strm_state = (return res, s')"
    "sr_synced_files res = [demo_synced\<lparr>sf_reused := True\<rparr>]" "sr_manifest_path res = None" by (rule demo_run)
  then show ?thesis using sync_accounts [OF demo_wf demo_resolved_paths run(1)]
    by (auto simp: demo_synced_def)
qed

theorem sync_undone_witness:
  "\<exists>j. ss_journal (snd (run_strm_sync demo_strm_env [Torrents] (Some 2) False
     (demo_strm_state\<lparr>ss_fs := \<lparr>fs_cwd = [], fs_nodes = []\<rparr>\<rparr>))) = Some j"
  using sync_undone [of "\<lparr>fs_cwd = [], fs_nodes = []\<rparr>" "demo_strm_state\<lparr>ss_fs := \<lparr>fs_cwd = [], fs_nodes = []\<rparr>\<rparr>" "Abs [''lib'']"
      demo_strm_env "[Torrents]" "Some 2" False]
  by (auto simp: wf_fs_def od_ok_def demo_strm_state_def)

end
